(* ===== verification/JS_Prelude.thy ===== *)
theory JS_Prelude
  imports Main "HOL-Library.Sublist" "HOL-Library.Char_ord"
begin

text \<open>
  Shared prelude of the development: the ECMAScript string and array built-ins that
  the sources under \<^verbatim>\<open>src/\<close> call, as executable HOL functions, with the lemmas the
  component theories reason with.

  A JavaScript string is a sequence of UTF-16 code units.  The model takes
  \<^typ>\<open>string\<close> (a list of 8-bit \<^typ>\<open>char\<close>), one \<^typ>\<open>char\<close> per code unit, so it
  covers exactly the strings whose code units are below 256 (ASCII and Latin-1); on
  these every function below computes what the built-in computes.  Code units from
  256 on (among them the white space U+1680, U+2000 to U+200A, U+2028, U+2029,
  U+202F, U+205F, U+3000 and U+FEFF) are outside the model.

  \<^item> \<open>js_whitespace\<close>, \<open>trim\<close>: \<^verbatim>\<open>String.prototype.trim\<close> (WhiteSpace and LineTerminator);
  \<^item> \<open>split_on\<close>: \<^verbatim>\<open>s.split(c)\<close> for a separator of one code unit;
  \<^item> \<open>join_with\<close>: \<^verbatim>\<open>xs.join(sep)\<close> on an array of strings;
  \<^item> \<open>startsWith\<close>, \<open>str_includes\<close>: the prefix and substring tests (\<open>prefix\<close> and
    \<open>sublist\<close> of \<open>HOL-Library.Sublist\<close>);
  \<^item> \<open>findIndex\<close>: \<^verbatim>\<open>xs.findIndex(p)\<close>, an \<^typ>\<open>int\<close> that is \<open>-1\<close> when nothing matches;
  \<^item> \<open>js_nth\<close>, \<open>or_else\<close>, \<open>truthy\<close>: an array read that may be \<^verbatim>\<open>undefined\<close>, the
    operator \<^verbatim>\<open>||\<close> on a string that may be \<^verbatim>\<open>undefined\<close>, and truthiness of such a value;
  \<^item> \<open>filter_index\<close>: \<^verbatim>\<open>xs.filter((x, index, arr) => ...)\<close>;
  \<^item> \<open>replace_all\<close>: \<^verbatim>\<open>s.replace(/c/g, r)\<close> for a pattern of one code unit;
  \<^item> \<open>replace_class\<close>: \<^verbatim>\<open>s.replace(/[...]/g, r)\<close> for a pattern that is one character class,
    and \<open>is_alnum\<close>, the class \<^verbatim>\<open>[a-z0-9]\<close> under the flag \<^verbatim>\<open>i\<close> (on Latin-1 the
    case-insensitive match adds the letters \<^verbatim>\<open>A\<close> to \<^verbatim>\<open>Z\<close> and nothing else);
  \<^item> \<open>toLowerCase\<close>: \<^verbatim>\<open>String.prototype.toLowerCase\<close> on Latin-1.
\<close>

section \<open>Collections of facts\<close>

named_theorems js_defs "definitions of the modelled built-ins, for evaluating closed terms"
named_theorems js_simps "rewrite rules about the modelled built-ins"

type_synonym js_string = string

section \<open>Characters\<close>

abbreviation (input) pipe :: char where "pipe \<equiv> CHR 0x7C"
abbreviation (input) newline :: char where "newline \<equiv> CHR 0x0A"
abbreviation (input) dquote :: char where "dquote \<equiv> CHR 0x22"
abbreviation (input) comma :: char where "comma \<equiv> CHR 0x2C"
abbreviation (input) hyphen :: char where "hyphen \<equiv> CHR 0x2D"
abbreviation (input) space :: char where "space \<equiv> CHR 0x20"

definition js_whitespace :: "char \<Rightarrow> bool" where
  "js_whitespace c \<longleftrightarrow>
     c \<in> set [CHR 0x09, CHR 0x0A, CHR 0x0B, CHR 0x0C, CHR 0x0D, CHR 0x20, CHR 0xA0]"

definition is_upper :: "char \<Rightarrow> bool" where
  "is_upper c \<longleftrightarrow> CHR ''A'' \<le> c \<and> c \<le> CHR ''Z''"

definition is_lower :: "char \<Rightarrow> bool" where
  "is_lower c \<longleftrightarrow> CHR ''a'' \<le> c \<and> c \<le> CHR ''z''"

definition is_digit :: "char \<Rightarrow> bool" where
  "is_digit c \<longleftrightarrow> CHR ''0'' \<le> c \<and> c \<le> CHR ''9''"

definition is_latin1_upper :: "char \<Rightarrow> bool" where
  "is_latin1_upper c \<longleftrightarrow> CHR 0xC0 \<le> c \<and> c \<le> CHR 0xDE \<and> c \<noteq> CHR 0xD7"

definition lower_char :: "char \<Rightarrow> char" where
  "lower_char c =
     (if is_upper c \<or> is_latin1_upper c then char_of (of_char c + (32 :: nat)) else c)"

definition toLowerCase :: "js_string \<Rightarrow> js_string" where
  "toLowerCase s = map lower_char s"

section \<open>Trimming\<close>

definition trim_start :: "js_string \<Rightarrow> js_string" where
  "trim_start s = dropWhile js_whitespace s"

definition trim_end :: "js_string \<Rightarrow> js_string" where
  "trim_end s = rev (dropWhile js_whitespace (rev s))"

definition trim :: "js_string \<Rightarrow> js_string" where
  "trim s = trim_end (trim_start s)"

definition is_trimmed :: "js_string \<Rightarrow> bool" where
  "is_trimmed s \<longleftrightarrow> (s = [] \<or> (\<not> js_whitespace (hd s) \<and> \<not> js_whitespace (last s)))"

section \<open>Splitting and joining\<close>

primrec split_aux :: "'a \<Rightarrow> 'a list \<Rightarrow> 'a list \<times> 'a list list" where
  "split_aux c [] = ([], [])"
| "split_aux c (x # xs) =
     (case split_aux c xs of
        (cur, rest) \<Rightarrow> if x = c then ([], cur # rest) else (x # cur, rest))"

definition split_on :: "'a \<Rightarrow> 'a list \<Rightarrow> 'a list list" where
  "split_on c s = (case split_aux c s of (cur, rest) \<Rightarrow> cur # rest)"

fun join_with :: "'a list \<Rightarrow> 'a list list \<Rightarrow> 'a list" where
  "join_with sep [] = []"
| "join_with sep [x] = x"
| "join_with sep (x # y # ys) = x @ sep @ join_with sep (y # ys)"

section \<open>Tests on strings\<close>

definition startsWith :: "js_string \<Rightarrow> js_string \<Rightarrow> bool" where
  "startsWith s p = prefix p s"

definition str_includes :: "js_string \<Rightarrow> js_string \<Rightarrow> bool" where
  "str_includes s p = sublist p s"

section \<open>Arrays\<close>

fun findIndex :: "('a \<Rightarrow> bool) \<Rightarrow> 'a list \<Rightarrow> int" where
  "findIndex P [] = - 1"
| "findIndex P (x # xs) =
     (if P x then 0 else (let r = findIndex P xs in if r = - 1 then - 1 else r + 1))"

definition js_nth :: "'a list \<Rightarrow> nat \<Rightarrow> 'a option" where
  "js_nth xs i = (if i < length xs then Some (xs ! i) else None)"

definition truthy :: "js_string option \<Rightarrow> bool" where
  "truthy v = (case v of None \<Rightarrow> False | Some s \<Rightarrow> s \<noteq> [])"

definition or_else :: "js_string option \<Rightarrow> js_string \<Rightarrow> js_string" where
  "or_else v d = (case v of None \<Rightarrow> d | Some s \<Rightarrow> if s = [] then d else s)"

definition filter_index :: "('a \<Rightarrow> nat \<Rightarrow> 'a list \<Rightarrow> bool) \<Rightarrow> 'a list \<Rightarrow> 'a list" where
  "filter_index P xs = map fst (filter (\<lambda>(x, i). P x i xs) (zip xs [0..<length xs]))"

definition replace_all :: "'a \<Rightarrow> 'a list \<Rightarrow> 'a list \<Rightarrow> 'a list" where
  "replace_all c r s = concat (map (\<lambda>x. if x = c then r else [x]) s)"

definition replace_class :: "('a \<Rightarrow> bool) \<Rightarrow> 'a list \<Rightarrow> 'a list \<Rightarrow> 'a list" where
  "replace_class P r s = concat (map (\<lambda>x. if P x then r else [x]) s)"

definition is_alnum :: "char \<Rightarrow> bool" where
  "is_alnum c \<longleftrightarrow> is_lower c \<or> is_upper c \<or> is_digit c"

lemmas [js_defs] =
  replace_class_def is_alnum_def js_whitespace_def is_upper_def is_lower_def is_digit_def is_latin1_upper_def
  lower_char_def toLowerCase_def trim_start_def trim_end_def trim_def is_trimmed_def
  split_on_def startsWith_def str_includes_def js_nth_def truthy_def or_else_def
  filter_index_def replace_all_def

section \<open>Lemmas: trimming\<close>

lemma trim_Nil [simp, js_simps]: "trim [] = []"
  by (simp add: trim_def trim_start_def trim_end_def)

lemma is_trimmed_Nil [simp, js_simps]: "is_trimmed []"
  by (simp add: is_trimmed_def)

lemma trim_end_eq_Nil_iff: "trim_end s = [] \<longleftrightarrow> (\<forall>c \<in> set s. js_whitespace c)"
  by (auto simp: trim_end_def dropWhile_eq_Nil_conv)

lemma hd_trim_start: "trim_start s \<noteq> [] \<Longrightarrow> \<not> js_whitespace (hd (trim_start s))"
  unfolding trim_start_def using hd_dropWhile by blast

lemma last_trim_end: "trim_end s \<noteq> [] \<Longrightarrow> \<not> js_whitespace (last (trim_end s))"
  unfolding trim_end_def by (simp add: last_rev hd_dropWhile)

lemma trim_end_append_nonws:
  "\<not> js_whitespace x \<Longrightarrow> trim_end (x # s) = x # trim_end s"
proof -
  assume x: "\<not> js_whitespace x"
  have "dropWhile js_whitespace (rev s @ [x]) = dropWhile js_whitespace (rev s) @ [x]"
    using x by (induction "rev s" arbitrary: s rule: rev_induct)
      (auto simp: dropWhile_append)
  then show ?thesis by (simp add: trim_end_def)
qed

lemma hd_trim_end:
  assumes "s \<noteq> []" and "\<not> js_whitespace (hd s)"
  shows "trim_end s \<noteq> [] \<and> hd (trim_end s) = hd s"
  using assms by (cases s) (auto simp: trim_end_append_nonws)

lemma is_trimmed_trim [simp, js_simps]: "is_trimmed (trim s)"
proof (cases "trim s = []")
  case True
  then show ?thesis by simp
next
  case False
  then have ne: "trim_start s \<noteq> []"
    by (auto simp: trim_def trim_end_def)
  with hd_trim_start have h: "\<not> js_whitespace (hd (trim_start s))" by blast
  from hd_trim_end [OF ne h] have "hd (trim s) = hd (trim_start s)"
    by (simp add: trim_def)
  moreover from False have "\<not> js_whitespace (last (trim s))"
    unfolding trim_def by (rule last_trim_end)
  ultimately show ?thesis using h by (simp add: is_trimmed_def)
qed

lemma trim_start_id: "s = [] \<or> \<not> js_whitespace (hd s) \<Longrightarrow> trim_start s = s"
  by (cases s) (auto simp: trim_start_def)

lemma trim_end_id: "s = [] \<or> \<not> js_whitespace (last s) \<Longrightarrow> trim_end s = s"
  by (cases s rule: rev_cases) (auto simp: trim_end_def)

lemma trim_id [js_simps]: "is_trimmed s \<Longrightarrow> trim s = s"
  by (auto simp: trim_def is_trimmed_def trim_start_id trim_end_id)

lemma trim_idem [simp, js_simps]: "trim (trim s) = trim s"
  by (simp add: trim_id)

lemma trim_start_ws_append:
  "\<forall>c \<in> set a. js_whitespace c \<Longrightarrow> trim_start (a @ s) = trim_start s"
  by (simp add: trim_start_def dropWhile_append)

lemma trim_end_append_ws:
  "\<forall>c \<in> set b. js_whitespace c \<Longrightarrow> trim_end (s @ b) = trim_end s"
  by (simp add: trim_end_def dropWhile_append)

lemma trim_padded [js_simps]:
  assumes "\<forall>c \<in> set a. js_whitespace c" and "\<forall>c \<in> set b. js_whitespace c"
  shows "trim (a @ s @ b) = trim s"
proof -
  have "trim_start (a @ s @ b) = trim_start (s @ b)"
    using assms(1) by (rule trim_start_ws_append)
  moreover have "trim_end (trim_start (s @ b)) = trim_end (trim_start s)"
  proof (cases "\<forall>c \<in> set s. js_whitespace c")
    case True
    then have "trim_start (s @ b) = []" "trim_start s = []"
      using assms(2) by (auto simp: trim_start_def)
    then show ?thesis by simp
  next
    case False
    then have "trim_start (s @ b) = trim_start s @ b"
      by (auto simp: trim_start_def dropWhile_append)
    then show ?thesis using assms(2) by (simp add: trim_end_append_ws)
  qed
  ultimately show ?thesis by (simp add: trim_def)
qed

lemma set_trim_subset: "set (trim s) \<subseteq> set s"
proof -
  have "set (trim s) \<subseteq> set (trim_start s)"
    unfolding trim_def trim_end_def using set_dropWhileD by fastforce
  also have "\<dots> \<subseteq> set s"
    unfolding trim_start_def using set_dropWhileD by fastforce
  finally show ?thesis .
qed

lemma notin_trim [js_simps]: "c \<notin> set s \<Longrightarrow> c \<notin> set (trim s)"
  using set_trim_subset by blast

section \<open>Lemmas: splitting and joining\<close>

lemma split_on_Nil [simp, js_simps]: "split_on c [] = [[]]"
  by (simp add: split_on_def)

lemma split_on_Cons [js_simps]:
  "split_on c (x # xs) =
     (if x = c then [] # split_on c xs
      else (x # hd (split_on c xs)) # tl (split_on c xs))"
  by (simp add: split_on_def split: prod.splits)

lemma split_on_neq_Nil [simp, js_simps]: "split_on c s \<noteq> []"
  by (simp add: split_on_def split: prod.splits)

lemma split_on_no_sep [js_simps]: "c \<notin> set s \<Longrightarrow> split_on c s = [s]"
  by (induction s) (auto simp: split_on_Cons)

lemma split_on_append_sep [js_simps]:
  "c \<notin> set a \<Longrightarrow> split_on c (a @ c # b) = a # split_on c b"
  by (induction a) (auto simp: split_on_Cons)

lemma length_split_on [js_simps]: "length (split_on c s) = Suc (count_list s c)"
  by (induction s) (auto simp: split_on_Cons)

lemma sep_notin_split_on [js_simps]: "x \<in> set (split_on c s) \<Longrightarrow> c \<notin> set x"
proof (induction s arbitrary: x)
  case Nil
  then show ?case by simp
next
  case (Cons a s)
  then show ?case
    by (cases "split_on c s") (auto simp: split_on_Cons split: if_splits)
qed

lemma join_with_Cons [js_simps]:
  "ys \<noteq> [] \<Longrightarrow> join_with sep (x # ys) = x @ sep @ join_with sep ys"
  by (cases ys) auto

lemma join_with_Cons_Cons [js_simps]:
  "join_with sep ((a # x) # xs) = a # join_with sep (x # xs)"
  by (cases xs) auto

lemma set_join_with: "x \<in> set xs \<Longrightarrow> set x \<subseteq> set (join_with sep xs)"
  by (induction sep xs rule: join_with.induct) auto

lemma join_split_on [js_simps]: "join_with [c] (split_on c s) = s"
proof (induction s)
  case Nil
  then show ?case by simp
next
  case (Cons a s)
  then show ?case
    by (cases "split_on c s") (auto simp: split_on_Cons join_with_Cons join_with_Cons_Cons)
qed

lemma set_split_on [js_simps]: "x \<in> set (split_on c s) \<Longrightarrow> set x \<subseteq> set s"
  using set_join_with [of x "split_on c s" "[c]"] by (simp add: join_split_on)

lemma split_on_join [js_simps]:
  "xs \<noteq> [] \<Longrightarrow> \<forall>x \<in> set xs. c \<notin> set x \<Longrightarrow> split_on c (join_with [c] xs) = xs"
proof (induction xs rule: induct_list012)
  case 1
  then show ?case by simp
next
  case (2 x)
  then show ?case by (simp add: split_on_no_sep)
next
  case (3 x y ys)
  then show ?case by (simp add: split_on_append_sep)
qed

lemma join_with_snoc_Nil [js_simps]:
  "join_with sep (xs @ [[]]) = concat (map (\<lambda>x. x @ sep) xs)"
  by (induction xs) (auto simp: join_with_Cons)

lemma hd_join_with [js_simps]:
  "xs \<noteq> [] \<Longrightarrow> hd xs \<noteq> [] \<Longrightarrow> hd (join_with sep xs) = hd (hd xs)"
  by (induction sep xs rule: join_with.induct) auto

lemma join_with_neq_Nil [js_simps]:
  "xs \<noteq> [] \<Longrightarrow> last xs \<noteq> [] \<Longrightarrow> join_with sep xs \<noteq> []"
  by (induction sep xs rule: join_with.induct) auto

lemma last_join_with [js_simps]:
  "xs \<noteq> [] \<Longrightarrow> last xs \<noteq> [] \<Longrightarrow> last (join_with sep xs) = last (last xs)"
  by (induction sep xs rule: join_with.induct) (auto simp: join_with_neq_Nil)

lemma join_with_eq_Nil_iff [js_simps]:
  "join_with sep xs = [] \<longleftrightarrow> (xs = [] \<or> (xs = [[]]) \<or> (sep = [] \<and> (\<forall>x \<in> set xs. x = [])))"
  by (induction sep xs rule: join_with.induct) auto

lemma set_join_with_subset [js_simps]:
  "set (join_with sep xs) \<subseteq> set sep \<union> (\<Union>x \<in> set xs. set x)"
  by (induction sep xs rule: join_with.induct) auto

lemma is_trimmedI [js_simps]:
  "s \<noteq> [] \<Longrightarrow> \<not> js_whitespace (hd s) \<Longrightarrow> \<not> js_whitespace (last s) \<Longrightarrow> is_trimmed s"
  by (simp add: is_trimmed_def)

lemma split_on_append [js_simps]:
  "split_on c (a @ b) =
     butlast (split_on c a) @ [last (split_on c a) @ hd (split_on c b)] @ tl (split_on c b)"
proof (induction a)
  case Nil
  then show ?case by (cases "split_on c b") auto
next
  case (Cons x a)
  then show ?case
    by (cases "split_on c a") (auto simp: split_on_Cons)
qed

lemma split_on_snoc [js_simps]:
  "split_on c (s @ [x]) =
     (if x = c then split_on c s @ [[]]
      else butlast (split_on c s) @ [last (split_on c s) @ [x]])"
  by (simp add: split_on_append split_on_Cons)

lemma split_on_rev [js_simps]: "split_on c (rev s) = rev (map rev (split_on c s))"
proof (induction s)
  case Nil
  then show ?case by simp
next
  case (Cons x s)
  then show ?case
    by (cases "split_on c s") (auto simp: split_on_snoc split_on_Cons)
qed

lemma split_on_dropWhile [js_simps]:
  "\<not> P c \<Longrightarrow>
   split_on c (dropWhile P s) = dropWhile P (hd (split_on c s)) # tl (split_on c s)"
proof (induction s)
  case Nil
  then show ?case by simp
next
  case (Cons x s)
  then show ?case by (cases "split_on c s") (auto simp: split_on_Cons)
qed

lemma split_on_trim_start [js_simps]:
  "\<not> js_whitespace c \<Longrightarrow>
   split_on c (trim_start s) = trim_start (hd (split_on c s)) # tl (split_on c s)"
  by (simp add: trim_start_def split_on_dropWhile)

lemma split_on_trim_end [js_simps]:
  assumes "\<not> js_whitespace c"
  shows "split_on c (trim_end s) = butlast (split_on c s) @ [trim_end (last (split_on c s))]"
proof -
  have "split_on c (trim_end s) =
      rev (map rev (split_on c (dropWhile js_whitespace (rev s))))"
    by (simp add: trim_end_def split_on_rev)
  also have "\<dots> = rev (map rev (dropWhile js_whitespace (hd (split_on c (rev s))) #
      tl (split_on c (rev s))))"
    using assms by (simp add: split_on_dropWhile)
  also have "\<dots> = butlast (split_on c s) @ [trim_end (last (split_on c s))]"
    by (simp add: split_on_rev trim_end_def hd_rev last_map map_tl butlast_rev [symmetric] rev_map
        flip: rev_map)
  finally show ?thesis .
qed

lemma butlast_tl_split_on_trim [js_simps]:
  assumes "\<not> js_whitespace c"
  shows "butlast (tl (split_on c (trim s))) = butlast (tl (split_on c s))"
proof -
  let ?xs = "split_on c s"
  have "split_on c (trim s) =
      butlast (trim_start (hd ?xs) # tl ?xs) @ [trim_end (last (trim_start (hd ?xs) # tl ?xs))]"
    using assms by (simp add: trim_def split_on_trim_end split_on_trim_start)
  then show ?thesis
    by (cases ?xs) (auto simp: butlast_tl)
qed

section \<open>Lemmas: arrays\<close>

lemma length_takeWhile_lt [js_simps]:
  "\<exists>x \<in> set xs. \<not> P x \<Longrightarrow> length (takeWhile P xs) < length xs"
  by (induction xs) auto

lemma findIndex_ge [js_simps]: "- 1 \<le> findIndex P xs"
  by (induction xs) (auto simp: Let_def)

lemma findIndex_eq_m1_iff [js_simps]: "findIndex P xs = - 1 \<longleftrightarrow> (\<forall>x \<in> set xs. \<not> P x)"
proof (induction xs)
  case Nil
  then show ?case by simp
next
  case (Cons a xs)
  have "- 1 \<le> findIndex P xs" by (rule findIndex_ge)
  with Cons show ?case by (auto simp: Let_def)
qed

lemma findIndex_takeWhile [js_simps]:
  "findIndex P xs =
     (if \<exists>x \<in> set xs. P x then int (length (takeWhile (\<lambda>x. \<not> P x) xs)) else - 1)"
proof (induction xs)
  case Nil
  then show ?case by simp
next
  case (Cons a xs)
  then show ?case by (auto simp: Let_def)
qed

lemma findIndex_less_length [js_simps]: "findIndex P xs < int (length xs)"
  by (induction xs) (auto simp: Let_def)

lemma findIndex_nth [js_simps]:
  "0 \<le> findIndex P xs \<Longrightarrow> P (xs ! nat (findIndex P xs))"
  using nth_length_takeWhile [of "\<lambda>x. \<not> P x" xs] findIndex_less_length [of P xs]
  by (auto simp: findIndex_takeWhile split: if_splits)

lemma findIndex_first [js_simps]:
  "j < nat (findIndex P xs) \<Longrightarrow> \<not> P (xs ! j)"
  using takeWhile_nth [of j "\<lambda>x. \<not> P x" xs] nth_mem [of j "takeWhile (\<lambda>x. \<not> P x) xs"]
  by (auto simp: findIndex_takeWhile split: if_splits dest: set_takeWhileD)

lemma findIndex_append [js_simps]:
  "\<forall>x \<in> set a. \<not> P x \<Longrightarrow> P x \<Longrightarrow> findIndex P (a @ x # b) = int (length a)"
  by (induction a) (auto simp: Let_def)

lemma filter_index_nths:
  "filter_index (\<lambda>x i arr. Q i (length arr)) xs = nths xs {i. Q i (length xs)}"
  by (simp add: filter_index_def nths_def case_prod_unfold)

lemma nths_inner: "nths xs {i. 0 < i \<and> i < length xs - 1} = butlast (tl xs)"
proof (cases xs)
  case Nil
  then show ?thesis by simp
next
  case (Cons x ys)
  have "{j. Suc j < length ys} = {..<length ys - 1}" by auto
  then show ?thesis by (simp add: Cons nths_Cons butlast_conv_take)
qed

lemma filter_index_inner [js_simps]:
  "filter_index (\<lambda>x i arr. 0 < i \<and> int i < int (length arr) - 1) xs = butlast (tl xs)"
proof -
  have "filter (\<lambda>(x, i). 0 < i \<and> int i < int (length xs) - 1) (zip xs [0..<length xs]) =
        filter (\<lambda>p. snd p \<in> {i. 0 < i \<and> i < length xs - 1}) (zip xs [0..<length xs])"
    by (rule filter_cong) auto
  then have "filter_index (\<lambda>x i arr. 0 < i \<and> int i < int (length arr) - 1) xs =
      nths xs {i. 0 < i \<and> i < length xs - 1}"
    by (simp only: filter_index_def nths_def)
  then show ?thesis by (simp only: nths_inner)
qed

lemma dropWhile_findIndex_none [js_simps]:
  "findIndex P xs = - 1 \<Longrightarrow> dropWhile (\<lambda>x. \<not> P x) xs = []"
  by (simp add: findIndex_eq_m1_iff)

lemma drop_findIndex [js_simps]:
  assumes "findIndex P xs \<noteq> - 1"
  shows "drop (nat (findIndex P xs + 1)) xs = tl (dropWhile (\<lambda>x. \<not> P x) xs)"
proof -
  from assms have "nat (findIndex P xs + 1) = Suc (length (takeWhile (\<lambda>x. \<not> P x) xs))"
    by (simp add: findIndex_takeWhile split: if_splits)
  then show ?thesis
    by (simp add: dropWhile_eq_drop drop_Suc tl_drop)
qed

lemma set_map_filter [js_simps]:
  "y \<in> set (List.map_filter f xs) \<longleftrightarrow> (\<exists>x \<in> set xs. f x = Some y)"
  by (induction xs) (auto split: option.splits)

lemma length_map_filter_le [js_simps]: "length (List.map_filter f xs) \<le> length xs"
  by (induction xs) (auto split: option.splits)

lemma map_filter_append [js_simps]:
  "List.map_filter f (xs @ ys) = List.map_filter f xs @ List.map_filter f ys"
  by (induction xs) (auto split: option.splits)

lemma map_filter_map_Some [js_simps]:
  "\<forall>x \<in> set xs. f (g x) = Some x \<Longrightarrow> List.map_filter f (map g xs) = xs"
  by (induction xs) auto

lemma set_butlast_tl [js_simps]: "set (butlast (tl xs)) \<subseteq> set xs"
  by (cases xs) (auto dest: in_set_butlastD)

lemma set_tl_dropWhile [js_simps]: "set (tl (dropWhile P xs)) \<subseteq> set xs"
proof -
  have "set (tl ys) \<subseteq> set ys" for ys :: "'a list"
    by (cases ys) auto
  then have "set (tl (dropWhile P xs)) \<subseteq> set (dropWhile P xs)" .
  then show ?thesis using set_dropWhileD by fastforce
qed

lemma replace_all_notin [js_simps]: "c \<notin> set s \<Longrightarrow> replace_all c r s = s"
  by (induction s) (auto simp: replace_all_def)

lemma replace_all_append [js_simps]:
  "replace_all c r (a @ b) = replace_all c r a @ replace_all c r b"
  by (simp add: replace_all_def)

lemma replace_all_Cons [js_simps]:
  "replace_all c r (x # s) = (if x = c then r else [x]) @ replace_all c r s"
  by (simp add: replace_all_def)

lemma replace_all_Nil [simp, js_simps]: "replace_all c r [] = []"
  by (simp add: replace_all_def)

section \<open>Lemmas: replacement of a character class and lower case\<close>

lemma replace_class_Nil [simp, js_simps]: "replace_class P r [] = []"
  by (simp add: replace_class_def)

lemma replace_class_Cons [js_simps]:
  "replace_class P r (x # s) = (if P x then r else [x]) @ replace_class P r s"
  by (simp add: replace_class_def)

lemma replace_class_append [js_simps]:
  "replace_class P r (s @ t) = replace_class P r s @ replace_class P r t"
  by (simp add: replace_class_def)

lemma replace_class_single [js_simps]:
  "replace_class P [c] s = map (\<lambda>x. if P x then c else x) s"
  by (induction s) (simp_all add: replace_class_Cons)

lemma replace_all_class: "replace_all c r s = replace_class (\<lambda>x. x = c) r s"
  by (simp add: replace_all_def replace_class_def)

lemma length_toLowerCase [simp, js_simps]: "length (toLowerCase s) = length s"
  by (simp add: toLowerCase_def)

lemma toLowerCase_append [js_simps]: "toLowerCase (s @ t) = toLowerCase s @ toLowerCase t"
  by (simp add: toLowerCase_def)

lemma of_char_upper: "is_upper c \<Longrightarrow> 65 \<le> (of_char c :: nat) \<and> (of_char c :: nat) \<le> 90"
  by (simp add: is_upper_def less_eq_char_def)

lemma lower_char_upper [js_simps]: "is_upper c \<Longrightarrow> is_lower (lower_char c)"
  using of_char_upper [of c] by (simp add: lower_char_def is_lower_def less_eq_char_def)

lemma lower_char_lower [js_simps]: "is_lower c \<Longrightarrow> lower_char c = c"
  by (auto simp add: lower_char_def is_lower_def is_upper_def is_latin1_upper_def less_eq_char_def)

lemma lower_char_digit [js_simps]: "is_digit c \<Longrightarrow> lower_char c = c"
  by (auto simp add: lower_char_def is_digit_def is_upper_def is_latin1_upper_def less_eq_char_def)

lemma lower_char_hyphen [simp, js_simps]: "lower_char hyphen = hyphen"
  by (simp add: lower_char_def is_upper_def is_latin1_upper_def less_eq_char_def)

lemma or_else_neq_Nil [simp, js_simps]: "d \<noteq> [] \<Longrightarrow> or_else v d \<noteq> []"
  by (simp add: or_else_def split: option.splits)

lemma join_with_concat_append [js_simps]:
  "ys \<noteq> [] \<Longrightarrow> join_with sep (xs @ ys) = concat (map (\<lambda>x. x @ sep) xs) @ join_with sep ys"
  by (induction xs) (simp_all add: join_with_Cons)

lemma join_with_Cons_tail:
  "\<exists>tail. join_with [c] (x # xs) = x @ tail \<and> (tail = [] \<or> hd tail = c)"
  by (cases xs) (simp_all add: join_with_Cons)

lemma trim_ws_Cons: "js_whitespace x \<Longrightarrow> trim (x # s) = trim s"
  by (simp add: trim_def trim_start_def)

lemma trim_ws_snoc:
  assumes "js_whitespace x"
  shows "trim (s @ [x]) = trim s"
proof (cases "\<forall>c \<in> set s. js_whitespace c")
  case True
  with assms have "trim_start (s @ [x]) = []" and "trim_start s = []"
    by (simp_all add: trim_start_def)
  then show ?thesis by (simp add: trim_def)
next
  case False
  with assms show ?thesis
    by (auto simp: trim_def trim_start_def trim_end_def dropWhile_append)
qed

lemma sublist_dropWhile:
  "p \<noteq> [] \<Longrightarrow> \<not> P (hd p) \<Longrightarrow> sublist p (dropWhile P s) \<longleftrightarrow> sublist p s"
  by (induction s) (auto simp: sublist_Cons_right prefix_Cons)

lemma sublist_trim:
  assumes "p \<noteq> []" and "\<not> js_whitespace (hd p)" and "\<not> js_whitespace (last p)"
  shows "sublist p (trim s) \<longleftrightarrow> sublist p s"
proof -
  have "sublist p (trim s) \<longleftrightarrow> sublist (rev p) (dropWhile js_whitespace (rev (trim_start s)))"
    by (simp add: trim_def trim_end_def sublist_rev_left)
  also have "\<dots> \<longleftrightarrow> sublist (rev p) (rev (trim_start s))"
    using assms by (simp add: sublist_dropWhile hd_rev)
  also have "\<dots> \<longleftrightarrow> sublist p s"
    using assms by (simp add: trim_start_def sublist_dropWhile)
  finally show ?thesis .
qed

end
