(* ===== verification/Place_Types.thy ===== *)
theory Place_Types
  imports JS_Prelude
begin

text \<open>
  The data contracts of \<^verbatim>\<open>src/types.ts\<close>: the interfaces \<^verbatim>\<open>PlaceData\<close>,
  \<^verbatim>\<open>ScrapeStatus\<close> and \<^verbatim>\<open>SearchParams\<close> as records, field for field.  The field
  \<^verbatim>\<open>id\<close> is \<open>place_id\<close> here (\<open>id\<close> is the identity function of HOL); an optional
  field (\<^verbatim>\<open>googleMapsUrl?: string\<close>) and a nullable one (\<^verbatim>\<open>error: string | null\<close>)
  are \<^typ>\<open>js_string option\<close>.  The theory adds the projections and predicates on
  records that the components share: the six text fields of a place in the order
  of the table's columns, and what it means that they are all populated.
\<close>

section \<open>The interfaces\<close>

record PlaceData =
  place_id :: js_string
  name :: js_string
  address :: js_string
  rating :: js_string
  reviews :: js_string
  website :: js_string
  phone :: js_string
  googleMapsUrl :: "js_string option"

record ScrapeStatus =
  loading :: bool
  error :: "js_string option"
  complete :: bool

record SearchParams =
  query :: js_string

section \<open>Projections and predicates\<close>

definition text_fields :: "PlaceData \<Rightarrow> js_string list" where
  "text_fields p = [name p, address p, rating p, reviews p, website p, phone p]"

definition populated :: "PlaceData \<Rightarrow> bool" where
  "populated p \<longleftrightarrow> list_all (\<lambda>f. f \<noteq> []) (text_fields p)"

named_theorems place_defs "definitions of the projections and predicates on places"

lemmas [place_defs] = text_fields_def populated_def

section \<open>Lemmas\<close>

lemma length_text_fields [simp]: "length (text_fields p) = 6"
  by (simp add: text_fields_def)

lemma text_fields_place_id [simp]: "text_fields (p\<lparr>place_id := i\<rparr>) = text_fields p"
  by (simp add: text_fields_def)

lemma text_fields_googleMapsUrl [simp]:
  "text_fields (p\<lparr>googleMapsUrl := u\<rparr>) = text_fields p"
  by (simp add: text_fields_def)

lemma populated_iff:
  "populated p \<longleftrightarrow>
     name p \<noteq> [] \<and> address p \<noteq> [] \<and> rating p \<noteq> [] \<and> reviews p \<noteq> [] \<and>
     website p \<noteq> [] \<and> phone p \<noteq> []"
  by (simp add: populated_def text_fields_def)

end
