(* ===== verification/Table_Extractor.thy ===== *)
theory Table_Extractor
  imports Place_Types
begin

text \<open>
  The table extractor: \<^verbatim>\<open>parseMarkdownTableToData\<close> of \<^verbatim>\<open>src/utils/parser.ts\<close>.

  The function splits the trimmed text into lines, finds the separator row with
  \<^verbatim>\<open>findIndex\<close>, and runs a \<^verbatim>\<open>for\<close> loop over the lines after it; a line that
  starts with a pipe and has at least two columns pushes one record, whose identifier
  is a fresh \<^verbatim>\<open>crypto.randomUUID()\<close>.  The model keeps that shape:
  \<^item> \<open>is_separator\<close> is the callback of \<^verbatim>\<open>findIndex\<close>, \<open>split_columns\<close> the
    \<^verbatim>\<open>split\<close>/\<^verbatim>\<open>map\<close>/\<^verbatim>\<open>filter\<close> chain of the loop body, \<open>make_place\<close> the object
    literal that is pushed;
  \<^item> \<open>parse_rows\<close> is the loop, a recursion on the index \<open>i\<close> that carries the array
    \<^verbatim>\<open>data\<close> and the number of identifiers drawn so far; it terminates because
    \<open>length lines - i\<close> decreases;
  \<^item> \<open>parseMarkdownTableToData\<close> is the whole function, early return included.
  The random identifiers are a parameter: a \<open>uuid_source\<close> gives the result of the
  \<open>k\<close>-th call of \<^verbatim>\<open>crypto.randomUUID()\<close>, and the functions thread the number of calls
  made, so that what the theorems say holds for every outcome of the generator.

  The reference definitions \<open>row_columns\<close>, \<open>body_lines\<close>, \<open>table_rows\<close> and
  \<open>number_rows\<close> say what the extractor computes without a loop; \<open>rows_of_lines\<close> is
  \<open>table_rows\<close> on the lines of a text that has not been trimmed; \<open>render_row\<close>,
  \<open>separator_row\<close> and \<open>render_table\<close> print a table in the format that the
  system instruction of \<^verbatim>\<open>src/services/geminiService.ts\<close> asks the generator for.
  The lemmas show that the loop computes the reference, that the records it returns
  are well formed, that their identifiers are the draws in order, that printing
  a table and extracting it gives the rows back, and that the trimming of the whole
  text and the lines before the separator row do not change the result.
\<close>

section \<open>The extractor\<close>

type_synonym uuid_source = "nat \<Rightarrow> js_string"

definition is_separator :: "js_string \<Rightarrow> bool" where
  "is_separator line \<longleftrightarrow> startsWith (trim line) ''|'' \<and> str_includes line ''---''"

definition split_columns :: "js_string \<Rightarrow> js_string list" where
  "split_columns line =
     filter_index (\<lambda>col index arr. index > 0 \<and> int index < int (length arr) - 1)
       (map trim (split_on pipe line))"

definition make_place :: "js_string \<Rightarrow> js_string list \<Rightarrow> PlaceData" where
  "make_place uuid columns =
     \<lparr> place_id = uuid,
       name = or_else (js_nth columns 0) ''N/A'',
       address = or_else (js_nth columns 1) ''N/A'',
       rating = or_else (js_nth columns 2) ''N/A'',
       reviews = or_else (js_nth columns 3) ''N/A'',
       website = or_else (js_nth columns 4) ''N/A'',
       phone = or_else (js_nth columns 5) ''N/A'',
       googleMapsUrl = None \<rparr>"

function parse_rows ::
  "uuid_source \<Rightarrow> js_string list \<Rightarrow> nat \<Rightarrow> PlaceData list \<times> nat \<Rightarrow> PlaceData list \<times> nat"
where
  "parse_rows gen lines i (data, k) =
     (if i < length lines then
        (let line = trim (lines ! i) in
         if \<not> startsWith line ''|'' then parse_rows gen lines (i + 1) (data, k)
         else
           (let columns = split_columns line in
            if length columns \<ge> 2
            then parse_rows gen lines (i + 1) (data @ [make_place (gen k) columns], k + 1)
            else parse_rows gen lines (i + 1) (data, k)))
      else (data, k))"
  by pat_completeness auto
termination
  by (relation "measure (\<lambda>(gen, lines, i, st). length lines - i)") auto

declare parse_rows.simps [simp del]

definition parseMarkdownTableToData ::
  "uuid_source \<Rightarrow> nat \<Rightarrow> js_string \<Rightarrow> PlaceData list \<times> nat"
where
  "parseMarkdownTableToData gen k markdown =
     (let lines = split_on newline (trim markdown);
          separatorIndex = findIndex is_separator lines
      in if separatorIndex = - 1 \<or> separatorIndex + 1 \<ge> int (length lines) then ([], k)
         else parse_rows gen lines (nat (separatorIndex + 1)) ([], k))"

section \<open>Reference definitions\<close>

definition row_columns :: "js_string \<Rightarrow> js_string list option" where
  "row_columns l =
     (let t = trim l in
      if startsWith t ''|'' \<and> length (split_columns t) \<ge> 2 then Some (split_columns t)
      else None)"

definition body_lines :: "js_string \<Rightarrow> js_string list" where
  "body_lines markdown =
     tl (dropWhile (\<lambda>l. \<not> is_separator l) (split_on newline (trim markdown)))"

definition table_rows :: "js_string \<Rightarrow> js_string list list" where
  "table_rows markdown = List.map_filter row_columns (body_lines markdown)"

definition rows_of_lines :: "js_string list \<Rightarrow> js_string list list" where
  "rows_of_lines ls = List.map_filter row_columns (tl (dropWhile (\<lambda>l. \<not> is_separator l) ls))"

primrec number_rows :: "uuid_source \<Rightarrow> nat \<Rightarrow> js_string list list \<Rightarrow> PlaceData list" where
  "number_rows gen k [] = []"
| "number_rows gen k (r # rows) = make_place (gen k) r # number_rows gen (Suc k) rows"

definition cell_ok :: "js_string \<Rightarrow> bool" where
  "cell_ok c \<longleftrightarrow> is_trimmed c \<and> pipe \<notin> set c \<and> newline \<notin> set c"

definition cell_text :: "js_string \<Rightarrow> bool" where
  "cell_text c \<longleftrightarrow> c \<noteq> [] \<and> cell_ok c"

definition extracted :: "PlaceData \<Rightarrow> bool" where
  "extracted p \<longleftrightarrow> list_all cell_text (text_fields p) \<and> googleMapsUrl p = None"

definition pad :: "js_string \<Rightarrow> js_string" where
  "pad c = space # c @ [space]"

definition render_row :: "js_string list \<Rightarrow> js_string" where
  "render_row cells = join_with [pipe] ([] # map pad cells @ [[]])"

definition separator_row :: "nat \<Rightarrow> js_string" where
  "separator_row n = join_with [pipe] ([] # replicate n ''---'' @ [[]])"

definition render_table :: "js_string list \<Rightarrow> js_string list list \<Rightarrow> js_string" where
  "render_table header rows =
     join_with [newline]
       (render_row header # separator_row (length header) # map render_row rows)"

definition render_row_open :: "js_string list \<Rightarrow> js_string" where
  "render_row_open cells = join_with [pipe] ([] # map pad cells)"

definition fill_na :: "js_string list \<Rightarrow> js_string list" where
  "fill_na cols = map (\<lambda>c. if c = [] then ''N/A'' else c) (take 6 (cols @ replicate 6 []))"

section \<open>Example inputs\<close>

definition demo_gen :: uuid_source where
  "demo_gen n = replicate (Suc n) CHR ''u''"

definition demo_header :: "js_string list" where
  "demo_header = [''Name'', ''Address'', ''Rating'', ''Reviews'', ''Website'', ''Phone'']"

definition demo_rows :: "js_string list list" where
  "demo_rows =
     [[''Cafe Uno'', ''1 Main St, Baku'', ''4.5'', ''120'', ''uno.example'', ''555-0101''],
      [''Tea House'', ''2 Side St, Baku'', ''4.1'', ''37'', ''N/A'', ''555-0102'']]"

definition demo_sparse_rows :: "js_string list list" where
  "demo_sparse_rows =
     [[''Cafe Uno'', ''1 Main St, Baku'', ''4.5'', [], ''uno.example'', ''555-0101''],
      [''Tea House'', ''2 Side St, Baku'']]"

definition demo_text :: js_string where
  "demo_text = join_with [newline]
     [''Here are the results:'',
      ''| Name | Address | Rating | Reviews | Website | Phone |'',
      ''|---|---|---|---|---|---|'',
      ''| Cafe Uno | 1 Main St, Baku | 4.5 | 120 | uno.example | 555-0101 |'',
      ''Some stray prose.'',
      ''| Tea House | 2 Side St, Baku |'',
      ''| Broken |'']"

named_theorems extractor_defs "definitions of the extractor, for evaluating closed terms"

lemmas [extractor_defs] =
  is_separator_def split_columns_def make_place_def parseMarkdownTableToData_def
  row_columns_def body_lines_def table_rows_def cell_ok_def cell_text_def extracted_def
  pad_def render_row_def separator_row_def render_table_def render_row_open_def fill_na_def

section \<open>Lemmas: columns and records\<close>

lemma split_columns_eq: "split_columns line = butlast (tl (map trim (split_on pipe line)))"
  by (simp add: split_columns_def filter_index_inner)

lemma or_else_js_nth:
  "or_else (js_nth cols i) d = (if i < length cols \<and> cols ! i \<noteq> [] then cols ! i else d)"
  by (simp add: or_else_def js_nth_def)

lemma or_else_cases:
  "or_else (js_nth cols i) d = d \<or> or_else (js_nth cols i) d \<in> set cols"
  by (simp add: or_else_js_nth)

lemma cell_ok_na [simp]: "cell_ok ''N/A''"
  by (simp add: cell_ok_def is_trimmed_def js_whitespace_def)

lemma cell_text_na [simp]: "cell_text ''N/A''"
  by (simp add: cell_text_def)


lemma cell_text_or_else:
  "list_all cell_ok cols \<Longrightarrow> cell_text (or_else (js_nth cols i) ''N/A'')"
  by (auto simp: or_else_js_nth cell_text_def list_all_length)

lemma extracted_make_place: "list_all cell_ok cols \<Longrightarrow> extracted (make_place u cols)"
  by (simp add: extracted_def text_fields_def make_place_def cell_text_or_else)

lemma or_else_js_nth_pad:
  "i < n \<Longrightarrow> or_else (js_nth cols i) d =
     (\<lambda>c. if c = [] then d else c) (take n (cols @ replicate n []) ! i)"
  by (simp add: or_else_js_nth nth_append)

lemma text_fields_make_place:
  "text_fields (make_place u cols) =
     map (\<lambda>c. if c = [] then ''N/A'' else c) (take 6 (cols @ replicate 6 []))"
proof (rule nth_equalityI)
  show "length (text_fields (make_place u cols)) =
      length (map (\<lambda>c. if c = [] then ''N/A'' else c) (take 6 (cols @ replicate 6 [])))"
    by simp
next
  fix i assume "i < length (text_fields (make_place u cols))"
  then have i: "i < 6" by simp
  then consider "i = 0" | "i = 1" | "i = 2" | "i = 3" | "i = 4" | "i = 5" by linarith
  then have "text_fields (make_place u cols) ! i = or_else (js_nth cols i) ''N/A''"
    by cases (simp_all add: text_fields_def make_place_def)
  moreover have "i < length (take 6 (cols @ replicate 6 []))" using i by simp
  ultimately show "text_fields (make_place u cols) ! i =
      map (\<lambda>c. if c = [] then ''N/A'' else c) (take 6 (cols @ replicate 6 [])) ! i"
    using i by (simp only: nth_map or_else_js_nth_pad [of i 6])
qed

lemma cell_ok_trim: "pipe \<notin> set c \<Longrightarrow> newline \<notin> set c \<Longrightarrow> cell_ok (trim c)"
  using notin_trim [of pipe c] notin_trim [of newline c] by (simp add: cell_ok_def)

lemma cell_ok_split_on:
  assumes "newline \<notin> set line" and "c \<in> set (split_on pipe line)"
  shows "cell_ok (trim c)"
proof (rule cell_ok_trim)
  show "pipe \<notin> set c" using assms(2) by (rule sep_notin_split_on)
  show "newline \<notin> set c" using assms set_split_on [of c pipe line] by auto
qed

lemma cell_ok_split_columns:
  assumes "newline \<notin> set line"
  shows "list_all cell_ok (split_columns line)"
proof -
  have "list_all cell_ok (map trim (split_on pipe line))"
    using assms by (simp add: list_all_iff cell_ok_split_on)
  then show ?thesis
    unfolding split_columns_eq list_all_iff
    using set_butlast_tl [of "map trim (split_on pipe line)"] by blast
qed

section \<open>Lemmas: the loop\<close>

lemma length_number_rows [simp]: "length (number_rows gen k rows) = length rows"
  by (induction rows arbitrary: k) auto

lemma number_rows_eq_Nil_iff [simp]: "number_rows gen k rows = [] \<longleftrightarrow> rows = []"
  by (metis length_number_rows length_0_conv)

lemma number_rows_append [simp]:
  "number_rows gen k (a @ b) = number_rows gen k a @ number_rows gen (k + length a) b"
  by (induction a arbitrary: k) auto

lemma place_id_number_rows:
  "map place_id (number_rows gen k rows) = map gen [k..<k + length rows]"
proof (induction rows arbitrary: k)
  case Nil
  then show ?case by simp
next
  case (Cons r rows)
  have "[k..<k + length (r # rows)] = k # [Suc k..<Suc k + length rows]"
    by (subst upt_rec) simp
  with Cons [of "Suc k"] show ?case by (simp add: make_place_def del: upt_Suc)
qed

lemma parse_rows_eq:
  "parse_rows gen lines i (data, k) =
     (let rows = List.map_filter row_columns (drop i lines)
      in (data @ number_rows gen k rows, k + length rows))"
proof (induction gen lines i "(data, k)" arbitrary: data k rule: parse_rows.induct)
  case (1 gen lines i data k)
  show ?case
  proof (cases "i < length lines")
    case False
    then show ?thesis by (simp add: parse_rows.simps [of gen lines i] map_filter_simps)
  next
    case True
    then have d: "drop i lines = lines ! i # drop (Suc i) lines"
      by (simp add: Cons_nth_drop_Suc)
    show ?thesis
      using True 1
      by (simp add: parse_rows.simps [of gen lines i] d map_filter_simps row_columns_def Let_def)
  qed
qed

lemma body_lines_subset: "set (body_lines markdown) \<subseteq> set (split_on newline (trim markdown))"
  unfolding body_lines_def by (rule set_tl_dropWhile)

lemma body_lines_no_newline: "l \<in> set (body_lines markdown) \<Longrightarrow> newline \<notin> set l"
  using body_lines_subset [of markdown] sep_notin_split_on [of l newline] by blast

lemma row_columns_cell_ok:
  "newline \<notin> set l \<Longrightarrow> row_columns l = Some cols \<Longrightarrow> list_all cell_ok cols"
  using cell_ok_split_columns [OF notin_trim, of l]
  by (auto simp: row_columns_def Let_def split: if_splits)

lemma row_columns_length: "row_columns l = Some cols \<Longrightarrow> 2 \<le> length cols"
  by (auto simp: row_columns_def Let_def split: if_splits)

lemma table_rows_cell_ok:
  assumes "cols \<in> set (table_rows markdown)"
  shows "list_all cell_ok cols"
proof -
  from assms obtain l where "l \<in> set (body_lines markdown)" and "row_columns l = Some cols"
    by (auto simp: table_rows_def set_map_filter)
  then show ?thesis
    using body_lines_no_newline row_columns_cell_ok by blast
qed

lemma table_rows_length:
  assumes "cols \<in> set (table_rows markdown)"
  shows "2 \<le> length cols"
proof -
  from assms obtain l where "row_columns l = Some cols"
    by (auto simp: table_rows_def set_map_filter)
  then show ?thesis by (rule row_columns_length)
qed

lemma parse_eq:
  "parseMarkdownTableToData gen k markdown =
     (number_rows gen k (table_rows markdown), k + length (table_rows markdown))"
proof -
  let ?lines = "split_on newline (trim markdown)"
  let ?s = "findIndex is_separator ?lines"
  show ?thesis
  proof (cases "?s = - 1")
    case True
    then have "body_lines markdown = []"
      by (simp add: body_lines_def dropWhile_findIndex_none)
    with True show ?thesis
      by (simp add: parseMarkdownTableToData_def table_rows_def map_filter_simps)
  next
    case False
    then have body: "drop (nat (?s + 1)) ?lines = body_lines markdown"
      by (simp add: body_lines_def drop_findIndex)
    show ?thesis
    proof (cases "?s + 1 \<ge> int (length ?lines)")
      case True
      then have "length ?lines \<le> nat (?s + 1)" by linarith
      then have "body_lines markdown = []"
        using body by simp
      with True show ?thesis
        by (simp add: parseMarkdownTableToData_def table_rows_def map_filter_simps)
    next
      case f: False
      with False show ?thesis
        by (simp add: parseMarkdownTableToData_def Let_def parse_rows_eq body table_rows_def)
    qed
  qed
qed

lemma number_rows_extracted:
  "\<forall>cols \<in> set rows. list_all cell_ok cols \<Longrightarrow> list_all extracted (number_rows gen k rows)"
  by (induction rows arbitrary: k) (auto simp: extracted_make_place)

section \<open>Lemmas: printed tables\<close>

lemma trim_pad: "is_trimmed c \<Longrightarrow> trim (pad c) = c"
  using trim_padded [of "[space]" "[space]" c] by (simp add: pad_def js_whitespace_def trim_id)

lemma pipe_notin_pad: "pipe \<notin> set c \<Longrightarrow> pipe \<notin> set (pad c)"
  by (simp add: pad_def)

lemma render_row_eq: "render_row cells = pipe # concat (map (\<lambda>c. pad c @ [pipe]) cells)"
proof -
  have "join_with [pipe] ([] # (map pad cells @ [[]])) = [pipe] @ join_with [pipe] (map pad cells @ [[]])"
    by (rule join_with_Cons [where x = "[]", simplified]) simp
  then show ?thesis
    by (simp add: render_row_def join_with_snoc_Nil comp_def)
qed

lemma render_row_neq_Nil [simp]: "render_row cells \<noteq> []"
  by (simp add: render_row_eq)

lemma last_render_row: "last (render_row cells) = pipe"
proof -
  have "last (c # concat (map (\<lambda>x. f x @ [c]) xs)) = c" for c :: char and f and xs :: "js_string list"
    by (induction xs) auto
  then show ?thesis by (simp only: render_row_eq)
qed

lemma is_trimmed_render_row [simp]: "is_trimmed (render_row cells)"
  by (rule is_trimmedI) (simp_all add: last_render_row, simp_all add: render_row_eq js_whitespace_def)

lemma split_render_row:
  assumes "list_all cell_ok cells"
  shows "split_on pipe (render_row cells) = [] # map pad cells @ [[]]"
  unfolding render_row_def
proof (rule split_on_join)
  show "[] # map pad cells @ [[]] \<noteq> []" by simp
  show "\<forall>x \<in> set ([] # map pad cells @ [[]]). pipe \<notin> set x"
    using assms by (auto simp: list_all_iff cell_ok_def pad_def)
qed

lemma split_columns_render_row:
  assumes "list_all cell_ok cells"
  shows "split_columns (render_row cells) = cells"
proof -
  have "map (trim \<circ> pad) cells = cells"
    using assms by (induction cells) (auto simp: cell_ok_def trim_pad)
  then show ?thesis
    by (simp add: split_columns_eq split_render_row [OF assms] butlast_append)
qed

lemma row_columns_render_row:
  assumes "list_all cell_ok cells" and "2 \<le> length cells"
  shows "row_columns (render_row cells) = Some cells"
proof -
  have "startsWith (render_row cells) ''|''"
    by (simp add: startsWith_def render_row_eq)
  then show ?thesis
    using assms by (simp add: row_columns_def trim_id split_columns_render_row)
qed

lemma newline_notin_render_row:
  assumes "list_all cell_ok cells"
  shows "newline \<notin> set (render_row cells)"
  using assms by (auto simp: render_row_eq list_all_iff cell_ok_def pad_def)

lemma separator_row_eq: "separator_row n = pipe # concat (replicate n ''---|'')"
proof -
  have "join_with [pipe] ([] # (replicate n ''---'' @ [[]])) =
      [pipe] @ join_with [pipe] (replicate n ''---'' @ [[]])"
    by (rule join_with_Cons [where x = "[]", simplified]) simp
  then show ?thesis
    by (simp add: separator_row_def join_with_snoc_Nil map_replicate)
qed

lemma newline_notin_separator_row: "newline \<notin> set (separator_row n)"
  by (auto simp: separator_row_eq)

lemma separator_row_neq_Nil [simp]: "separator_row n \<noteq> []"
  by (simp add: separator_row_eq)

lemma last_separator_row: "last (separator_row n) = pipe"
proof -
  have "last (c # concat (replicate n (s @ [c]))) = c" for c :: char and s
    by (induction n) auto
  from this [of pipe "''---''"] show ?thesis by (simp add: separator_row_eq)
qed

lemma is_trimmed_separator_row [simp]: "is_trimmed (separator_row n)"
  by (rule is_trimmedI) (simp_all add: last_separator_row, simp_all add: separator_row_eq js_whitespace_def)

lemma is_separator_separator_row: "0 < n \<Longrightarrow> is_separator (separator_row n)"
proof -
  assume "0 < n"
  then obtain m where n: "n = Suc m" by (cases n) auto
  have "separator_row n = [pipe] @ ''---'' @ (pipe # concat (replicate m ''---|''))"
    by (simp add: separator_row_eq n)
  then have "sublist ''---'' (separator_row n)"
    unfolding sublist_def by blast
  moreover have "startsWith (separator_row n) ''|''"
    by (simp add: startsWith_def separator_row_eq)
  ultimately show ?thesis by (simp add: is_separator_def str_includes_def trim_id)
qed

lemma lines_render_table:
  assumes "list_all cell_ok header" and "list_all (list_all cell_ok) rows"
  shows "split_on newline (trim (render_table header rows)) =
     render_row header # separator_row (length header) # map render_row rows"
proof -
  let ?ls = "render_row header # separator_row (length header) # map render_row rows"
  have nl: "\<forall>l \<in> set ?ls. newline \<notin> set l"
    using assms by (auto simp: list_all_iff newline_notin_render_row newline_notin_separator_row)
  have "last ?ls \<noteq> [] \<and> last (last ?ls) = pipe"
    by (cases rows rule: rev_cases) (simp_all add: last_render_row last_separator_row)
  then have "is_trimmed (join_with [newline] ?ls)"
    by (intro is_trimmedI) (simp_all add: join_with_neq_Nil hd_join_with last_join_with render_row_eq js_whitespace_def)
  then have "trim (render_table header rows) = join_with [newline] ?ls"
    by (simp add: render_table_def trim_id)
  then show ?thesis using nl by (simp only: split_on_join list.distinct not_False_eq_True)
qed

lemma table_rows_render_table:
  assumes "header \<noteq> []" and "list_all cell_ok header"
    and "\<not> is_separator (render_row header)"
    and "list_all (\<lambda>r. 2 \<le> length r \<and> list_all cell_ok r) rows"
  shows "table_rows (render_table header rows) = rows"
proof -
  from assms(4) have ok: "list_all (list_all cell_ok) rows"
    by (simp add: list_all_iff)
  have sep: "is_separator (separator_row (length header))"
    using assms(1) by (simp add: is_separator_separator_row)
  have "body_lines (render_table header rows) = map render_row rows"
    using assms(3) sep by (simp add: body_lines_def lines_render_table [OF assms(2) ok])
  moreover have "\<forall>r \<in> set rows. row_columns (render_row r) = Some r"
    using assms(4) by (simp add: list_all_iff row_columns_render_row)
  ultimately show ?thesis
    by (simp add: table_rows_def map_filter_map_Some)
qed

section \<open>Lemmas: the whole function\<close>

lemma fst_parse: "fst (parseMarkdownTableToData gen k markdown) = number_rows gen k (table_rows markdown)"
  by (simp add: parse_eq)

lemma snd_parse: "snd (parseMarkdownTableToData gen k markdown) = k + length (table_rows markdown)"
  by (simp add: parse_eq)

lemma inj_demo_gen: "inj demo_gen"
  by (rule injI) (metis demo_gen_def length_replicate nat.inject)

lemma text_fields_number_rows:
  "map text_fields (number_rows gen k rows) = map fill_na rows"
  by (induction rows arbitrary: k) (simp_all add: text_fields_make_place fill_na_def)

lemma fill_na_id: "length cols = 6 \<Longrightarrow> list_all cell_text cols \<Longrightarrow> fill_na cols = cols"
  by (simp add: fill_na_def list_all_iff cell_text_def map_idI)

lemma split_columns_render_row_open:
  assumes "list_all cell_ok cells"
  shows "split_columns (render_row_open cells) = butlast cells"
proof -
  have "\<forall>x \<in> set ([] # map pad cells). pipe \<notin> set x"
    using assms by (auto simp: list_all_iff cell_ok_def pad_def)
  then have "split_on pipe (render_row_open cells) = [] # map pad cells"
    unfolding render_row_open_def by (simp only: split_on_join list.distinct not_False_eq_True)
  moreover have "map (trim \<circ> pad) cells = cells"
    using assms by (induction cells) (auto simp: cell_ok_def trim_pad)
  ultimately show ?thesis by (simp add: split_columns_eq)
qed

lemma split_columns_trim: "split_columns (trim l) = split_columns l"
proof -
  have "\<not> js_whitespace pipe" by (simp add: js_whitespace_def)
  then have "butlast (tl (split_on pipe (trim l))) = butlast (tl (split_on pipe l))"
    by (rule butlast_tl_split_on_trim)
  then show ?thesis by (simp add: split_columns_eq map_butlast [symmetric] map_tl [symmetric])
qed

lemma row_columns_eq:
  "row_columns l =
     (if startsWith (trim l) ''|'' \<and> 2 \<le> length (split_columns l) then Some (split_columns l)
      else None)"
  by (simp add: row_columns_def Let_def split_columns_trim)

lemma startsWith_trim_render_row_open:
  "startsWith (trim (render_row_open cells)) ''|'' \<longleftrightarrow> cells \<noteq> []"
proof (cases cells)
  case Nil
  then show ?thesis by (simp add: render_row_open_def startsWith_def)
next
  case (Cons c cs)
  then have "render_row_open cells = pipe # join_with [pipe] (map pad cells)"
    by (simp add: render_row_open_def)
  then obtain r where r: "render_row_open cells = pipe # r" by blast
  then have "trim_start (render_row_open cells) = pipe # r"
    by (simp add: trim_start_def js_whitespace_def)
  then have "hd (trim (render_row_open cells)) = pipe \<and> trim (render_row_open cells) \<noteq> []"
    using hd_trim_end [of "pipe # r"] by (simp add: trim_def js_whitespace_def)
  then show ?thesis
    using Cons by (cases "trim (render_row_open cells)") (auto simp: startsWith_def)
qed

section \<open>Lemmas: lines before the table and the trimming of the text\<close>

lemma is_separator_trim [simp]: "is_separator (trim l) \<longleftrightarrow> is_separator l"
  by (simp add: is_separator_def str_includes_def sublist_trim js_whitespace_def)

lemma row_columns_trim [simp]: "row_columns (trim l) = row_columns l"
  by (simp add: row_columns_def)

lemma not_separator_Nil [simp]: "\<not> is_separator []"
  by (simp add: is_separator_def startsWith_def)

lemma row_columns_Nil [simp]: "row_columns [] = None"
  by (simp add: row_columns_def startsWith_def)

lemma rows_of_lines_Nil [simp]: "rows_of_lines [] = []"
  by (simp add: rows_of_lines_def map_filter_simps)

lemma rows_of_lines_Cons:
  "rows_of_lines (l # ls) =
     (if is_separator l then List.map_filter row_columns ls else rows_of_lines ls)"
  by (simp add: rows_of_lines_def)

lemma map_filter_row_columns_trim:
  "List.map_filter row_columns (map trim ls) = List.map_filter row_columns ls"
  by (induction ls) (simp_all add: map_filter_simps split: option.splits)

lemma rows_of_lines_trim: "rows_of_lines (map trim ls) = rows_of_lines ls"
  by (induction ls) (simp_all add: rows_of_lines_Cons map_filter_row_columns_trim)

lemma rows_of_lines_snoc_blank: "rows_of_lines (ls @ [[]]) = rows_of_lines ls"
  by (induction ls) (simp_all add: rows_of_lines_Cons map_filter_append map_filter_simps)

lemma rows_of_lines_trim_start:
  "rows_of_lines (split_on newline (trim_start s)) = rows_of_lines (split_on newline s)"
proof (induction s)
  case Nil
  then show ?case by (simp add: trim_start_def)
next
  case (Cons x s)
  show ?case
  proof (cases "js_whitespace x")
    case True
    have "map trim (split_on newline (x # s)) = map trim (split_on newline s) \<or>
          split_on newline (x # s) = [] # split_on newline s"
      using True by (cases "split_on newline s") (auto simp: split_on_Cons trim_ws_Cons)
    then have "rows_of_lines (split_on newline (x # s)) = rows_of_lines (split_on newline s)"
      by (metis rows_of_lines_trim rows_of_lines_Cons not_separator_Nil)
    with True Cons show ?thesis by (simp add: trim_start_def)
  next
    case False
    then show ?thesis by (simp add: trim_start_def)
  qed
qed

lemma rows_of_lines_trim_end:
  "rows_of_lines (split_on newline (trim_end s)) = rows_of_lines (split_on newline s)"
proof (induction s rule: rev_induct)
  case Nil
  then show ?case by (simp add: trim_end_def)
next
  case (snoc x s)
  show ?case
  proof (cases "js_whitespace x")
    case True
    let ?L = "split_on newline s"
    have L: "butlast ?L @ [last ?L] = ?L" by simp
    have "map trim (butlast ?L @ [last ?L @ [x]]) = map trim (butlast ?L) @ [trim (last ?L)]"
      using True by (simp add: trim_ws_snoc)
    also have "\<dots> = map trim (butlast ?L @ [last ?L])" by (simp only: map_append list.map)
    also have "\<dots> = map trim ?L" by (simp only: L)
    finally have "map trim (split_on newline (s @ [x])) = map trim ?L \<or>
          split_on newline (s @ [x]) = ?L @ [[]]"
      by (cases "x = newline") (simp_all only: split_on_snoc if_True if_False simp_thms)
    then have "rows_of_lines (split_on newline (s @ [x])) = rows_of_lines (split_on newline s)"
      by (metis rows_of_lines_trim rows_of_lines_snoc_blank)
    with True snoc show ?thesis by (simp add: trim_end_def)
  next
    case False
    then show ?thesis by (simp add: trim_end_def)
  qed
qed

lemma table_rows_lines: "table_rows markdown = rows_of_lines (split_on newline markdown)"
  by (simp add: table_rows_def body_lines_def trim_def rows_of_lines_trim_end
      rows_of_lines_trim_start flip: rows_of_lines_def)

lemma table_rows_preamble:
  assumes "list_all (\<lambda>l. newline \<notin> set l \<and> \<not> startsWith (trim l) ''|'') pre"
  shows "table_rows (concat (map (\<lambda>l. l @ [newline]) pre) @ markdown) = table_rows markdown"
  using assms
  by (induction pre)
    (simp_all add: table_rows_lines split_on_append_sep rows_of_lines_Cons is_separator_def)

section \<open>Properties\<close>

text \<open>
  C1 (refinement).  For every generator, every number of identifiers drawn before and
  every text, \<^verbatim>\<open>parseMarkdownTableToData\<close> returns the rows of the loop-free reference
  \<open>table_rows\<close> as records, numbered with the next draws of the generator, and the
  counter advanced by the number of records.  The \<^verbatim>\<open>for\<close> loop and both early returns
  (no separator row; separator row in the last line) agree with the reference.
\<close>

theorem parse_refines_table_rows:
  "parseMarkdownTableToData gen k markdown =
     (number_rows gen k (table_rows markdown), k + length (table_rows markdown))"
  by (rule parse_eq)

text \<open>
  C31 (functional).  The identifiers of the records are the successive results of
  \<^verbatim>\<open>crypto.randomUUID()\<close>, one per record and in the order of the records, and the
  extractor draws exactly as many identifiers as it returns records.
\<close>

theorem parse_ids_are_draws:
  "map place_id (fst (parseMarkdownTableToData gen k markdown)) =
     map gen [k..<snd (parseMarkdownTableToData gen k markdown)]
   \<and> snd (parseMarkdownTableToData gen k markdown) =
     k + length (fst (parseMarkdownTableToData gen k markdown))"
  by (simp add: fst_parse snd_parse place_id_number_rows)

text \<open>
  C13 (safety).  When the generator never returns the same identifier twice, the
  identifiers within one extraction result are pairwise distinct.
\<close>

theorem parse_ids_distinct:
  assumes "inj gen"
  shows "distinct (map place_id (fst (parseMarkdownTableToData gen k markdown)))"
  using assms
  by (simp add: fst_parse place_id_number_rows distinct_map inj_on_subset [OF _ subset_UNIV])

theorem parse_ids_distinct_witness:
  "inj demo_gen \<and>
   map place_id (fst (parseMarkdownTableToData demo_gen 0 demo_text)) = [''u'', ''uu''] \<and>
   distinct (map place_id (fst (parseMarkdownTableToData demo_gen 0 demo_text)))"
proof -
  have "map place_id (fst (parseMarkdownTableToData demo_gen 0 demo_text)) = [''u'', ''uu'']"
    by code_simp
  with inj_demo_gen parse_ids_distinct [OF inj_demo_gen, of 0 demo_text] show ?thesis
    by simp
qed

text \<open>
  C6 (invariant).  Whatever the text, every record the extractor returns is well
  formed: each of its six text fields is non-empty, trimmed, and free of pipes and
  line breaks, and it carries no map URL.
\<close>

theorem parse_records_extracted:
  "list_all extracted (fst (parseMarkdownTableToData gen k markdown))"
  by (simp add: fst_parse number_rows_extracted table_rows_cell_ok)

text \<open>
  C32 (error).  A text none of whose lines is a separator row (a line that, trimmed,
  starts with a pipe, and that contains three hyphens in a row) yields no record and
  draws no identifier.
\<close>

theorem parse_no_separator:
  assumes "\<not> list_ex is_separator (split_on newline (trim markdown))"
  shows "parseMarkdownTableToData gen k markdown = ([], k)"
proof -
  from assms have "findIndex is_separator (split_on newline (trim markdown)) = - 1"
    by (simp add: findIndex_eq_m1_iff list_ex_iff)
  then show ?thesis by (simp add: parseMarkdownTableToData_def)
qed

theorem parse_no_separator_witness:
  "\<not> list_ex is_separator (split_on newline (trim ''| Name | Address |''))
   \<and> parseMarkdownTableToData demo_gen 7 ''| Name | Address |'' = ([], 7)"
proof -
  have h: "\<not> list_ex is_separator (split_on newline (trim ''| Name | Address |''))"
    by code_simp
  from h parse_no_separator [OF h, of demo_gen 7] show ?thesis by simp
qed

text \<open>
  C33 (functional).  What comes before the table is ignored.  Lines put in front of a
  text do not change what is extracted from it, as long as none of them, trimmed,
  starts with a pipe: such a line is no separator row even when it contains three
  hyphens in a row, like a horizontal rule or a sentence with a dash, and it lies
  before the separator row, so it is no data row either.
\<close>

theorem parse_skips_preamble:
  assumes "list_all (\<lambda>l. newline \<notin> set l \<and> \<not> startsWith (trim l) ''|'') pre"
  shows "parseMarkdownTableToData gen k (concat (map (\<lambda>l. l @ [newline]) pre) @ markdown) =
         parseMarkdownTableToData gen k markdown"
  by (simp add: parse_eq table_rows_preamble [OF assms])

theorem parse_skips_preamble_witness:
  "list_all (\<lambda>l. newline \<notin> set l \<and> \<not> startsWith (trim l) ''|'')
     [''Results --- from the map:'', ''''] \<and>
   parseMarkdownTableToData demo_gen 0
     (concat (map (\<lambda>l. l @ [newline]) [''Results --- from the map:'', '''']) @ demo_text) =
   parseMarkdownTableToData demo_gen 0 demo_text \<and>
   map name (fst (parseMarkdownTableToData demo_gen 0 demo_text)) = [''Cafe Uno'', ''Tea House'']"
proof -
  have h: "list_all (\<lambda>l. newline \<notin> set l \<and> \<not> startsWith (trim l) ''|'')
     [''Results --- from the map:'', '''']"
    by code_simp
  have "map name (fst (parseMarkdownTableToData demo_gen 0 demo_text)) = [''Cafe Uno'', ''Tea House'']"
    by code_simp
  with h parse_skips_preamble [OF h, of demo_gen 0 demo_text] show ?thesis by simp
qed

text \<open>
  C10 (functional).  A table printed with a header row that is no separator row, a
  separator row and \<open>N\<close> data rows of two cells or more, whose cells are trimmed and
  free of pipes and line breaks, is extracted to exactly \<open>N\<close> records, in the order of
  the rows, and the fields of each record are the first six cells of its row, with
  \<^verbatim>\<open>N/A\<close> in place of a cell that is missing and of a cell that is empty.
\<close>

theorem parse_rendered_table:
  assumes "header \<noteq> []" and "list_all cell_ok header"
    and "\<not> is_separator (render_row header)"
    and "list_all (\<lambda>r. 2 \<le> length r \<and> list_all cell_ok r) rows"
  shows "fst (parseMarkdownTableToData gen k (render_table header rows)) = number_rows gen k rows
    \<and> length (fst (parseMarkdownTableToData gen k (render_table header rows))) = length rows
    \<and> map text_fields (fst (parseMarkdownTableToData gen k (render_table header rows))) =
        map fill_na rows"
  using assms by (simp add: fst_parse table_rows_render_table text_fields_number_rows)

theorem parse_rendered_table_witness:
  "demo_header \<noteq> [] \<and> list_all cell_ok demo_header
   \<and> \<not> is_separator (render_row demo_header)
   \<and> list_all (\<lambda>r. 2 \<le> length r \<and> list_all cell_ok r) demo_sparse_rows
   \<and> map text_fields
       (fst (parseMarkdownTableToData demo_gen 0 (render_table demo_header demo_sparse_rows))) =
      [[''Cafe Uno'', ''1 Main St, Baku'', ''4.5'', ''N/A'', ''uno.example'', ''555-0101''],
       [''Tea House'', ''2 Side St, Baku'', ''N/A'', ''N/A'', ''N/A'', ''N/A'']]"
proof -
  have h1: "demo_header \<noteq> []" by (simp add: demo_header_def)
  have h2: "list_all cell_ok demo_header" by code_simp
  have h3: "\<not> is_separator (render_row demo_header)" by code_simp
  have h4: "list_all (\<lambda>r. 2 \<le> length r \<and> list_all cell_ok r) demo_sparse_rows" by code_simp
  have "map fill_na demo_sparse_rows =
      [[''Cafe Uno'', ''1 Main St, Baku'', ''4.5'', ''N/A'', ''uno.example'', ''555-0101''],
       [''Tea House'', ''2 Side St, Baku'', ''N/A'', ''N/A'', ''N/A'', ''N/A'']]"
    by code_simp
  with parse_rendered_table [OF h1 h2 h3 h4, of demo_gen 0, THEN conjunct2, THEN conjunct2]
  have "map text_fields
       (fst (parseMarkdownTableToData demo_gen 0 (render_table demo_header demo_sparse_rows))) =
      [[''Cafe Uno'', ''1 Main St, Baku'', ''4.5'', ''N/A'', ''uno.example'', ''555-0101''],
       [''Tea House'', ''2 Side St, Baku'', ''N/A'', ''N/A'', ''N/A'', ''N/A'']]"
    by simp
  with h1 h2 h3 h4 show ?thesis by simp
qed

text \<open>
  C25 (roundtrip).  Printing rows of six non-empty cells as a table and extracting the
  table gives the rows back: the text fields of the records are the cells.
\<close>

theorem parse_render_roundtrip:
  assumes "header \<noteq> []" and "list_all cell_ok header"
    and "\<not> is_separator (render_row header)"
    and "list_all (\<lambda>r. length r = 6 \<and> list_all cell_text r) rows"
  shows "map text_fields (fst (parseMarkdownTableToData gen k (render_table header rows))) = rows"
proof -
  from assms(4) have "list_all (\<lambda>r. 2 \<le> length r \<and> list_all cell_ok r) rows"
    by (auto simp: list_all_iff cell_text_def)
  with assms(1-3) have "table_rows (render_table header rows) = rows"
    by (rule table_rows_render_table)
  moreover from assms(4) have "map fill_na rows = rows"
    by (simp add: list_all_iff fill_na_id map_idI)
  ultimately show ?thesis by (simp add: fst_parse text_fields_number_rows)
qed

theorem parse_render_roundtrip_witness:
  "demo_header \<noteq> [] \<and> list_all cell_ok demo_header
   \<and> \<not> is_separator (render_row demo_header)
   \<and> list_all (\<lambda>r. length r = 6 \<and> list_all cell_text r) demo_rows
   \<and> map text_fields
       (fst (parseMarkdownTableToData demo_gen 0 (render_table demo_header demo_rows))) =
      demo_rows"
proof -
  have h1: "demo_header \<noteq> []" by (simp add: demo_header_def)
  have h2: "list_all cell_ok demo_header" by code_simp
  have h3: "\<not> is_separator (render_row demo_header)" by code_simp
  have h4: "list_all (\<lambda>r. length r = 6 \<and> list_all cell_text r) demo_rows" by code_simp
  from h1 h2 h3 h4 parse_render_roundtrip [OF h1 h2 h3 h4, of demo_gen 0] show ?thesis
    by simp
qed

text \<open>
  C12 (functional).  A data row that does not end with a pipe loses its last cell: the
  extractor drops the first and the last segment of the split line whether or not
  they are empty, so such a row of three cells or more yields all cells but the last,
  and a row of two cells yields no record.
\<close>

theorem row_without_closing_pipe:
  assumes "list_all cell_ok cells"
  shows "row_columns (render_row_open cells) =
     (if 3 \<le> length cells then Some (butlast cells) else None)"
proof -
  have "2 \<le> length (butlast cells) \<longleftrightarrow> 3 \<le> length cells" by auto
  moreover have "3 \<le> length cells \<Longrightarrow> cells \<noteq> []" by auto
  ultimately show ?thesis
    by (auto simp: row_columns_eq split_columns_render_row_open [OF assms]
        startsWith_trim_render_row_open)
qed

theorem row_without_closing_pipe_witness:
  "list_all cell_ok [''Cafe Uno'', ''1 Main St'', ''4.5'']
   \<and> render_row_open [''Cafe Uno'', ''1 Main St'', ''4.5''] = ''| Cafe Uno | 1 Main St | 4.5 ''
   \<and> row_columns ''| Cafe Uno | 1 Main St | 4.5 '' = Some [''Cafe Uno'', ''1 Main St'']"
proof -
  have h: "list_all cell_ok [''Cafe Uno'', ''1 Main St'', ''4.5'']" by code_simp
  have e: "render_row_open [''Cafe Uno'', ''1 Main St'', ''4.5''] = ''| Cafe Uno | 1 Main St | 4.5 ''"
    by code_simp
  from h e row_without_closing_pipe [OF h] show ?thesis by simp
qed

end
