(* ===== verification/Csv_Serializer.thy ===== *)
theory Csv_Serializer
  imports Place_Types
begin

text \<open>
  The CSV serialiser: \<^verbatim>\<open>convertToCSV\<close> of \<^verbatim>\<open>src/utils/parser.ts\<close>.

  \<open>headers\<close> is the constant array of column names, \<open>csv_cells\<close> the callback of
  \<^verbatim>\<open>data.map\<close> that builds the seven cells of a record (\<open>quoted\<close> is the template
  literal that wraps a value in double quotes, \<open>escape_quotes\<close> the call
  \<^verbatim>\<open>replace(/"/g, '""')\<close>, which the code applies to the name and the address only),
  and \<open>convertToCSV\<close> joins the cells of each row with commas and the rows, after
  the header line, with line breaks.

  To state what the text means, the theory defines a reference decoder \<open>csv_decode\<close>:
  a scanner over the characters with the four modes of a CSV reader (at the start of
  a field, in an unquoted field, in a quoted field, after a quote in a quoted field)
  that returns the rows of fields, or \<open>None\<close> for a text that is not well formed.
  Rows end at a line feed, as \<^verbatim>\<open>convertToCSV\<close> writes them.  The lemmas run the
  decoder over what the serialiser writes, field by field, row by row, and invert it
  on a quoted field (\<open>scan_quoted_inv\<close>): a quoted field that decodes to a value was
  written with the quotes of that value doubled, which an unescaped cell is not.
  \<open>extends\<close> says that a result of the decoder continues the rows and the row
  accumulated so far.
\<close>

section \<open>The serialiser\<close>

definition headers :: "js_string list" where
  "headers =
     [''Name'', ''Address'', ''Rating'', ''Reviews'', ''Website'', ''Phone'', ''Google Maps URL'']"

definition quoted :: "js_string \<Rightarrow> js_string" where
  "quoted s = dquote # s @ [dquote]"

definition escape_quotes :: "js_string \<Rightarrow> js_string" where
  "escape_quotes s = replace_all dquote [dquote, dquote] s"

definition csv_cells :: "PlaceData \<Rightarrow> js_string list" where
  "csv_cells place =
     [quoted (escape_quotes (name place)),
      quoted (escape_quotes (address place)),
      quoted (rating place),
      quoted (reviews place),
      quoted (website place),
      quoted (phone place),
      quoted (or_else (googleMapsUrl place) [])]"

definition convertToCSV :: "PlaceData list \<Rightarrow> js_string" where
  "convertToCSV data =
     (let rows = map csv_cells data
      in join_with [newline]
           (join_with [comma] headers # map (\<lambda>row. join_with [comma] row) rows))"

section \<open>A reference decoder\<close>

datatype csv_mode = FieldStart | Unquoted | Quoted | QuoteSeen

fun csv_scan ::
  "csv_mode \<Rightarrow> js_string \<Rightarrow> js_string list \<Rightarrow> js_string list list \<Rightarrow> js_string \<Rightarrow>
   js_string list list option"
where
  "csv_scan Quoted cur row rows [] = None"
| "csv_scan m cur row rows [] = Some (rows @ [row @ [cur]])"
| "csv_scan FieldStart cur row rows (c # cs) =
     (if c = dquote then csv_scan Quoted [] row rows cs
      else if c = comma then csv_scan FieldStart [] (row @ [[]]) rows cs
      else if c = newline then csv_scan FieldStart [] [] (rows @ [row @ [[]]]) cs
      else csv_scan Unquoted [c] row rows cs)"
| "csv_scan Unquoted cur row rows (c # cs) =
     (if c = dquote then None
      else if c = comma then csv_scan FieldStart [] (row @ [cur]) rows cs
      else if c = newline then csv_scan FieldStart [] [] (rows @ [row @ [cur]]) cs
      else csv_scan Unquoted (cur @ [c]) row rows cs)"
| "csv_scan Quoted cur row rows (c # cs) =
     (if c = dquote then csv_scan QuoteSeen cur row rows cs
      else csv_scan Quoted (cur @ [c]) row rows cs)"
| "csv_scan QuoteSeen cur row rows (c # cs) =
     (if c = dquote then csv_scan Quoted (cur @ [dquote]) row rows cs
      else if c = comma then csv_scan FieldStart [] (row @ [cur]) rows cs
      else if c = newline then csv_scan FieldStart [] [] (rows @ [row @ [cur]]) cs
      else None)"

definition csv_decode :: "js_string \<Rightarrow> js_string list list option" where
  "csv_decode s = csv_scan FieldStart [] [] [] s"

definition csv_values :: "PlaceData \<Rightarrow> js_string list" where
  "csv_values p = text_fields p @ [or_else (googleMapsUrl p) []]"

definition quote_safe :: "PlaceData \<Rightarrow> bool" where
  "quote_safe p \<longleftrightarrow>
     list_all (\<lambda>f. dquote \<notin> set f)
       [rating p, reviews p, website p, phone p, or_else (googleMapsUrl p) []]"

definition newline_free :: "PlaceData \<Rightarrow> bool" where
  "newline_free p \<longleftrightarrow> list_all (\<lambda>f. newline \<notin> set f) (csv_values p)"

definition plain_text :: "js_string \<Rightarrow> bool" where
  "plain_text s \<longleftrightarrow> dquote \<notin> set s \<and> comma \<notin> set s \<and> newline \<notin> set s"

definition extends :: "js_string list list \<Rightarrow> js_string list \<Rightarrow> js_string list list \<Rightarrow> bool" where
  "extends rows row R \<longleftrightarrow> (\<exists>fs rs. R = rows @ (row @ fs) # rs)"

section \<open>Example inputs\<close>

definition demo_place :: PlaceData where
  "demo_place =
     \<lparr> place_id = ''id-1'',
       name = ''The '' @ [dquote] @ ''Best'' @ [dquote] @ '' Cafe, Baku'',
       address = ''1 Main St,'' @ [newline] @ ''Baku'',
       rating = ''4.5'', reviews = ''120'', website = ''N/A'', phone = ''555-0101'',
       googleMapsUrl = Some ''https://maps.example/?cid=1'' \<rparr>"

definition demo_plain_place :: PlaceData where
  "demo_plain_place =
     \<lparr> place_id = ''id-2'', name = ''Tea House'', address = ''2 Side St'',
       rating = ''N/A'', reviews = ''N/A'', website = ''N/A'', phone = ''N/A'',
       googleMapsUrl = None \<rparr>"

definition demo_unsafe_place :: PlaceData where
  "demo_unsafe_place = demo_plain_place \<lparr> phone := [dquote, comma, dquote] \<rparr>"

named_theorems csv_defs "definitions of the serialiser and the decoder"

lemmas [csv_defs] =
  headers_def quoted_def escape_quotes_def csv_cells_def convertToCSV_def csv_decode_def
  csv_values_def quote_safe_def plain_text_def newline_free_def extends_def

section \<open>Lemmas: the decoder on what the serialiser writes\<close>

lemma escape_quotes_Nil [simp]: "escape_quotes [] = []"
  by (simp add: escape_quotes_def)

lemma escape_quotes_Cons:
  "escape_quotes (c # s) = (if c = dquote then [dquote, dquote] else [c]) @ escape_quotes s"
  by (simp add: escape_quotes_def replace_all_Cons)

lemma escape_quotes_id: "dquote \<notin> set s \<Longrightarrow> escape_quotes s = s"
  by (simp add: escape_quotes_def replace_all_notin)

lemma scan_quoted_body:
  "csv_scan Quoted cur row rows (escape_quotes s @ dquote # rest) =
     csv_scan QuoteSeen (cur @ s) row rows rest"
  by (induction s arbitrary: cur) (simp_all add: escape_quotes_Cons)

lemma scan_quoted_field:
  "csv_scan FieldStart cur row rows (quoted (escape_quotes s) @ rest) =
     csv_scan QuoteSeen s row rows rest"
  using scan_quoted_body [of "[]" row rows s rest] by (simp add: quoted_def)

lemma scan_unquoted_body:
  "plain_text s \<Longrightarrow> c = comma \<or> c = newline \<Longrightarrow>
   csv_scan Unquoted cur row rows (s @ c # rest) = csv_scan Unquoted (cur @ s) row rows (c # rest)"
  by (induction s arbitrary: cur) (auto simp: plain_text_def)

lemma scan_unquoted_end:
  "plain_text s \<Longrightarrow> csv_scan Unquoted cur row rows s = Some (rows @ [row @ [cur @ s]])"
  by (induction s arbitrary: cur) (auto simp: plain_text_def)

lemma scan_plain_field:
  assumes "plain_text h" and "c = comma \<or> c = newline"
  shows "csv_scan FieldStart [] row rows (h @ c # rest) = csv_scan Unquoted h row rows (c # rest)"
proof (cases h)
  case Nil
  with assms(2) show ?thesis by auto
next
  case (Cons x xs)
  with assms(1) have "plain_text xs" and "x \<noteq> dquote" "x \<noteq> comma" "x \<noteq> newline"
    by (auto simp: plain_text_def)
  with scan_unquoted_body [of xs c "[x]" row rows rest] assms(2) Cons show ?thesis
    by simp
qed

lemma scan_plain_row_cont:
  assumes "list_all plain_text hs" and "hs \<noteq> []"
  shows "csv_scan FieldStart [] row rows (join_with [comma] hs @ newline # rest) =
     csv_scan FieldStart [] [] (rows @ [row @ hs]) rest"
  using assms
proof (induction hs arbitrary: row rule: induct_list012)
  case 1
  then show ?case by simp
next
  case (2 h)
  then show ?case by (simp add: scan_plain_field)
next
  case (3 h h' hs)
  from 3(3) have "plain_text h" and "list_all plain_text (h' # hs)" by simp_all
  with 3(2) [of "row @ [h]"] show ?case
    by (simp add: scan_plain_field)
qed

lemma scan_plain_row_end:
  assumes "list_all plain_text hs" and "hs \<noteq> []"
  shows "csv_scan FieldStart [] row rows (join_with [comma] hs) = Some (rows @ [row @ hs])"
  using assms
proof (induction hs arbitrary: row rule: induct_list012)
  case 1
  then show ?case by simp
next
  case (2 h)
  then show ?case
    by (cases h) (auto simp: plain_text_def scan_unquoted_end [of _ "[_]", simplified])
next
  case (3 h h' hs)
  from 3(3) have "plain_text h" and "list_all plain_text (h' # hs)" by simp_all
  with 3(2) [of "row @ [h]"] show ?case
    by (simp add: scan_plain_field)
qed

lemma scan_quoted_row_cont:
  assumes "fs \<noteq> []"
  shows "csv_scan FieldStart [] row rows
       (join_with [comma] (map (\<lambda>s. quoted (escape_quotes s)) fs) @ newline # rest) =
     csv_scan FieldStart [] [] (rows @ [row @ fs]) rest"
  using assms
proof (induction fs arbitrary: row rule: induct_list012)
  case 1
  then show ?case by simp
next
  case (2 f)
  then show ?case by (simp add: scan_quoted_field)
next
  case (3 f f' fs)
  from 3(2) [of "row @ [f]"] show ?case
    by (simp add: scan_quoted_field)
qed

lemma scan_quoted_row_end:
  assumes "fs \<noteq> []"
  shows "csv_scan FieldStart [] row rows (join_with [comma] (map (\<lambda>s. quoted (escape_quotes s)) fs)) =
     Some (rows @ [row @ fs])"
  using assms
proof (induction fs arbitrary: row rule: induct_list012)
  case 1
  then show ?case by simp
next
  case (2 f)
  from scan_quoted_field [of "[]" row rows f "[]"] show ?case by simp
next
  case (3 f f' fs)
  from 3(2) [of "row @ [f]"] show ?case
    by (simp add: scan_quoted_field)
qed

lemma scan_quoted_rows:
  assumes "rs \<noteq> []" and "\<forall>r \<in> set rs. r \<noteq> []"
  shows "csv_scan FieldStart [] [] rows
       (join_with [newline] (map (\<lambda>r. join_with [comma] (map (\<lambda>s. quoted (escape_quotes s)) r)) rs)) =
     Some (rows @ rs)"
  using assms
proof (induction rs arbitrary: rows rule: induct_list012)
  case 1
  then show ?case by simp
next
  case (2 r)
  then show ?case by (simp add: scan_quoted_row_end)
next
  case (3 r r' rs)
  from 3(2) [of "rows @ [r]"] 3(3,4) show ?case
    by (simp add: scan_quoted_row_cont)
qed

lemma csv_cells_quote_safe:
  "quote_safe p \<Longrightarrow> csv_cells p = map (\<lambda>s. quoted (escape_quotes s)) (csv_values p)"
  by (simp add: quote_safe_def csv_cells_def csv_values_def text_fields_def escape_quotes_id)

lemma plain_headers: "list_all plain_text headers"
  by (simp add: headers_def plain_text_def)

lemma csv_decode_convert:
  assumes "list_all quote_safe data"
  shows "csv_decode (convertToCSV data) = Some (headers # map csv_values data)"
proof (cases data)
  case Nil
  then show ?thesis
    using scan_plain_row_end [OF plain_headers, of "[]" "[]"]
    by (simp add: convertToCSV_def csv_decode_def headers_def)
next
  case (Cons p ps)
  let ?line = "\<lambda>r. join_with [comma] (map (\<lambda>s. quoted (escape_quotes s)) r)"
  have cells: "map (\<lambda>row. join_with [comma] row) (map csv_cells data) = map ?line (map csv_values data)"
    using assms by (simp add: list_all_iff csv_cells_quote_safe)
  have ne: "map ?line (map csv_values data) \<noteq> []" using Cons by simp
  have "convertToCSV data =
      join_with [comma] headers @ newline # join_with [newline] (map ?line (map csv_values data))"
    using ne by (simp add: convertToCSV_def cells join_with_Cons del: map_map)
  moreover have "csv_scan FieldStart [] [] [headers]
      (join_with [newline] (map ?line (map csv_values data))) = Some ([headers] @ map csv_values data)"
    by (rule scan_quoted_rows) (use Cons in \<open>auto simp: csv_values_def\<close>)
  ultimately show ?thesis
    using scan_plain_row_cont [OF plain_headers, of "[]" "[]"]
    by (simp add: csv_decode_def headers_def)
qed

lemma convertToCSV_Nil: "convertToCSV [] = join_with [comma] headers"
  by (simp add: convertToCSV_def)

lemma convertToCSV_snoc:
  "convertToCSV (data @ [p]) = convertToCSV data @ newline # join_with [comma] (csv_cells p)"
proof -
  have "join_with sep (x # xs @ [y]) = join_with sep (x # xs) @ sep @ y"
    for sep x y :: js_string and xs
    by (induction xs arbitrary: x) (simp_all add: join_with_Cons)
  then show ?thesis by (simp add: convertToCSV_def)
qed

lemma newline_notin_header_line: "newline \<notin> set (join_with [comma] headers)"
  by (simp add: headers_def)

lemma lines_convertToCSV_hd:
  "hd (split_on newline (convertToCSV data)) = join_with [comma] headers"
proof (cases data)
  case Nil
  then show ?thesis
    by (simp add: convertToCSV_Nil split_on_no_sep newline_notin_header_line)
next
  case (Cons p ps)
  then have "convertToCSV data = join_with [comma] headers @ newline #
      join_with [newline] (map (\<lambda>row. join_with [comma] row) (map csv_cells data))"
    by (simp add: convertToCSV_def join_with_Cons del: map_map)
  then show ?thesis
    by (simp add: split_on_append_sep newline_notin_header_line del: map_map)
qed

lemma newline_notin_escape: "newline \<notin> set s \<Longrightarrow> newline \<notin> set (escape_quotes s)"
  by (induction s) (auto simp: escape_quotes_Cons)

lemma newline_notin_row:
  assumes "newline_free p"
  shows "newline \<notin> set (join_with [comma] (csv_cells p))"
proof -
  have "\<forall>c \<in> set (csv_cells p). newline \<notin> set c"
    using assms
    by (simp add: newline_free_def csv_values_def text_fields_def csv_cells_def quoted_def
        newline_notin_escape)
  then show ?thesis
    using set_join_with_subset [of "[comma]" "csv_cells p"] by auto
qed

lemma lines_convertToCSV:
  assumes "list_all newline_free data"
  shows "split_on newline (convertToCSV data) =
     join_with [comma] headers # map (\<lambda>p. join_with [comma] (csv_cells p)) data"
proof -
  have "\<forall>l \<in> set (join_with [comma] headers # map (\<lambda>p. join_with [comma] (csv_cells p)) data).
      newline \<notin> set l"
    using assms by (auto simp: list_all_iff newline_notin_header_line newline_notin_row)
  then show ?thesis
    unfolding convertToCSV_def Let_def map_map comp_def
    by (simp only: split_on_join list.distinct not_False_eq_True)
qed

section \<open>Lemmas: the decoder on a cell with an unescaped quote\<close>

lemma unescaped_cell_neq:
  assumes "dquote \<in> set f \<or> 0 < k" and "tail = [] \<or> hd tail \<noteq> dquote"
  shows "f @ dquote # tail \<noteq> replicate k dquote @ escape_quotes f @ dquote # rest"
  using assms(1)
proof (induction f arbitrary: k)
  case Nil
  then obtain j where "k = Suc j" by (cases k) auto
  moreover have "hd (replicate j dquote @ dquote # rest) = dquote"
    by (cases j) simp_all
  ultimately show ?case using assms(2) by auto
next
  case (Cons x f)
  show ?case
  proof (cases "x = dquote")
    case True
    have "f @ dquote # tail \<noteq> replicate (Suc k) dquote @ escape_quotes f @ dquote # rest"
      by (rule Cons.IH) simp
    with True show ?thesis
      by (cases k) (simp_all add: escape_quotes_Cons replicate_app_Cons_same)
  next
    case False
    show ?thesis
    proof (cases k)
      case 0
      with False Cons.prems have "dquote \<in> set f" by simp
      from Cons.IH [of 0] this 0 False show ?thesis
        by (simp add: escape_quotes_Cons)
    next
      case (Suc j)
      with False show ?thesis by simp
    qed
  qed
qed

lemma scan_quoted_ex:
  assumes "csv_scan Quoted cur row rows s = Some R"
  shows "\<exists>v rest. s = escape_quotes v @ dquote # rest \<and> (rest = [] \<or> hd rest \<noteq> dquote) \<and>
          csv_scan QuoteSeen (cur @ v) row rows rest = Some R"
  using assms
proof (induction s arbitrary: cur rule: length_induct)
  case (1 s)
  show ?case
  proof (cases s)
    case Nil
    with "1.prems" show ?thesis by simp
  next
    case (Cons c cs)
    show ?thesis
    proof (cases "c = dquote")
      case False
      with "1.prems" Cons have "csv_scan Quoted (cur @ [c]) row rows cs = Some R" by simp
      with "1.IH" Cons obtain v rest where "cs = escape_quotes v @ dquote # rest"
        and "rest = [] \<or> hd rest \<noteq> dquote"
        and "csv_scan QuoteSeen ((cur @ [c]) @ v) row rows rest = Some R"
        by (metis length_Cons lessI)
      with Cons False show ?thesis
        by (intro exI [of _ "c # v"] exI [of _ rest]) (simp add: escape_quotes_Cons)
    next
      case True
      with "1.prems" Cons have q: "csv_scan QuoteSeen cur row rows cs = Some R" by simp
      show ?thesis
      proof (cases "\<exists>ds. cs = dquote # ds")
        case False
        then have "cs = [] \<or> hd cs \<noteq> dquote" by (cases cs) auto
        with q Cons True show ?thesis
          by (intro exI [of _ "[]"] exI [of _ cs]) simp
      next
        case True
        then obtain ds where ds: "cs = dquote # ds" by blast
        with q have "csv_scan Quoted (cur @ [dquote]) row rows ds = Some R" by simp
        with "1.IH" Cons ds obtain v rest where "ds = escape_quotes v @ dquote # rest"
          and "rest = [] \<or> hd rest \<noteq> dquote"
          and "csv_scan QuoteSeen ((cur @ [dquote]) @ v) row rows rest = Some R"
          by (metis length_Cons lessI less_SucI)
        with Cons \<open>c = dquote\<close> ds show ?thesis
          by (intro exI [of _ "dquote # v"] exI [of _ rest]) (simp add: escape_quotes_Cons)
      qed
    qed
  qed
qed

lemma scan_quoted_inv:
  assumes "csv_scan Quoted cur row rows s = Some R"
  obtains v rest where "s = escape_quotes v @ dquote # rest"
    and "rest = [] \<or> hd rest \<noteq> dquote"
    and "csv_scan QuoteSeen (cur @ v) row rows rest = Some R"
  using scan_quoted_ex [OF assms] by blast

lemma extends_end: "extends rows row (rows @ [row @ [c]])"
  unfolding extends_def by blast

lemma extends_field: "extends rows (row @ [c]) R \<Longrightarrow> extends rows row R"
  unfolding extends_def by (metis append.assoc)

lemma extends_row: "extends (rows @ [row @ [c]]) r R \<Longrightarrow> extends rows row R"
  unfolding extends_def by (metis append.assoc append_Cons append_Nil)

lemma scan_extends:
  "csv_scan m cur row rows s = Some R \<Longrightarrow> extends rows row R"
  by (induction m cur row rows s rule: csv_scan.induct)
    (auto split: if_splits intro: extends_end extends_field extends_row)

lemma scan_quoteseen_field:
  assumes "csv_scan QuoteSeen c row rows rest = Some R" and "rest = [] \<or> hd rest \<noteq> dquote"
  shows "\<exists>fs rs. R = rows @ (row @ c # fs) # rs"
proof (cases rest)
  case Nil
  with assms(1) have "R = rows @ (row @ c # []) # []" by auto
  then show ?thesis by blast
next
  case (Cons x t)
  with assms have "csv_scan FieldStart [] (row @ [c]) rows t = Some R \<or>
      csv_scan FieldStart [] [] (rows @ [row @ [c]]) t = Some R"
    by (auto split: if_splits)
  then have "extends rows (row @ [c]) R \<or> extends (rows @ [row @ [c]]) [] R"
    by (auto dest: scan_extends)
  then show ?thesis
    unfolding extends_def by (metis append.assoc append_Cons append_Nil)
qed

lemma scan_quoted_fields_cont:
  "csv_scan FieldStart [] row rows
       (concat (map (\<lambda>s. quoted (escape_quotes s) @ [comma]) fs) @ rest) =
     csv_scan FieldStart [] (row @ fs) rows rest"
  by (induction fs arbitrary: row) (simp_all add: scan_quoted_field)

lemma scan_quoted_rows_cont:
  assumes "\<forall>r \<in> set rs. r \<noteq> []"
  shows "csv_scan FieldStart [] [] rows
       (concat (map (\<lambda>r. join_with [comma] (map (\<lambda>s. quoted (escape_quotes s)) r) @ [newline]) rs)
          @ rest) =
     csv_scan FieldStart [] [] (rows @ rs) rest"
  using assms by (induction rs arbitrary: rows) (simp_all add: scan_quoted_row_cont)

lemma unsafe_cells:
  assumes "\<not> quote_safe p"
  obtains pre f post cells where "csv_values p = pre @ f # post" and "dquote \<in> set f"
    and "csv_cells p = map (\<lambda>s. quoted (escape_quotes s)) pre @ quoted f # cells"
proof -
  let ?Q = "\<lambda>s. quoted (escape_quotes s)"
  let ?u = "or_else (googleMapsUrl p) []"
  consider (rating) "dquote \<in> set (rating p)"
    | (reviews) "dquote \<notin> set (rating p)" "dquote \<in> set (reviews p)"
    | (website) "dquote \<notin> set (rating p)" "dquote \<notin> set (reviews p)" "dquote \<in> set (website p)"
    | (phone) "dquote \<notin> set (rating p)" "dquote \<notin> set (reviews p)" "dquote \<notin> set (website p)"
        "dquote \<in> set (phone p)"
    | (url) "dquote \<notin> set (rating p)" "dquote \<notin> set (reviews p)" "dquote \<notin> set (website p)"
        "dquote \<notin> set (phone p)" "dquote \<in> set ?u"
    using assms by (auto simp add: quote_safe_def)
  then show thesis
  proof cases
    case rating
    then show ?thesis
      by (intro that [of "[name p, address p]" "rating p" "[reviews p, website p, phone p, ?u]"])
        (simp_all add: csv_values_def text_fields_def csv_cells_def)
  next
    case reviews
    then show ?thesis
      by (intro that [of "[name p, address p, rating p]" "reviews p" "[website p, phone p, ?u]"])
        (simp_all add: csv_values_def text_fields_def csv_cells_def escape_quotes_id)
  next
    case website
    then show ?thesis
      by (intro that [of "[name p, address p, rating p, reviews p]" "website p" "[phone p, ?u]"])
        (simp_all add: csv_values_def text_fields_def csv_cells_def escape_quotes_id)
  next
    case phone
    then show ?thesis
      by (intro that [of "[name p, address p, rating p, reviews p, website p]" "phone p" "[?u]"])
        (simp_all add: csv_values_def text_fields_def csv_cells_def escape_quotes_id)
  next
    case url
    then show ?thesis
      by (intro that [of "[name p, address p, rating p, reviews p, website p, phone p]" ?u "[]"])
        (simp_all add: csv_values_def text_fields_def csv_cells_def escape_quotes_id)
  qed
qed

lemma scan_unsafe_cell:
  assumes "dquote \<in> set f" and "tail = [] \<or> hd tail \<noteq> dquote"
  shows "csv_scan FieldStart [] row rows (quoted f @ tail) \<noteq> Some (rows @ (row @ f # post) # rs)"
proof
  assume "csv_scan FieldStart [] row rows (quoted f @ tail) = Some (rows @ (row @ f # post) # rs)"
  then have "csv_scan Quoted [] row rows (f @ dquote # tail) = Some (rows @ (row @ f # post) # rs)"
    by (simp add: quoted_def)
  then obtain v rest where s: "f @ dquote # tail = escape_quotes v @ dquote # rest"
    and r: "rest = [] \<or> hd rest \<noteq> dquote"
    and q: "csv_scan QuoteSeen ([] @ v) row rows rest = Some (rows @ (row @ f # post) # rs)"
    by (rule scan_quoted_inv)
  from scan_quoteseen_field [OF q r] have "v = f" by auto
  with s unescaped_cell_neq [of f 0 tail rest] assms show False by simp
qed

lemma unsafe_row_shape:
  assumes "csv_cells p = map (\<lambda>s. quoted (escape_quotes s)) pre @ quoted f # cells"
  obtains tail where "join_with [comma] (csv_cells p) =
      concat (map (\<lambda>s. quoted (escape_quotes s) @ [comma]) pre) @ quoted f @ tail"
    and "tail = [] \<or> hd tail = comma"
proof -
  obtain tail where "join_with [comma] (quoted f # cells) = quoted f @ tail"
    and "tail = [] \<or> hd tail = comma"
    using join_with_Cons_tail [of comma "quoted f" cells] by blast
  with assms show thesis
    by (intro that [of tail]) (simp_all add: join_with_concat_append comp_def)
qed

lemma unsafe_text_shape:
  assumes "list_all quote_safe ps"
  obtains tail where "convertToCSV (ps @ p # qs) =
      join_with [comma] headers @ newline #
        concat (map (\<lambda>r. join_with [comma] (map (\<lambda>s. quoted (escape_quotes s)) r) @ [newline])
          (map csv_values ps)) @ join_with [comma] (csv_cells p) @ tail"
    and "tail = [] \<or> hd tail = newline"
proof -
  let ?row = "\<lambda>p. join_with [comma] (csv_cells p)"
  obtain tail where t: "join_with [newline] (?row p # map ?row qs) = ?row p @ tail"
    and "tail = [] \<or> hd tail = newline"
    using join_with_Cons_tail [of newline "?row p" "map ?row qs"] by blast
  moreover have "convertToCSV (ps @ p # qs) =
      concat (map (\<lambda>x. x @ [newline]) (join_with [comma] headers # map ?row ps)) @
        join_with [newline] (?row p # map ?row qs)"
    using join_with_concat_append [of "?row p # map ?row qs" "[newline]"
        "join_with [comma] headers # map ?row ps"]
    by (simp add: convertToCSV_def comp_def)
  moreover have "map ?row ps =
      map (\<lambda>r. join_with [comma] (map (\<lambda>s. quoted (escape_quotes s)) r)) (map csv_values ps)"
    using assms by (simp add: list_all_iff csv_cells_quote_safe)
  ultimately show thesis
    by (intro that [of tail]) (simp_all add: comp_def)
qed

lemma scan_safe_prefix:
  "csv_scan FieldStart [] [] []
     (join_with [comma] headers @ newline #
      concat (map (\<lambda>r. join_with [comma] (map (\<lambda>s. quoted (escape_quotes s)) r) @ [newline])
        (map csv_values ps)) @
      concat (map (\<lambda>s. quoted (escape_quotes s) @ [comma]) pre) @ X) =
   csv_scan FieldStart [] pre (headers # map csv_values ps) X"
proof -
  have ne: "\<forall>r \<in> set (map csv_values ps). r \<noteq> []"
    by (simp add: csv_values_def)
  have 1: "csv_scan FieldStart [] [] [] (join_with [comma] headers @ newline # Y) =
      csv_scan FieldStart [] [] [headers] Y" for Y
    using scan_plain_row_cont [OF plain_headers, of "[]" "[]" Y] by (simp add: headers_def)
  have 2: "csv_scan FieldStart [] [] [headers]
      (concat (map (\<lambda>r. join_with [comma] (map (\<lambda>s. quoted (escape_quotes s)) r) @ [newline])
          (map csv_values ps)) @ Y) =
      csv_scan FieldStart [] [] (headers # map csv_values ps) Y" for Y
    using scan_quoted_rows_cont [OF ne, of "[headers]" Y] by (simp del: map_map)
  have 3: "csv_scan FieldStart [] [] rows
      (concat (map (\<lambda>s. quoted (escape_quotes s) @ [comma]) pre) @ Y) =
      csv_scan FieldStart [] pre rows Y" for rows Y
    using scan_quoted_fields_cont [of "[]" rows pre Y] by simp
  show ?thesis by (simp only: 1 2 3)
qed

lemma csv_decode_unsafe:
  assumes "\<not> list_all quote_safe data"
  shows "csv_decode (convertToCSV data) \<noteq> Some (headers # map csv_values data)"
proof -
  from assms obtain ps p qs where data: "data = ps @ p # qs"
    and safe: "list_all quote_safe ps" and "\<not> quote_safe p"
    using split_list_first_prop [of data "\<lambda>p. \<not> quote_safe p"]
    by (auto simp add: list_all_iff)
  then obtain pre f post cells where vals: "csv_values p = pre @ f # post"
    and f: "dquote \<in> set f"
    and cells: "csv_cells p = map (\<lambda>s. quoted (escape_quotes s)) pre @ quoted f # cells"
    by (blast elim: unsafe_cells)
  obtain t1 where row: "join_with [comma] (csv_cells p) =
      concat (map (\<lambda>s. quoted (escape_quotes s) @ [comma]) pre) @ quoted f @ t1"
    and t1: "t1 = [] \<or> hd t1 = comma"
    using cells by (rule unsafe_row_shape)
  obtain t2 where shape: "convertToCSV (ps @ p # qs) =
      join_with [comma] headers @ newline #
        concat (map (\<lambda>r. join_with [comma] (map (\<lambda>s. quoted (escape_quotes s)) r) @ [newline])
          (map csv_values ps)) @ join_with [comma] (csv_cells p) @ t2"
    and t2: "t2 = [] \<or> hd t2 = newline"
    using safe by (rule unsafe_text_shape)
  have "csv_decode (convertToCSV data) =
      csv_scan FieldStart [] pre (headers # map csv_values ps) (quoted f @ t1 @ t2)"
    unfolding csv_decode_def data shape row by (simp only: append_assoc scan_safe_prefix)
  moreover have "t1 @ t2 = [] \<or> hd (t1 @ t2) \<noteq> dquote"
    using t1 t2 by (cases t1) auto
  ultimately show ?thesis
    using scan_unsafe_cell [OF f, of "t1 @ t2" pre "headers # map csv_values ps" post
        "map csv_values qs"]
    by (simp add: data vals)
qed

section \<open>Properties\<close>

text \<open>
  C2 (roundtrip).  When the five fields that \<^verbatim>\<open>convertToCSV\<close> writes without escaping
  (rating, reviews, website, phone and the map URL) contain no double quote, decoding
  the CSV text by the rules of quoted fields gives the header row followed by one row
  per record, in the order of the records, each with the seven values of its record;
  names and addresses may contain double quotes, commas and line breaks.
\<close>

theorem csv_roundtrip:
  assumes "list_all quote_safe data"
  shows "csv_decode (convertToCSV data) = Some (headers # map csv_values data)"
  using assms by (rule csv_decode_convert)

theorem csv_roundtrip_witness:
  "list_all quote_safe [demo_place, demo_plain_place]
   \<and> csv_decode (convertToCSV [demo_place, demo_plain_place]) =
     Some [headers,
       [''The '' @ [dquote] @ ''Best'' @ [dquote] @ '' Cafe, Baku'',
        ''1 Main St,'' @ [newline] @ ''Baku'', ''4.5'', ''120'', ''N/A'', ''555-0101'',
        ''https://maps.example/?cid=1''],
       [''Tea House'', ''2 Side St'', ''N/A'', ''N/A'', ''N/A'', ''N/A'', []]]"
proof -
  have h: "list_all quote_safe [demo_place, demo_plain_place]" by code_simp
  have "map csv_values [demo_place, demo_plain_place] =
      [[''The '' @ [dquote] @ ''Best'' @ [dquote] @ '' Cafe, Baku'',
        ''1 Main St,'' @ [newline] @ ''Baku'', ''4.5'', ''120'', ''N/A'', ''555-0101'',
        ''https://maps.example/?cid=1''],
       [''Tea House'', ''2 Side St'', ''N/A'', ''N/A'', ''N/A'', ''N/A'', []]]"
    by code_simp
  with h csv_roundtrip [OF h] show ?thesis by simp
qed

text \<open>
  C34 (functional).  When no field of any record contains a line break, the CSV text
  of \<open>N\<close> records has exactly \<open>N + 1\<close> lines: the header line, then one line per record
  in the order of the records, each the seven cells of its record joined by commas.
\<close>

theorem csv_lines:
  assumes "list_all newline_free data"
  shows "split_on newline (convertToCSV data) =
       join_with [comma] headers # map (\<lambda>p. join_with [comma] (csv_cells p)) data
     \<and> length (split_on newline (convertToCSV data)) = Suc (length data)"
  using assms by (simp add: lines_convertToCSV)

theorem csv_lines_witness:
  "list_all newline_free [demo_plain_place]
   \<and> split_on newline (convertToCSV [demo_plain_place]) =
     [''Name,Address,Rating,Reviews,Website,Phone,Google Maps URL'',
      [dquote] @ ''Tea House'' @ [dquote, comma, dquote] @ ''2 Side St'' @ [dquote, comma, dquote]
        @ ''N/A'' @ [dquote, comma, dquote] @ ''N/A'' @ [dquote, comma, dquote]
        @ ''N/A'' @ [dquote, comma, dquote] @ ''N/A'' @ [dquote, comma, dquote, dquote]]"
proof -
  have h: "list_all newline_free [demo_plain_place]" by code_simp
  have "join_with [comma] headers # map (\<lambda>p. join_with [comma] (csv_cells p)) [demo_plain_place] =
     [''Name,Address,Rating,Reviews,Website,Phone,Google Maps URL'',
      [dquote] @ ''Tea House'' @ [dquote, comma, dquote] @ ''2 Side St'' @ [dquote, comma, dquote]
        @ ''N/A'' @ [dquote, comma, dquote] @ ''N/A'' @ [dquote, comma, dquote]
        @ ''N/A'' @ [dquote, comma, dquote] @ ''N/A'' @ [dquote, comma, dquote, dquote]]"
    by code_simp
  with h csv_lines [OF h, THEN conjunct1] show ?thesis by simp
qed

text \<open>
  The serialiser keeps the order of the records and adds nothing
  between them: the text for a sequence extended by one record is the text for the
  sequence, a line break, and the seven cells of the new record joined by commas;
  the text for no record is the header line alone.
\<close>

lemma csv_row_order:
  "convertToCSV [] = ''Name,Address,Rating,Reviews,Website,Phone,Google Maps URL''
   \<and> convertToCSV (data @ [p]) =
       convertToCSV data @ newline # join_with [comma] (csv_cells p)"
  by (simp add: convertToCSV_snoc) (simp add: convertToCSV_Nil headers_def)

text \<open>
  C11 (safety).  The escaping of \<^verbatim>\<open>convertToCSV\<close> is incomplete, and the condition of
  the round trip cannot be dropped: whenever some record has a double quote in its
  rating, reviews, website, phone or map URL, which are written without doubling
  it, decoding the CSV text does not give the header row and the values of the
  records, whatever the other fields and the other records are.
\<close>

theorem csv_unescaped_quote_breaks_roundtrip:
  assumes "\<not> list_all quote_safe data"
  shows "csv_decode (convertToCSV data) \<noteq> Some (headers # map csv_values data)"
  using assms by (rule csv_decode_unsafe)

theorem csv_unescaped_quote_breaks_roundtrip_witness:
  "\<not> list_all quote_safe [demo_plain_place, demo_unsafe_place] \<and>
   csv_decode (convertToCSV [demo_plain_place, demo_unsafe_place]) \<noteq>
     Some (headers # map csv_values [demo_plain_place, demo_unsafe_place])"
proof -
  have "\<not> list_all quote_safe [demo_plain_place, demo_unsafe_place]"
    by code_simp
  with csv_unescaped_quote_breaks_roundtrip [of "[demo_plain_place, demo_unsafe_place]"]
  show ?thesis by blast
qed

end
