(* ===== verification/Gemini_Service.thy ===== *)
theory Gemini_Service
  imports Table_Extractor
begin

text \<open>
  The search service: \<^verbatim>\<open>searchPlaces\<close> of \<^verbatim>\<open>src/services/geminiService.ts\<close>.

  The generation service is outside the program.  The model takes it as a parameter
  \<open>ai\<close> of type \<open>service\<close>, a function from the request to the outcome of the awaited
  call: \<open>Resolved\<close> with a response, or \<open>Rejected\<close> with the message of the error, if it
  has one.  The records \<open>response\<close>, \<open>candidate\<close>, \<open>grounding_metadata\<close>,
  \<open>grounding_chunk\<close> and \<open>source\<close> are the parts of the response the code reads, every
  optional property an option.  What the search does to the world around it is kept
  in the record \<open>world\<close>: the requests sent so far and the number of identifiers
  drawn from \<^verbatim>\<open>crypto.randomUUID()\<close>.

  \<^item> \<open>searchPlaces\<close> is the whole function: the check of the API key before the
    \<^verbatim>\<open>try\<close> block, the call, the \<^verbatim>\<open>catch\<close> that rethrows with the message or a
    default, and on success the extraction and the enrichment.  A thrown
    \<^verbatim>\<open>Error\<close> is the value \<open>Inl (Error message)\<close>.
  \<^item> \<open>next_chunk\<close> is the \<^verbatim>\<open>while\<close> loop of the enrichment callback, a recursion on
    the chunk index with the measure \<open>length chunks - chunkIndex\<close>; it returns the
    URI found, if any, and the new index.  \<open>enrich_place\<close> is the callback,
    \<open>enrich_all\<close> the \<^verbatim>\<open>map\<close> that threads the shared index through the calls, and
    \<open>enrich\<close> the guarded block around it.
  \<^item> \<open>make_request\<close> and \<open>systemInstruction\<close> are the argument of
    \<^verbatim>\<open>generateContent\<close>.
  The call \<^verbatim>\<open>console.error\<close> in the \<^verbatim>\<open>catch\<close> block is not modelled.

  The \<^verbatim>\<open>try\<close> block of the source also encloses the extraction and the enrichment, and
  its \<^verbatim>\<open>catch\<close> rewraps whatever is thrown there.  In the model the two are total
  functions of the response (string operations and list traversals that do not throw),
  so the rejection of the call is the only failure that reaches the \<^verbatim>\<open>catch\<close>.  The
  one operation of the block that can throw in a browser, \<^verbatim>\<open>crypto.randomUUID()\<close> where
  the page is not served from a secure context, is assumed available: \<open>uuid_source\<close> is
  a total function, and the theorems on \<open>searchPlaces\<close> hold under that assumption.

  The reference definitions \<open>usable_uris\<close> and \<open>assign_uris\<close> say what the
  enrichment computes: a zip of the records with the citations that carry a URI.
\<close>

section \<open>The interface of the generation service\<close>

record source =
  uri :: "js_string option"

record grounding_chunk =
  web :: "source option"
  maps :: "source option"

record grounding_metadata =
  groundingChunks :: "grounding_chunk list option"

record candidate =
  groundingMetadata :: "grounding_metadata option"

record response =
  response_text :: "js_string option"
  candidates :: "candidate list option"

record request =
  model :: js_string
  contents :: js_string
  system_instruction :: js_string
  google_maps_tool :: bool

datatype api_outcome = Resolved response | Rejected "js_string option"

type_synonym service = "request \<Rightarrow> api_outcome"

datatype js_error = Error (message: js_string)

record search_result =
  result_text :: js_string
  result_data :: "PlaceData list"

record world =
  draws :: nat
  requests :: "request list"

section \<open>The search\<close>

definition apiKey_of_env :: "js_string option \<Rightarrow> js_string" where
  "apiKey_of_env api_key = or_else api_key []"

abbreviation (input) apos :: char where "apos \<equiv> CHR 0x27"

definition systemInstruction :: js_string where
  "systemInstruction = join_with [newline]
     [[],
      ''    You are a high-volume data extraction assistant. Your task is to extract an EXHAUSTIVE list of business information from Google Maps for the specific location and category requested by the user.'',
      [],
      ''    Rules:'',
      ''    1. Use the '' @ [apos] @ ''googleMaps'' @ [apos] @ '' tool to find real places matching the query.'',
      ''    2. MAXIMIZE OUTPUT: Do not limit yourself to the top 10 or 20 results. Retrieve and list EVERY single business returned by the map tool. Aim for 50+ results if possible.'',
      ''    3. You MUST output the data strictly in a MARKDOWN TABLE.'',
      ''    4. The table MUST have exactly these columns: | Name | Address | Rating | Reviews | Website | Phone |'',
      ''    5. Ensure the '' @ [apos] @ ''Address'' @ [apos] @ '' includes the street and city.'',
      ''    6. If a specific detail (like Website or Phone) is not available, write '' @ [apos] @ ''N/A'' @ [apos] @ ''.'',
      ''    7. Do not include any intro or outro text. Output ONLY the table.'',
      ''    8. Do not truncate the table.'',
      ''  '']"

definition make_request :: "js_string \<Rightarrow> request" where
  "make_request q =
     \<lparr> model = ''gemini-2.5-flash'',
       contents = ''Find all '' @ [dquote] @ q @ [dquote]
         @ ''. List as many as possible. Format the output as a Markdown table.'',
       system_instruction = systemInstruction,
       google_maps_tool = True \<rparr>"

definition opt_uri :: "source option \<Rightarrow> js_string option" where
  "opt_uri s = (case s of None \<Rightarrow> None | Some src \<Rightarrow> uri src)"

definition js_or :: "js_string option \<Rightarrow> js_string option \<Rightarrow> js_string option" where
  "js_or a b = (if truthy a then a else b)"

definition has_uri :: "grounding_chunk \<Rightarrow> bool" where
  "has_uri chunk \<longleftrightarrow> truthy (js_or (opt_uri (web chunk)) (opt_uri (maps chunk)))"

definition pick_uri :: "grounding_chunk \<Rightarrow> js_string option" where
  "pick_uri chunk = js_or (opt_uri (maps chunk)) (opt_uri (web chunk))"

function next_chunk :: "grounding_chunk list \<Rightarrow> nat \<Rightarrow> js_string option option \<times> nat" where
  "next_chunk chunks chunkIndex =
     (if chunkIndex < length chunks then
        (let chunk = chunks ! chunkIndex;
             chunkIndex' = chunkIndex + 1
         in if has_uri chunk then (Some (pick_uri chunk), chunkIndex')
            else next_chunk chunks chunkIndex')
      else (None, chunkIndex))"
  by pat_completeness auto
termination
  by (relation "measure (\<lambda>(chunks, chunkIndex). length chunks - chunkIndex)") auto

declare next_chunk.simps [simp del]

definition enrich_place ::
  "grounding_chunk list \<Rightarrow> PlaceData \<Rightarrow> nat \<Rightarrow> PlaceData \<times> nat" where
  "enrich_place chunks place chunkIndex =
     (case next_chunk chunks chunkIndex of
        (Some u, chunkIndex') \<Rightarrow> (place\<lparr>googleMapsUrl := u\<rparr>, chunkIndex')
      | (None, chunkIndex') \<Rightarrow> (place, chunkIndex'))"

primrec enrich_all :: "grounding_chunk list \<Rightarrow> nat \<Rightarrow> PlaceData list \<Rightarrow> PlaceData list" where
  "enrich_all chunks chunkIndex [] = []"
| "enrich_all chunks chunkIndex (place # rest) =
     (case enrich_place chunks place chunkIndex of
        (place', chunkIndex') \<Rightarrow> place' # enrich_all chunks chunkIndex' rest)"

definition grounding_chunks_of :: "response \<Rightarrow> grounding_chunk list option" where
  "grounding_chunks_of r =
     (case candidates r of None \<Rightarrow> None
      | Some cs \<Rightarrow>
          (case js_nth cs 0 of None \<Rightarrow> None
           | Some c \<Rightarrow>
               (case groundingMetadata c of None \<Rightarrow> None
                | Some m \<Rightarrow> groundingChunks m)))"

definition enrich :: "grounding_chunk list option \<Rightarrow> PlaceData list \<Rightarrow> PlaceData list" where
  "enrich grounding parsedData =
     (case grounding of
        Some chunks \<Rightarrow>
          if length parsedData > 0 then enrich_all chunks 0 parsedData else parsedData
      | None \<Rightarrow> parsedData)"

definition searchPlaces ::
  "js_string \<Rightarrow> service \<Rightarrow> uuid_source \<Rightarrow> js_string \<Rightarrow> world \<Rightarrow> (js_error + search_result) \<times> world"
where
  "searchPlaces apiKey ai gen q w =
     (if apiKey = [] then
        (Inl (Error ''API Key is missing. Please check your environment configuration.''), w)
      else
        (let req = make_request q;
             w1 = w\<lparr>requests := requests w @ [req]\<rparr>
         in case ai req of
              Rejected msg \<Rightarrow>
                (Inl (Error (or_else msg ''Failed to fetch data from Gemini.'')), w1)
            | Resolved response \<Rightarrow>
                (let text = or_else (response_text response) [];
                     (parsedData, k) = parseMarkdownTableToData gen (draws w1) text;
                     parsedData' = enrich (grounding_chunks_of response) parsedData
                 in (Inr \<lparr> result_text = text, result_data = parsedData' \<rparr>,
                     w1\<lparr>draws := k\<rparr>))))"

section \<open>Reference definitions\<close>

definition chunk_uri :: "grounding_chunk \<Rightarrow> js_string option" where
  "chunk_uri chunk = (if has_uri chunk then pick_uri chunk else None)"

definition usable_uris :: "grounding_chunk list \<Rightarrow> js_string list" where
  "usable_uris chunks = List.map_filter chunk_uri chunks"

fun assign_uris :: "js_string list \<Rightarrow> PlaceData list \<Rightarrow> PlaceData list" where
  "assign_uris us [] = []"
| "assign_uris [] (p # ps) = p # ps"
| "assign_uris (u # us) (p # ps) = p\<lparr>googleMapsUrl := Some u\<rparr> # assign_uris us ps"

definition without_url :: "PlaceData \<Rightarrow> PlaceData" where
  "without_url p = p\<lparr>googleMapsUrl := None\<rparr>"

section \<open>Example inputs\<close>

definition maps_chunk :: "js_string \<Rightarrow> grounding_chunk" where
  "maps_chunk u = \<lparr> web = None, maps = Some \<lparr> uri = Some u \<rparr> \<rparr>"

definition demo_chunks :: "grounding_chunk list" where
  "demo_chunks =
     [\<lparr> web = None, maps = None \<rparr>,
      maps_chunk ''https://maps.example/?cid=1'',
      \<lparr> web = Some \<lparr> uri = None \<rparr>, maps = None \<rparr>,
      \<lparr> web = Some \<lparr> uri = Some ''https://web.example/3'' \<rparr>,
        maps = Some \<lparr> uri = Some ''https://maps.example/?cid=3'' \<rparr> \<rparr>,
      \<lparr> web = None, maps = Some \<lparr> uri = Some [] \<rparr> \<rparr>]"

definition demo_places :: "PlaceData list" where
  "demo_places =
     number_rows demo_gen 0 [[''Cafe Uno'', ''1 Main St''], [''Tea House'', ''2 Side St''],
       [''Bakery'', ''3 Back St'']]"

definition demo_response :: response where
  "demo_response =
     \<lparr> response_text = Some demo_text,
       candidates = Some [\<lparr> groundingMetadata = Some \<lparr> groundingChunks = Some demo_chunks \<rparr> \<rparr>] \<rparr>"

definition place_ok :: "PlaceData \<Rightarrow> bool" where
  "place_ok p \<longleftrightarrow> list_all cell_text (text_fields p) \<and> googleMapsUrl p \<noteq> Some []"

definition demo_world :: world where
  "demo_world = \<lparr> draws = 0, requests = [] \<rparr>"

named_theorems service_defs "definitions of the search service, for evaluating closed terms"

lemmas [service_defs] =
  apiKey_of_env_def make_request_def opt_uri_def js_or_def has_uri_def pick_uri_def
  enrich_place_def grounding_chunks_of_def enrich_def searchPlaces_def chunk_uri_def
  usable_uris_def without_url_def place_ok_def

section \<open>Lemmas: the enrichment\<close>

lemma truthy_js_or: "truthy (js_or a b) \<longleftrightarrow> truthy a \<or> truthy b"
  by (simp add: js_or_def)

lemma has_uri_iff: "has_uri c \<longleftrightarrow> truthy (opt_uri (web c)) \<or> truthy (opt_uri (maps c))"
  by (simp add: has_uri_def truthy_js_or)

lemma truthy_pick_uri: "has_uri c \<Longrightarrow> truthy (pick_uri c)"
  by (auto simp: has_uri_iff pick_uri_def truthy_js_or)

lemma truthy_Some_iff: "truthy v \<longleftrightarrow> (\<exists>s. v = Some s \<and> s \<noteq> [])"
  by (cases v) (auto simp: truthy_def)

lemma chunk_uri_Some: "chunk_uri c = Some u \<Longrightarrow> u \<noteq> []"
  using truthy_pick_uri [of c] by (auto simp: chunk_uri_def truthy_Some_iff split: if_splits)

lemma chunk_uri_eq_None_iff: "chunk_uri c = None \<longleftrightarrow> \<not> has_uri c"
  using truthy_pick_uri [of c] by (auto simp: chunk_uri_def truthy_Some_iff)

lemma next_chunk_eq:
  "next_chunk chunks i =
     (case usable_uris (drop i chunks) of
        [] \<Rightarrow> (None, max i (length chunks))
      | u # _ \<Rightarrow> (Some (Some u), i + Suc (length (takeWhile (\<lambda>c. \<not> has_uri c) (drop i chunks)))))"
proof (induction chunks i rule: next_chunk.induct)
  case (1 chunks i)
  show ?case
  proof (cases "i < length chunks")
    case False
    then show ?thesis
      by (simp add: next_chunk.simps [of chunks i] usable_uris_def max_def)
  next
    case True
    then have d: "drop i chunks = chunks ! i # drop (Suc i) chunks"
      by (simp add: Cons_nth_drop_Suc)
    show ?thesis
    proof (cases "has_uri (chunks ! i)")
      case h: True
      then obtain u where "chunk_uri (chunks ! i) = Some u" "pick_uri (chunks ! i) = Some u"
        using truthy_pick_uri [of "chunks ! i"] by (auto simp: chunk_uri_def truthy_Some_iff)
      with True h show ?thesis
        by (simp add: next_chunk.simps [of chunks i] d usable_uris_def)
    next
      case h: False
      then have "chunk_uri (chunks ! i) = None" by (simp add: chunk_uri_eq_None_iff)
      with True h 1 show ?thesis
        by (simp add: next_chunk.simps [of chunks i] d usable_uris_def max_def
            split: list.splits)
    qed
  qed
qed

lemma usable_uris_drop_takeWhile:
  "usable_uris (drop (i + Suc (length (takeWhile (\<lambda>c. \<not> has_uri c) (drop i chunks)))) chunks) =
     tl (usable_uris (drop i chunks))"
proof -
  let ?xs = "drop i chunks"
  let ?n = "length (takeWhile (\<lambda>c. \<not> has_uri c) ?xs)"
  have "drop (i + Suc ?n) chunks = tl (dropWhile (\<lambda>c. \<not> has_uri c) ?xs)"
    by (simp add: dropWhile_eq_drop drop_Suc tl_drop add.commute)
  moreover have "usable_uris (tl (dropWhile (\<lambda>c. \<not> has_uri c) xs)) = tl (usable_uris xs)" for xs
  proof (induction xs)
    case Nil
    then show ?case by (simp add: usable_uris_def)
  next
    case (Cons a xs)
    then show ?case
      by (cases "has_uri a")
        (auto simp: usable_uris_def chunk_uri_eq_None_iff [symmetric] split: option.splits)
  qed
  ultimately show ?thesis by simp
qed

lemma enrich_all_eq:
  "enrich_all chunks i ps = assign_uris (usable_uris (drop i chunks)) ps"
proof (induction ps arbitrary: i)
  case Nil
  then show ?case by simp
next
  case (Cons p ps)
  show ?case
  proof (cases "usable_uris (drop i chunks)")
    case Nil
    then have "usable_uris (drop (max i (length chunks)) chunks) = []"
      by (simp add: max_def usable_uris_def)
    with Nil Cons [of "max i (length chunks)"] show ?thesis
      by (cases ps) (simp_all add: enrich_place_def next_chunk_eq)
  next
    case (Cons u us)
    with usable_uris_drop_takeWhile [of i chunks] Cons.IH show ?thesis
      by (simp add: enrich_place_def next_chunk_eq)
  qed
qed

lemma assign_uris_Nil [simp]: "assign_uris [] ps = ps"
  by (cases ps) simp_all

lemma length_assign_uris [simp]: "length (assign_uris us ps) = length ps"
  by (induction us ps rule: assign_uris.induct) simp_all

lemma without_url_assign_uris: "map without_url (assign_uris us ps) = map without_url ps"
  by (induction us ps rule: assign_uris.induct) (simp_all add: without_url_def)

lemma enrich_eq:
  "enrich grounding ps =
     (case grounding of None \<Rightarrow> ps | Some chunks \<Rightarrow> assign_uris (usable_uris chunks) ps)"
  by (cases ps) (simp_all add: enrich_def enrich_all_eq split: option.splits)

lemma usable_uris_Nil [simp]: "usable_uris [] = []"
  by (simp add: usable_uris_def List.map_filter_simps)

lemma usable_uris_Cons:
  "usable_uris (c # chunks) =
     (if truthy (opt_uri (maps c)) then the (opt_uri (maps c)) # usable_uris chunks
      else if truthy (opt_uri (web c)) then the (opt_uri (web c)) # usable_uris chunks
      else usable_uris chunks)"
  by (auto simp: usable_uris_def List.map_filter_simps chunk_uri_def has_uri_iff pick_uri_def
      js_or_def truthy_Some_iff)

lemma text_fields_without_url [simp]: "text_fields (without_url p) = text_fields p"
  by (simp add: without_url_def)

lemma place_id_without_url [simp]: "place_id (without_url p) = place_id p"
  by (simp add: without_url_def)

lemma map_via_without_url:
  assumes "\<And>p. f (without_url p) = f p"
  shows "map f (enrich grounding ps) = map f ps"
proof -
  have "map without_url (enrich grounding ps) = map without_url ps"
    by (simp add: enrich_eq without_url_assign_uris split: option.splits)
  then have "map f (map without_url (enrich grounding ps)) = map f (map without_url ps)"
    by simp
  then show ?thesis by (simp add: comp_def assms)
qed

lemma assign_uris_url:
  assumes "list_all (\<lambda>p. googleMapsUrl p = None) ps" and "list_all (\<lambda>u. u \<noteq> []) us"
  shows "list_all (\<lambda>p. googleMapsUrl p \<noteq> Some []) (assign_uris us ps)"
  using assms by (induction us ps rule: assign_uris.induct) (auto simp: list_all_iff)

lemma usable_uris_nonempty: "list_all (\<lambda>u. u \<noteq> []) (usable_uris chunks)"
  by (auto simp: list_all_iff usable_uris_def set_map_filter dest: chunk_uri_Some)

lemma usable_uris_Nil_iff: "usable_uris xs = [] \<longleftrightarrow> (\<forall>c \<in> set xs. \<not> has_uri c)"
  by (induction xs) (auto simp: usable_uris_def chunk_uri_eq_None_iff [symmetric] split: option.splits)

lemma enrich_url:
  assumes "list_all (\<lambda>p. googleMapsUrl p = None) ps"
  shows "list_all (\<lambda>p. googleMapsUrl p \<noteq> Some []) (enrich grounding ps)"
proof (cases grounding)
  case None
  with assms show ?thesis by (simp add: enrich_eq list_all_iff)
next
  case (Some chunks)
  with assign_uris_url [OF assms usable_uris_nonempty] show ?thesis
    by (simp add: enrich_eq)
qed

lemma next_chunk_index:
  "i \<le> snd (next_chunk chunks i) \<and> snd (next_chunk chunks i) \<le> max i (length chunks)"
proof (cases "usable_uris (drop i chunks)")
  case Nil
  then show ?thesis by (simp add: next_chunk_eq)
next
  case (Cons u us)
  then have "\<exists>c \<in> set (drop i chunks). \<not> \<not> has_uri c"
    using usable_uris_Nil_iff [of "drop i chunks"] by auto
  then have "length (takeWhile (\<lambda>c. \<not> has_uri c) (drop i chunks)) < length (drop i chunks)"
    by (rule length_takeWhile_lt)
  with Cons show ?thesis by (simp add: next_chunk_eq)
qed

section \<open>Lemmas: the search\<close>

lemma enriched_rows_ok:
  "list_all place_ok (enrich g (number_rows gen k (table_rows t)))"
proof -
  let ?ps = "number_rows gen k (table_rows t)"
  have ex: "list_all extracted ?ps"
    by (simp add: number_rows_extracted table_rows_cell_ok)
  then have "list_all (\<lambda>p. googleMapsUrl p = None) ?ps"
    by (simp add: list_all_iff extracted_def)
  then have url: "list_all (\<lambda>p. googleMapsUrl p \<noteq> Some []) (enrich g ?ps)"
    by (simp add: enrich_url)
  have "map text_fields (enrich g ?ps) = map text_fields ?ps"
    by (simp add: map_via_without_url)
  with ex have "list_all (\<lambda>fs. list_all cell_text fs) (map text_fields (enrich g ?ps))"
    by (simp add: list_all_iff extracted_def)
  then have "list_all (\<lambda>p. list_all cell_text (text_fields p)) (enrich g ?ps)"
    by (simp add: list_all_iff)
  with url show ?thesis by (simp add: list_all_iff place_ok_def)
qed

lemma enriched_rows_ids:
  "map place_id (enrich g (number_rows gen k (table_rows t))) =
     map gen [k..<k + length (table_rows t)]"
proof -
  have "map place_id (enrich g (number_rows gen k (table_rows t))) =
          map place_id (number_rows gen k (table_rows t))"
    by (simp add: map_via_without_url)
  then show ?thesis by (simp add: place_id_number_rows)
qed

lemma searchPlaces_no_key:
  "searchPlaces [] ai gen q w =
     (Inl (Error ''API Key is missing. Please check your environment configuration.''), w)"
  by (simp add: searchPlaces_def)

lemma searchPlaces_rejected:
  assumes "apiKey \<noteq> []" and "ai (make_request q) = Rejected msg"
  shows "searchPlaces apiKey ai gen q w =
     (Inl (Error (or_else msg ''Failed to fetch data from Gemini.'')),
      w\<lparr>requests := requests w @ [make_request q]\<rparr>)"
  using assms by (simp add: searchPlaces_def Let_def)

lemma searchPlaces_resolved:
  assumes "apiKey \<noteq> []" and "ai (make_request q) = Resolved r"
  shows "searchPlaces apiKey ai gen q w =
     (Inr \<lparr> result_text = or_else (response_text r) [],
           result_data = enrich (grounding_chunks_of r)
             (number_rows gen (draws w) (table_rows (or_else (response_text r) []))) \<rparr>,
      w\<lparr>requests := requests w @ [make_request q],
        draws := draws w + length (table_rows (or_else (response_text r) []))\<rparr>)"
  using assms by (simp add: searchPlaces_def Let_def parse_eq)

lemma searchPlaces_Inr:
  assumes "searchPlaces apiKey ai gen q w = (Inr res, w')"
  obtains r where "apiKey \<noteq> []" and "ai (make_request q) = Resolved r"
    and "res = \<lparr> result_text = or_else (response_text r) [],
           result_data = enrich (grounding_chunks_of r)
             (number_rows gen (draws w) (table_rows (or_else (response_text r) []))) \<rparr>"
    and "w' = w\<lparr>requests := requests w @ [make_request q],
        draws := draws w + length (table_rows (or_else (response_text r) []))\<rparr>"
proof (cases "apiKey = []")
  case True
  with assms show ?thesis by (simp add: searchPlaces_no_key)
next
  case False
  show ?thesis
  proof (cases "ai (make_request q)")
    case (Resolved r)
    with False assms that [of r] show ?thesis
      by (simp add: searchPlaces_resolved)
  next
    case (Rejected msg)
    with False assms show ?thesis by (simp add: searchPlaces_rejected)
  qed
qed

lemma searchPlaces_Inl:
  assumes "searchPlaces apiKey ai gen q w = (Inl err, w')"
  shows "message err \<noteq> [] \<and> draws w' = draws w"
proof (cases "apiKey = []")
  case True
  with assms show ?thesis by (auto simp add: searchPlaces_no_key)
next
  case False
  with assms show ?thesis
    by (cases "ai (make_request q)")
      (auto simp add: searchPlaces_rejected searchPlaces_resolved or_else_neq_Nil)
qed

lemma searchPlaces_cases:
  obtains (failed) err w' where "searchPlaces apiKey ai gen q w = (Inl err, w')"
      "message err \<noteq> []" "draws w' = draws w"
  | (answered) t g where "searchPlaces apiKey ai gen q w =
      (Inr \<lparr> result_text = t, result_data = enrich g (number_rows gen (draws w) (table_rows t)) \<rparr>,
       w \<lparr> requests := requests w @ [make_request q],
           draws := draws w + length (table_rows t) \<rparr>)"
proof (cases "searchPlaces apiKey ai gen q w")
  case (Pair r w')
  show ?thesis
  proof (cases r)
    case (Inl err)
    with Pair searchPlaces_Inl [of apiKey ai gen q w err w'] show ?thesis
      by (auto intro: failed)
  next
    case (Inr res)
    with Pair have "searchPlaces apiKey ai gen q w = (Inr res, w')" by simp
    then obtain ra where "res = \<lparr> result_text = or_else (response_text ra) [],
           result_data = enrich (grounding_chunks_of ra)
             (number_rows gen (draws w) (table_rows (or_else (response_text ra) []))) \<rparr>"
      and "w' = w\<lparr>requests := requests w @ [make_request q],
        draws := draws w + length (table_rows (or_else (response_text ra) []))\<rparr>"
      by (rule searchPlaces_Inr)
    with Pair Inr show ?thesis
      by (intro answered [of "or_else (response_text ra) []" "grounding_chunks_of ra"]) simp
  qed
qed

lemma length_enrich [simp]: "length (enrich g ps) = length ps"
  using arg_cong [OF map_via_without_url [of place_id g ps], of length] by simp

lemma enrich_eq_Nil_iff [simp]: "enrich g ps = [] \<longleftrightarrow> ps = []"
  by (metis length_enrich length_0_conv)

lemma enrich_Nil [simp]: "enrich g [] = []"
  by simp

section \<open>Properties\<close>

text \<open>
  C3 (equivalence).  The enrichment, a \<^verbatim>\<open>map\<close> whose callback runs a \<^verbatim>\<open>while\<close> loop over
  a chunk index shared by all calls, computes a zip: with the citations that carry a
  non-empty URI listed in order (the map URI when there is one, the web URI
  otherwise), the \<open>k\<close>-th record receives the \<open>k\<close>-th URI, and the records after the
  last URI are unchanged.  Without a citation list the records are unchanged.
\<close>

theorem enrich_refines_assign_uris:
  "enrich grounding ps =
     (case grounding of None \<Rightarrow> ps | Some chunks \<Rightarrow> assign_uris (usable_uris chunks) ps)"
  by (rule enrich_eq)

text \<open>
  C27 (functional).  What the enrichment does with the first citation of the list, in
  terms of the two optional URIs of the citation only: a citation with a non-empty map
  URI gives that URI to the first record, also when it has a web URI as well; a
  citation with no map URI, or an empty one, and a non-empty web URI gives the web URI
  to the first record (the comment in the loop speaks of a ``map chunk'', the condition
  accepts a web citation); any other citation is skipped.  In the first two cases the
  remaining records are enriched from the remaining citations.
\<close>

theorem enrich_first_citation:
  "enrich (Some (c # chunks)) (p # ps) =
     (if truthy (opt_uri (maps c))
      then p\<lparr>googleMapsUrl := opt_uri (maps c)\<rparr> # enrich (Some chunks) ps
      else if truthy (opt_uri (web c))
      then p\<lparr>googleMapsUrl := opt_uri (web c)\<rparr> # enrich (Some chunks) ps
      else enrich (Some chunks) (p # ps))"
  by (auto simp: enrich_eq usable_uris_Cons truthy_Some_iff)

text \<open>
  C29 (invariant).  The enrichment never drops, adds or reorders records and changes
  nothing but the map URL: with the URLs erased, its result is its input.
\<close>

theorem enrich_keeps_records:
  "map without_url (enrich grounding ps) = map without_url ps"
  by (simp add: enrich_eq without_url_assign_uris split: option.splits)

text \<open>
  C30 (safety).  On records that carry no URL, as the extractor returns them, the
  enrichment never attaches an empty URL: a record ends with no URL or with a
  non-empty one.
\<close>

theorem enrich_urls_nonempty:
  assumes "list_all (\<lambda>p. googleMapsUrl p = None) ps"
  shows "list_all (\<lambda>p. googleMapsUrl p \<noteq> Some []) (enrich grounding ps)"
  using assms by (rule enrich_url)

theorem enrich_urls_nonempty_witness:
  "list_all (\<lambda>p. googleMapsUrl p = None) demo_places
   \<and> map googleMapsUrl (enrich (Some demo_chunks) demo_places) =
     [Some ''https://maps.example/?cid=1'', Some ''https://maps.example/?cid=3'', None]
   \<and> list_all (\<lambda>p. googleMapsUrl p \<noteq> Some []) (enrich (Some demo_chunks) demo_places)"
proof -
  have h: "list_all (\<lambda>p. googleMapsUrl p = None) demo_places" by code_simp
  have "map googleMapsUrl (enrich (Some demo_chunks) demo_places) =
     [Some ''https://maps.example/?cid=1'', Some ''https://maps.example/?cid=3'', None]"
    by code_simp
  with h enrich_urls_nonempty [OF h, of "Some demo_chunks"] show ?thesis by simp
qed

text \<open>
  C36 (bounds).  The \<^verbatim>\<open>while\<close> loop of the enrichment terminates, never moves the chunk
  index backwards and never moves it past the end of the citation list.
\<close>

theorem next_chunk_bounds:
  "chunkIndex \<le> snd (next_chunk chunks chunkIndex)
   \<and> snd (next_chunk chunks chunkIndex) \<le> max chunkIndex (length chunks)"
  by (rule next_chunk_index)

text \<open>
  C18 (error).  Without an API key (the environment variable unset or empty) a search
  fails with the configuration message before anything else happens: no request is
  sent to the service and no identifier is drawn.
\<close>

theorem search_missing_key:
  "searchPlaces (apiKey_of_env None) ai gen q w =
     (Inl (Error ''API Key is missing. Please check your environment configuration.''), w)
   \<and> searchPlaces (apiKey_of_env (Some [])) ai gen q w =
     (Inl (Error ''API Key is missing. Please check your environment configuration.''), w)"
  by (simp add: apiKey_of_env_def or_else_def searchPlaces_no_key)

text \<open>
  C17 (error).  When the call of the service is rejected, the search fails with the
  message of the rejection, or with the default message when the rejection carries
  none or an empty one; one request has been sent and no identifier drawn.
\<close>

theorem search_rejected:
  assumes "apiKey \<noteq> []" and "ai (make_request q) = Rejected msg"
  shows "searchPlaces apiKey ai gen q w =
     (Inl (Error (or_else msg ''Failed to fetch data from Gemini.'')),
      w\<lparr>requests := requests w @ [make_request q]\<rparr>)"
  using assms by (rule searchPlaces_rejected)

theorem search_rejected_witness:
  "''key'' \<noteq> [] \<and> (\<lambda>_. Rejected None) (make_request ''Hotels in Baku'') = Rejected None
   \<and> searchPlaces ''key'' (\<lambda>_. Rejected None) demo_gen ''Hotels in Baku'' demo_world =
     (Inl (Error ''Failed to fetch data from Gemini.''),
      \<lparr> draws = 0, requests = [make_request ''Hotels in Baku''] \<rparr>)"
proof -
  have h1: "''key'' \<noteq> []" by simp
  have h2: "(\<lambda>_. Rejected None) (make_request ''Hotels in Baku'') = Rejected None" by simp
  from search_rejected [OF h1 h2, where gen = demo_gen and w = demo_world] show ?thesis
    by (simp add: or_else_def demo_world_def)
qed

text \<open>
  C7 (functional).  When the service answers, the search returns the text of the
  answer (the empty text when the answer has none) and the records extracted from it,
  enriched with the citations of the first candidate; one request has been sent, and
  the identifiers drawn are as many as the records.
\<close>

theorem search_resolved:
  assumes "apiKey \<noteq> []" and "ai (make_request q) = Resolved r"
  shows "searchPlaces apiKey ai gen q w =
     (Inr \<lparr> result_text = or_else (response_text r) [],
           result_data = enrich (grounding_chunks_of r)
             (fst (parseMarkdownTableToData gen (draws w) (or_else (response_text r) []))) \<rparr>,
      w\<lparr>requests := requests w @ [make_request q],
        draws := draws w + length (table_rows (or_else (response_text r) []))\<rparr>)"
  using assms by (simp add: searchPlaces_resolved fst_parse)

theorem search_resolved_witness:
  "''key'' \<noteq> [] \<and> (\<lambda>_. Resolved demo_response) (make_request ''Cafes in Baku'') = Resolved demo_response
   \<and> map (\<lambda>p. (name p, googleMapsUrl p))
       (result_data (projr (fst
          (searchPlaces ''key'' (\<lambda>_. Resolved demo_response) demo_gen ''Cafes in Baku'' demo_world)))) =
     [(''Cafe Uno'', Some ''https://maps.example/?cid=1''),
      (''Tea House'', Some ''https://maps.example/?cid=3'')]
   \<and> draws (snd (searchPlaces ''key'' (\<lambda>_. Resolved demo_response) demo_gen ''Cafes in Baku'' demo_world)) = 2"
proof -
  have h1: "''key'' \<noteq> []" by simp
  have h2: "(\<lambda>_. Resolved demo_response) (make_request ''Cafes in Baku'') = Resolved demo_response"
    by simp
  have e: "map (\<lambda>p. (name p, googleMapsUrl p))
      (enrich (grounding_chunks_of demo_response)
        (fst (parseMarkdownTableToData demo_gen (draws demo_world) (or_else (response_text demo_response) [])))) =
     [(''Cafe Uno'', Some ''https://maps.example/?cid=1''),
      (''Tea House'', Some ''https://maps.example/?cid=3'')]"
    by code_simp
  have l: "draws demo_world + length (table_rows (or_else (response_text demo_response) [])) = 2"
    by code_simp
  from search_resolved [OF h1 h2, where gen = demo_gen and w = demo_world] e l show ?thesis
    by simp
qed

text \<open>
  C35 (safety).  A search sends at most one request to the service: exactly one when
  there is an API key, whose contents quote the query, and none otherwise.
\<close>

theorem search_sends_one_request:
  "requests (snd (searchPlaces apiKey ai gen q w)) =
     requests w @ (if apiKey = [] then [] else [make_request q])
   \<and> contents (make_request q) =
     ''Find all '' @ [dquote] @ q @ [dquote]
       @ ''. List as many as possible. Format the output as a Markdown table.''"
  by (cases "ai (make_request q)")
    (simp_all add: searchPlaces_no_key searchPlaces_rejected searchPlaces_resolved make_request_def)

text \<open>
  C24 (invariant).  Every record of a successful search is well formed after the
  enrichment too: its six text fields are non-empty, trimmed and free of pipes and
  line breaks, its URL is absent or non-empty, and the identifiers are the draws of
  the generator made during the search, in order.
\<close>

theorem search_result_wellformed:
  assumes "searchPlaces apiKey ai gen q w = (Inr res, w')"
  shows "list_all (\<lambda>p. list_all cell_text (text_fields p) \<and> googleMapsUrl p \<noteq> Some [])
       (result_data res)
     \<and> map place_id (result_data res) = map gen [draws w..<draws w']"
proof -
  from assms obtain r where "res = \<lparr> result_text = or_else (response_text r) [],
           result_data = enrich (grounding_chunks_of r)
             (number_rows gen (draws w) (table_rows (or_else (response_text r) []))) \<rparr>"
    and "w' = w\<lparr>requests := requests w @ [make_request q],
        draws := draws w + length (table_rows (or_else (response_text r) []))\<rparr>"
    by (rule searchPlaces_Inr)
  then show ?thesis
    using enriched_rows_ok [of "grounding_chunks_of r" gen "draws w" "or_else (response_text r) []"]
    by (simp add: enriched_rows_ids place_ok_def list_all_iff)
qed

theorem search_result_wellformed_witness:
  "\<exists>res w'. searchPlaces ''key'' (\<lambda>_. Resolved demo_response) demo_gen ''Cafes in Baku'' demo_world
      = (Inr res, w')
    \<and> list_all (\<lambda>p. list_all cell_text (text_fields p) \<and> googleMapsUrl p \<noteq> Some [])
       (result_data res)
    \<and> map place_id (result_data res) = map demo_gen [0..<2]"
proof -
  obtain res w' where
    s: "searchPlaces ''key'' (\<lambda>_. Resolved demo_response) demo_gen ''Cafes in Baku'' demo_world
      = (Inr res, w')"
    and w': "w' = demo_world\<lparr>requests := requests demo_world @ [make_request ''Cafes in Baku''],
        draws := draws demo_world + length (table_rows (or_else (response_text demo_response) []))\<rparr>"
    by (simp add: searchPlaces_resolved)
  have "draws demo_world + length (table_rows (or_else (response_text demo_response) [])) = 2"
    by code_simp
  with w' have "draws w' = 2" and "draws demo_world = 0" by (simp_all add: demo_world_def)
  with search_result_wellformed [OF s] s show ?thesis
    by (intro exI [of _ res] exI [of _ w']) simp
qed

text \<open>
  The system instruction sent with every request asks for a table
  whose header line is the one the extractor's column order assumes: the line printed
  from the six column names Name, Address, Rating, Reviews, Website, Phone occurs in
  the instruction text.
\<close>

lemma prompt_names_columns:
  "str_includes systemInstruction (render_row demo_header)
   \<and> system_instruction (make_request q) = systemInstruction
   \<and> google_maps_tool (make_request q)"
proof -
  have "str_includes systemInstruction (render_row demo_header)" by code_simp
  then show ?thesis by (simp add: make_request_def)
qed

end
