(* ===== verification/File_Export.thy ===== *)
theory File_Export
  imports Csv_Serializer "HOL-Library.Word"
begin

text \<open>
  The export of the records as a file: the file name that \<^verbatim>\<open>handleExport\<close> of
  \<^verbatim>\<open>src/App.tsx\<close> derives from the category and the location, and \<^verbatim>\<open>downloadCSV\<close> of
  \<^verbatim>\<open>src/utils/parser.ts\<close>.

  \<^verbatim>\<open>downloadCSV\<close> acts on the document.  The part of the document it touches is the
  record \<open>page\<close>: the store of created elements (an element is named by its index in
  the store), the children of the body, the registry of object URLs, whether anchors
  have the \<^verbatim>\<open>download\<close> property, and the files the browser has saved.  Each DOM call
  of the source is one function on \<open>page\<close>, and \<open>downloadCSV\<close> composes them in the
  order of the source.  What \<^verbatim>\<open>click\<close> does is the browser's part: \<open>click\<close> saves the
  blob behind the \<^verbatim>\<open>href\<close> of an anchor under the name in its \<^verbatim>\<open>download\<close> attribute.

  The byte order mark U+FEFF is not a Latin-1 code unit, so the content handed to
  \<^verbatim>\<open>Blob\<close> is a list of 16-bit code units (\<open>code_units\<close> embeds a string of the model),
  and the blob holds the bytes of its UTF-8 encoding (\<open>utf8\<close>), as the constructor of
  \<^verbatim>\<open>Blob\<close> stores them.  \<open>utf8_decode\<close> is the reference decoder of a reader of the
  file, for sequences of one to three bytes, and \<open>string_of_units\<close> takes code units
  below 256 back to a string of the model.
\<close>

unbundle bit_operations_syntax

named_theorems export_defs "definitions of the export, for evaluating closed terms"

section \<open>File name\<close>

definition export_filename :: "js_string \<Rightarrow> js_string \<Rightarrow> js_string" where
  "export_filename finalCategory location =
     toLowerCase (replace_class (\<lambda>c. \<not> is_alnum c) [hyphen] (finalCategory @ [hyphen] @ location))
       @ ''.csv''"

definition filename_char :: "char \<Rightarrow> bool" where
  "filename_char c \<longleftrightarrow> is_lower c \<or> is_digit c \<or> c = hyphen"

section \<open>Code units and UTF-8\<close>

type_synonym code_unit = "16 word"
type_synonym byte = "8 word"

definition code_units :: "js_string \<Rightarrow> code_unit list" where
  "code_units s = map (\<lambda>c. of_nat (of_char c)) s"

definition bom :: "code_unit list" where
  "bom = [0xFEFF]"

definition utf8_unit :: "code_unit \<Rightarrow> byte list" where
  "utf8_unit u =
     (if u < 0x80 then [ucast u]
      else if u < 0x800 then [0xC0 OR ucast (drop_bit 6 u), 0x80 OR ucast (u AND 0x3F)]
      else [0xE0 OR ucast (drop_bit 12 u), 0x80 OR ucast (drop_bit 6 u AND 0x3F),
            0x80 OR ucast (u AND 0x3F)])"

definition utf8 :: "code_unit list \<Rightarrow> byte list" where
  "utf8 us = concat (map utf8_unit us)"

definition cont_byte :: "byte \<Rightarrow> bool" where
  "cont_byte b \<longleftrightarrow> b AND 0xC0 = 0x80"

definition join2 :: "byte \<Rightarrow> byte \<Rightarrow> code_unit" where
  "join2 b c = push_bit 6 (ucast (b AND 0x1F)) OR ucast (c AND 0x3F)"

definition join3 :: "byte \<Rightarrow> byte \<Rightarrow> byte \<Rightarrow> code_unit" where
  "join3 b c d = push_bit 12 (ucast (b AND 0x0F)) OR push_bit 6 (ucast (c AND 0x3F)) OR ucast (d AND 0x3F)"

fun utf8_decode :: "byte list \<Rightarrow> code_unit list option" where
  "utf8_decode [] = Some []"
| "utf8_decode (b # bs) =
     (if b < 0x80 then map_option (Cons (ucast b)) (utf8_decode bs)
      else if b AND 0xE0 = 0xC0 then
        (case bs of
           c # cs \<Rightarrow> if cont_byte c then map_option (Cons (join2 b c)) (utf8_decode cs) else None
         | [] \<Rightarrow> None)
      else if b AND 0xF0 = 0xE0 then
        (case bs of
           c # d # ds \<Rightarrow>
             if cont_byte c \<and> cont_byte d
             then map_option (Cons (join3 b c d)) (utf8_decode ds) else None
         | _ \<Rightarrow> None)
      else None)"

definition unit_shape :: "code_unit \<Rightarrow> bool" where
  "unit_shape u =
     (case utf8_unit u of
        [b] \<Rightarrow> b < 0x80 \<and> ucast b = u
      | [b, c] \<Rightarrow> \<not> b < 0x80 \<and> b AND 0xE0 = 0xC0 \<and> cont_byte c \<and> join2 b c = u
      | [b, c, d] \<Rightarrow> \<not> b < 0x80 \<and> b AND 0xE0 \<noteq> 0xC0 \<and> b AND 0xF0 = 0xE0 \<and> cont_byte c \<and>
                      cont_byte d \<and> join3 b c d = u
      | _ \<Rightarrow> False)"

definition string_of_units :: "code_unit list \<Rightarrow> js_string option" where
  "string_of_units us =
     (if list_all (\<lambda>u. u < 0x100) us then Some (map (\<lambda>u. char_of (unat u)) us) else None)"

definition is_ascii :: "js_string \<Rightarrow> bool" where
  "is_ascii s \<longleftrightarrow> list_all (\<lambda>c. (of_char c :: nat) < 128) s"

section \<open>The document\<close>

record blob =
  blob_bytes :: "byte list"
  blob_type :: js_string

datatype url = ObjectURL nat

record anchor =
  href :: "url option"
  download :: "js_string option"
  visibility :: js_string

record page =
  elements :: "anchor list"
  body :: "nat list"
  object_urls :: "blob list"
  download_supported :: bool
  saved :: "(js_string \<times> blob) list"

definition new_blob :: "code_unit list \<Rightarrow> js_string \<Rightarrow> blob" where
  "new_blob content ty = \<lparr> blob_bytes = utf8 content, blob_type = ty \<rparr>"

definition createElement :: "page \<Rightarrow> nat \<times> page" where
  "createElement pg =
     (length (elements pg),
      pg \<lparr> elements := elements pg @ [\<lparr> href = None, download = None, visibility = [] \<rparr>] \<rparr>)"

definition createObjectURL :: "blob \<Rightarrow> page \<Rightarrow> url \<times> page" where
  "createObjectURL b pg =
     (ObjectURL (length (object_urls pg)), pg \<lparr> object_urls := object_urls pg @ [b] \<rparr>)"

definition update_element :: "nat \<Rightarrow> (anchor \<Rightarrow> anchor) \<Rightarrow> page \<Rightarrow> page" where
  "update_element link f pg =
     (if link < length (elements pg)
      then pg \<lparr> elements := (elements pg) [link := f (elements pg ! link)] \<rparr> else pg)"

definition appendChild :: "nat \<Rightarrow> page \<Rightarrow> page" where
  "appendChild link pg = pg \<lparr> body := remove1 link (body pg) @ [link] \<rparr>"

definition removeChild :: "nat \<Rightarrow> page \<Rightarrow> page" where
  "removeChild link pg = pg \<lparr> body := remove1 link (body pg) \<rparr>"

definition click :: "nat \<Rightarrow> page \<Rightarrow> page" where
  "click link pg =
     (case js_nth (elements pg) link of
        None \<Rightarrow> pg
      | Some a \<Rightarrow>
          (case (href a, download a) of
             (Some (ObjectURL k), Some filename) \<Rightarrow>
               (case js_nth (object_urls pg) k of
                  None \<Rightarrow> pg
                | Some b \<Rightarrow> pg \<lparr> saved := saved pg @ [(filename, b)] \<rparr>)
           | _ \<Rightarrow> pg))"

definition downloadCSV :: "js_string \<Rightarrow> js_string \<Rightarrow> page \<Rightarrow> page" where
  "downloadCSV csvContent filename pg =
     (let b = new_blob (bom @ code_units csvContent) ''text/csv;charset=utf-8;'';
          (link, pg1) = createElement pg
      in if download_supported pg1
         then (let (u, pg2) = createObjectURL b pg1;
                   pg3 = update_element link (\<lambda>a. a \<lparr> href := Some u \<rparr>) pg2;
                   pg4 = update_element link (\<lambda>a. a \<lparr> download := Some filename \<rparr>) pg3;
                   pg5 = update_element link (\<lambda>a. a \<lparr> visibility := ''hidden'' \<rparr>) pg4;
                   pg6 = appendChild link pg5;
                   pg7 = click link pg6
               in removeChild link pg7)
         else pg1)"

definition page_ok :: "page \<Rightarrow> bool" where
  "page_ok pg \<longleftrightarrow> list_all (\<lambda>i. i < length (elements pg)) (body pg) \<and> distinct (body pg)"

definition csv_blob :: "js_string \<Rightarrow> blob" where
  "csv_blob csvContent =
     \<lparr> blob_bytes = [0xEF, 0xBB, 0xBF] @ utf8 (code_units csvContent),
       blob_type = ''text/csv;charset=utf-8;'' \<rparr>"

definition empty_page :: page where
  "empty_page = \<lparr> elements = [], body = [], object_urls = [], download_supported = True,
                  saved = [] \<rparr>"

definition legacy_page :: page where
  "legacy_page = empty_page \<lparr> download_supported := False \<rparr>"

lemmas [export_defs] =
  legacy_page_def export_filename_def filename_char_def code_units_def bom_def utf8_unit_def utf8_def
  is_ascii_def cont_byte_def join2_def join3_def unit_shape_def string_of_units_def
  new_blob_def createElement_def createObjectURL_def update_element_def
  appendChild_def removeChild_def click_def downloadCSV_def page_ok_def csv_blob_def
  empty_page_def

section \<open>Lemmas: the file name\<close>

lemma filename_char_hyphen [simp]: "filename_char hyphen"
  by (simp add: filename_char_def)

lemma filename_char_lower [simp]: "is_alnum c \<Longrightarrow> filename_char (lower_char c)"
  by (auto simp add: filename_char_def is_alnum_def lower_char_upper lower_char_lower
      lower_char_digit)

lemma filename_char_stem:
  "list_all filename_char (map (\<lambda>c. lower_char (if \<not> is_alnum c then hyphen else c)) s)"
  by (induction s) simp_all

lemma export_filename_map:
  "export_filename cat loc =
     map (\<lambda>c. lower_char (if \<not> is_alnum c then hyphen else c)) (cat @ [hyphen] @ loc) @ ''.csv''"
  by (simp add: export_filename_def replace_class_single toLowerCase_def)

lemma export_filename_stem:
  "take (length cat + length loc + 1) (export_filename cat loc) =
     map (\<lambda>c. lower_char (if \<not> is_alnum c then hyphen else c)) (cat @ [hyphen] @ loc)"
  by (simp add: export_filename_map)

section \<open>Lemmas: UTF-8\<close>

lemma utf8_Nil [simp]: "utf8 [] = []"
  by (simp add: utf8_def)

lemma utf8_append [simp]: "utf8 (us @ vs) = utf8 us @ utf8 vs"
  by (simp add: utf8_def)

lemma utf8_bom: "utf8 bom = [0xEF, 0xBB, 0xBF]"
  by (simp add: utf8_def bom_def utf8_unit_def)

lemma code_units_append [simp]: "code_units (s @ t) = code_units s @ code_units t"
  by (simp add: code_units_def)

lemma utf8_unit_ascii:
  assumes "(of_char c :: nat) < 128"
  shows "utf8_unit (of_nat (of_char c)) = [of_nat (of_char c)]"
proof -
  have "(of_nat (of_char c) :: 16 word) < 0x80"
    using assms by (simp add: word_less_nat_alt unat_of_nat)
  moreover have "take_bit 16 (of_char c :: nat) = of_char c"
    using assms by (simp add: take_bit_nat_eq_self)
  ultimately show ?thesis
    by (simp add: utf8_unit_def unsigned_of_nat)
qed

lemma utf8_ascii:
  "is_ascii s \<Longrightarrow> utf8 (code_units s) = map (\<lambda>c. of_nat (of_char c)) s"
  by (induction s) (simp_all add: is_ascii_def utf8_def code_units_def utf8_unit_ascii)

lemma length_utf8_unit: "length (utf8_unit u) \<in> {1, 2, 3}"
  by (simp add: utf8_unit_def)

lemma unit_shape_char: "\<forall>c :: char. unit_shape (of_nat (of_char c))"
  by code_simp

lemma unit_shape_bom: "unit_shape 0xFEFF"
  by code_simp

lemma utf8_decode_unit:
  assumes "unit_shape u"
  shows "utf8_decode (utf8_unit u @ rest) = map_option (Cons u) (utf8_decode rest)"
proof -
  consider b where "utf8_unit u = [b]" | b c where "utf8_unit u = [b, c]"
    | b c d where "utf8_unit u = [b, c, d]"
    by (cases "u < 0x80"; cases "u < 0x800") (simp_all add: utf8_unit_def)
  then show ?thesis
  proof cases
    case 1
    with assms show ?thesis by (simp add: unit_shape_def)
  next
    case 2
    with assms show ?thesis by (simp add: unit_shape_def)
  next
    case 3
    with assms show ?thesis by (simp add: unit_shape_def)
  qed
qed

lemma utf8_decode_utf8:
  "list_all unit_shape us \<Longrightarrow> utf8_decode (utf8 us) = Some us"
  by (induction us) (simp_all add: utf8_def utf8_decode_unit)

lemma unit_shape_code_units: "list_all unit_shape (code_units s)"
  using unit_shape_char by (simp add: code_units_def list_all_iff)

lemma utf8_decode_text:
  "utf8_decode (utf8 (bom @ code_units s)) = Some (bom @ code_units s)"
  by (rule utf8_decode_utf8) (simp add: bom_def unit_shape_bom unit_shape_code_units)

lemma utf8_decode_csv_blob:
  "utf8_decode (blob_bytes (csv_blob csv)) = Some (bom @ code_units csv)"
proof -
  have "blob_bytes (csv_blob csv) = utf8 (bom @ code_units csv)"
    by (simp add: csv_blob_def utf8_bom)
  then show ?thesis by (simp only: utf8_decode_text)
qed

lemma unit_of_char:
  "(of_nat (of_char c) :: code_unit) < 0x100 \<and> char_of (unat (of_nat (of_char c) :: code_unit)) = c"
proof -
  have "take_bit 16 (of_char c :: nat) = of_char c"
  proof (rule take_bit_nat_eq_self)
    have "(of_char c :: nat) mod 256 < 256" by simp
    then have "(of_char c :: nat) < 256" by simp
    also have "(256 :: nat) < 2 ^ 16" by simp
    finally show "(of_char c :: nat) < 2 ^ 16" .
  qed
  then show ?thesis
    by (simp add: word_less_nat_alt unsigned_of_nat)
qed

lemma string_of_code_units: "string_of_units (code_units s) = Some s"
  by (simp add: string_of_units_def code_units_def list_all_iff unit_of_char map_idI)

section \<open>Lemmas: the document\<close>

lemma page_ok_fresh: "page_ok pg \<Longrightarrow> length (elements pg) \<notin> set (body pg)"
  by (auto simp add: page_ok_def list_all_iff)

lemma remove1_fresh_snoc: "i \<notin> set xs \<Longrightarrow> remove1 i (remove1 i xs @ [i]) = xs"
  by (simp add: remove1_append remove1_idem)

lemma downloadCSV_supported:
  assumes "download_supported pg" and "page_ok pg"
  shows "downloadCSV csv f pg =
           pg \<lparr> elements := elements pg @
                   [\<lparr> href = Some (ObjectURL (length (object_urls pg))), download = Some f,
                      visibility = ''hidden'' \<rparr>],
                object_urls := object_urls pg @ [csv_blob csv],
                saved := saved pg @ [(f, csv_blob csv)] \<rparr>"
  using assms page_ok_fresh [OF assms(2)]
  by (simp add: downloadCSV_def createElement_def createObjectURL_def update_element_def
      appendChild_def click_def removeChild_def js_nth_def new_blob_def csv_blob_def utf8_bom
      Let_def nth_append remove1_fresh_snoc)

lemma downloadCSV_unsupported:
  assumes "\<not> download_supported pg"
  shows "downloadCSV csv f pg =
           pg \<lparr> elements := elements pg @ [\<lparr> href = None, download = None, visibility = [] \<rparr>] \<rparr>"
  using assms by (simp add: downloadCSV_def createElement_def Let_def)

lemma page_ok_downloadCSV: "page_ok pg \<Longrightarrow> page_ok (downloadCSV csv f pg)"
  by (cases "download_supported pg")
    (auto simp add: downloadCSV_supported downloadCSV_unsupported page_ok_def list_all_iff
      elim: less_SucI)

lemma downloadCSV_saved:
  "download_supported pg \<Longrightarrow> page_ok pg \<Longrightarrow>
     saved (downloadCSV csv f pg) = saved pg @ [(f, csv_blob csv)]"
  by (simp add: downloadCSV_supported)

lemma downloadCSV_body: "page_ok pg \<Longrightarrow> body (downloadCSV csv f pg) = body pg"
  by (cases "download_supported pg") (simp_all add: downloadCSV_supported downloadCSV_unsupported)

lemma downloadCSV_iterate:
  "download_supported pg \<Longrightarrow> page_ok pg \<Longrightarrow>
     download_supported (downloadCSV csv f pg) \<and> page_ok (downloadCSV csv f pg)"
  by (simp add: page_ok_downloadCSV) (simp add: downloadCSV_supported)

section \<open>Fixtures\<close>

lemma page_ok_empty_page [simp]: "page_ok empty_page"
  by (simp add: page_ok_def empty_page_def)

lemma page_ok_legacy_page [simp]: "page_ok legacy_page"
  by (simp add: page_ok_def legacy_page_def empty_page_def)

section \<open>Properties of the file name\<close>

text \<open>
  C28.  The file name of an export has as many characters as the category and the
  location together plus five; it ends in \<^verbatim>\<open>.csv\<close>, and every character before the
  extension is a lower-case ASCII letter, a digit or a hyphen, whatever the category
  and the location contain.
\<close>
theorem export_filename_shape:
  "length (export_filename cat loc) = length cat + length loc + 5 \<and>
   list_all filename_char (take (length cat + length loc + 1) (export_filename cat loc)) \<and>
   drop (length cat + length loc + 1) (export_filename cat loc) = ''.csv''"
  using filename_char_stem [of "cat @ [hyphen] @ loc"]
  by (simp only: export_filename_stem) (simp add: export_filename_map)

text \<open>
  Two examples.  For the category \<^verbatim>\<open>Coffee Shops\<close> and the location \<^verbatim>\<open>Baku, Azerbaijan\<close> the
  file name is \<^verbatim>\<open>coffee-shops-baku--azerbaijan.csv\<close>: each of the comma and the space
  after it becomes a hyphen of its own.  The name does not determine its inputs: the
  category \<^verbatim>\<open>Car Repair\<close> in \<^verbatim>\<open>Rome\<close> and the category \<^verbatim>\<open>Car\<close> in \<^verbatim>\<open>Repair Rome\<close> export
  under the same name.
\<close>
lemma export_filename_example:
  "export_filename ''Coffee Shops'' ''Baku, Azerbaijan'' = ''coffee-shops-baku--azerbaijan.csv'' \<and>
   export_filename ''Car Repair'' ''Rome'' = export_filename ''Car'' ''Repair Rome''"
  by code_simp

section \<open>Properties of the download\<close>

text \<open>
  C19.  In a browser whose anchors have the \<^verbatim>\<open>download\<close> property, \<open>downloadCSV\<close>
  saves exactly one more file: its name is the file name given, its type is
  \<^verbatim>\<open>text/csv;charset=utf-8;\<close> and its bytes are the UTF-8 byte order mark
  \<^verbatim>\<open>EF BB BF\<close> followed by the encoding of the CSV text.  The link is appended to the
  body and removed again, so the children of the body are as before, and the
  document stays well formed.
\<close>
theorem download_saves_file:
  assumes "download_supported pg" and "page_ok pg"
  shows "saved (downloadCSV csv f pg) =
           saved pg @ [(f, \<lparr> blob_bytes = [0xEF, 0xBB, 0xBF] @ utf8 (code_units csv),
                              blob_type = ''text/csv;charset=utf-8;'' \<rparr>)] \<and>
         body (downloadCSV csv f pg) = body pg \<and> page_ok (downloadCSV csv f pg)"
  using assms
  by (simp add: downloadCSV_saved downloadCSV_body page_ok_downloadCSV csv_blob_def)

theorem download_saves_file_witness:
  "saved (downloadCSV ''a,b'' ''x.csv'' empty_page) =
     [(''x.csv'', \<lparr> blob_bytes = [0xEF, 0xBB, 0xBF, 0x61, 0x2C, 0x62],
                     blob_type = ''text/csv;charset=utf-8;'' \<rparr>)]"
proof -
  have "utf8 (code_units ''a,b'') = [0x61, 0x2C, 0x62]"
    by (simp add: utf8_def code_units_def utf8_unit_def)
  moreover have "download_supported empty_page" and "saved empty_page = []"
    by (simp_all add: empty_page_def)
  ultimately show ?thesis
    using download_saves_file [of empty_page "''a,b''" "''x.csv''"] by simp
qed

text \<open>
  When the CSV text is ASCII, the bytes of the file saved by \<open>downloadCSV\<close> are
  the three bytes of the byte order mark followed by one byte per character of the
  text, the code of that character.
\<close>
lemma download_ascii_bytes:
  assumes "download_supported pg" and "page_ok pg" and "is_ascii csv"
  shows "map (\<lambda>(n, b). blob_bytes b) (drop (length (saved pg)) (saved (downloadCSV csv f pg))) =
           [[0xEF, 0xBB, 0xBF] @ map (\<lambda>c. of_nat (of_char c)) csv]"
  using assms by (simp add: downloadCSV_saved csv_blob_def utf8_ascii)

lemma download_ascii_bytes_example:
  "map (\<lambda>(n, b). blob_bytes b) (saved (downloadCSV ''\"N/A\"'' ''x.csv'' empty_page)) =
     [[0xEF, 0xBB, 0xBF, 0x22, 0x4E, 0x2F, 0x41, 0x22]]"
proof -
  have "is_ascii ''\"N/A\"''"
    by (simp add: is_ascii_def)
  moreover have "download_supported empty_page" and "saved empty_page = []"
    by (simp_all add: empty_page_def)
  ultimately show ?thesis
    using download_ascii_bytes [of empty_page "''\"N/A\"''" "''x.csv''"] by simp
qed

text \<open>
  C20.  The saved file is a UTF-8 text from which the CSV text can be read back:
  decoding its bytes gives the byte order mark followed by the code units of the
  text, for every text of the model, with or without characters beyond ASCII.
\<close>
theorem download_text_reads_back:
  assumes "download_supported pg" and "page_ok pg"
  shows "map (\<lambda>(n, b). map_option (\<lambda>us. (take 1 us, string_of_units (drop 1 us)))
                (utf8_decode (blob_bytes b)))
           (drop (length (saved pg)) (saved (downloadCSV csv f pg))) =
         [Some (bom, Some csv)]"
  using assms
  by (simp add: downloadCSV_saved utf8_decode_csv_blob) (simp add: bom_def string_of_code_units)

theorem download_text_reads_back_witness:
  "map (\<lambda>(n, b). map_option (\<lambda>us. (take 1 us, string_of_units (drop 1 us)))
          (utf8_decode (blob_bytes b)))
     (saved (downloadCSV (''Caf'' @ [CHR 0xE9]) ''x.csv'' empty_page)) =
   [Some ([0xFEFF], Some (''Caf'' @ [CHR 0xE9]))]"
proof -
  have "download_supported empty_page" and "saved empty_page = []"
    by (simp_all add: empty_page_def)
  then show ?thesis
    using download_text_reads_back [of empty_page "''Caf'' @ [CHR 0xE9]" "''x.csv''"]
    by (simp add: bom_def)
qed

text \<open>
  C37.  In a browser whose anchors lack the \<^verbatim>\<open>download\<close> property, \<open>downloadCSV\<close>
  saves nothing, registers no object URL and leaves the body as it is: the only trace
  of the call is the anchor element it created and never attached.
\<close>
theorem download_unsupported_saves_nothing:
  assumes "\<not> download_supported pg"
  shows "saved (downloadCSV csv f pg) = saved pg \<and>
         object_urls (downloadCSV csv f pg) = object_urls pg \<and>
         body (downloadCSV csv f pg) = body pg \<and>
         length (elements (downloadCSV csv f pg)) = Suc (length (elements pg))"
  using assms by (simp add: downloadCSV_unsupported)

theorem download_unsupported_saves_nothing_witness:
  "saved (downloadCSV ''a,b'' ''x.csv'' legacy_page) = [] \<and>
   object_urls (downloadCSV ''a,b'' ''x.csv'' legacy_page) = []"
  using download_unsupported_saves_nothing [of legacy_page "''a,b''" "''x.csv''"]
  by (simp add: legacy_page_def empty_page_def)

text \<open>
  C38.  Every export in a supporting browser registers one object URL for its blob
  and none is ever released: after the export the registry holds the blobs it held
  before and the new one, and two exports in a row leave two more blobs registered.
\<close>
theorem download_keeps_object_url:
  assumes "download_supported pg" and "page_ok pg"
  shows "object_urls (downloadCSV csv f pg) = object_urls pg @ [csv_blob csv] \<and>
         object_urls (downloadCSV csv' f' (downloadCSV csv f pg)) =
           object_urls pg @ [csv_blob csv, csv_blob csv']"
  using assms downloadCSV_iterate [OF assms]
  by (simp add: downloadCSV_supported [where pg = "downloadCSV csv f pg"])
    (simp add: downloadCSV_supported)

theorem download_keeps_object_url_witness:
  "length (object_urls (downloadCSV ''c'' ''y.csv'' (downloadCSV ''a,b'' ''x.csv'' empty_page))) = 2"
proof -
  have "download_supported empty_page" and "object_urls empty_page = []"
    by (simp_all add: empty_page_def)
  then show ?thesis
    using download_keeps_object_url [of empty_page "''a,b''" "''x.csv''" "''c''" "''y.csv''"]
    by simp
qed

end
