(* ===== verification/App_Machine.thy ===== *)
theory App_Machine
  imports Gemini_Service File_Export
begin

text \<open>
  The form of \<^verbatim>\<open>src/App.tsx\<close> as a state machine.

  \<^item> \<open>app_state\<close> is the React state of \<^verbatim>\<open>App\<close> (the six \<^verbatim>\<open>useState\<close> cells), and
    \<open>initial_state\<close> their initial values.
  \<^item> Each handler is a function on \<open>app_state\<close>: \<open>handleCategoryChange\<close>,
    \<open>handleCustomBlur\<close> and \<open>handleReset\<close> (the two inline handlers of the custom
    category), \<open>setLocation\<close>, \<open>setCustomCategory\<close>, and \<open>handleExport\<close>, which acts on
    the document.  \<^verbatim>\<open>handleSearch\<close> is asynchronous: \<open>handleSearch_begin\<close> is the part
    before the \<^verbatim>\<open>await\<close> (it returns the query to send, if the guard lets it pass) and
    \<open>handleSearch_settle\<close> the part after it, applied to the outcome of
    \<open>searchPlaces\<close>.  \<open>handleSearch\<close> is the handler run in one piece, for a service
    that answers at once; the machine never runs it, it is what a search interleaved
    with other events is compared with.
  \<^item> The predicates \<open>location_input_enabled\<close>, \<open>category_select_enabled\<close>,
    \<open>custom_input_shown\<close>, \<open>custom_input_enabled\<close>, \<open>reset_shown\<close>, \<open>submit_enabled\<close> and
    \<open>export_enabled\<close> are the \<^verbatim>\<open>disabled\<close> attributes and the conditional rendering of
    the controls, one per control; \<open>category_options\<close> are the options of the
    \<^verbatim>\<open>select\<close>.
  \<^item> \<open>system\<close> puts the state of the form together with what surrounds it: the
    queries in flight, the \<open>world\<close> of the search service and the \<open>page\<close> of the
    download.  An \<open>event\<close> is a user action or the settling of a search with some
    outcome of the service call; \<open>enabled\<close> looks up the predicate of the control the
    event comes from (a search can settle when one is in flight), and \<open>fire\<close> runs the
    handler bound to it.  A blur of the custom field is taken to be possible whenever
    the field is rendered.  The effects of \<open>searchPlaces\<close> on the world are counted
    when the search settles.
  \<^item> \<open>step\<close> is the transition relation, \<open>reachable\<close> the states reached from an
    initial state, and \<open>run\<close> the executable form of a sequence of steps.
  \<^item> \<open>phase\<close> and \<open>phase_step\<close> are the busy/idle machine the form is meant to
    implement, and \<open>phase_of\<close> reads the phase off a state.
\<close>

named_theorems app_defs "definitions of the form, for evaluating closed terms"

section \<open>State\<close>

definition PRESET_CATEGORIES :: "js_string list" where
  "PRESET_CATEGORIES =
     [''Coffee Shops'', ''Restaurants'', ''Hotels'', ''Hospitals'', ''Gyms & Fitness'',
      ''Pharmacies'', ''Supermarkets'', ''Banks'', ''Real Estate Agencies'', ''Car Repair'']"

record app_state =
  location :: js_string
  category :: js_string
  customCategory :: js_string
  isCustomCategory :: bool
  data :: "PlaceData list"
  status :: ScrapeStatus

definition initial_state :: app_state where
  "initial_state =
     \<lparr> location = [], category = PRESET_CATEGORIES ! 0, customCategory = [],
       isCustomCategory = False, data = [],
       status = \<lparr> loading = False, error = None, complete = False \<rparr> \<rparr>"

section \<open>Handlers\<close>

definition setLocation :: "js_string \<Rightarrow> app_state \<Rightarrow> app_state" where
  "setLocation v s = s \<lparr> location := v \<rparr>"

definition setCustomCategory :: "js_string \<Rightarrow> app_state \<Rightarrow> app_state" where
  "setCustomCategory v s = s \<lparr> customCategory := v \<rparr>"

definition handleCategoryChange :: "js_string \<Rightarrow> app_state \<Rightarrow> app_state" where
  "handleCategoryChange val s =
     (if val = ''custom'' then s \<lparr> isCustomCategory := True, category := [] \<rparr>
      else s \<lparr> isCustomCategory := False, category := val \<rparr>)"

definition handleCustomBlur :: "app_state \<Rightarrow> app_state" where
  "handleCustomBlur s =
     (if trim (customCategory s) = []
      then s \<lparr> isCustomCategory := False, category := PRESET_CATEGORIES ! 0 \<rparr> else s)"

definition handleReset :: "app_state \<Rightarrow> app_state" where
  "handleReset s = s \<lparr> isCustomCategory := False, category := PRESET_CATEGORIES ! 0 \<rparr>"

definition finalCategory :: "app_state \<Rightarrow> js_string" where
  "finalCategory s = (if isCustomCategory s then customCategory s else category s)"

definition fullQuery :: "app_state \<Rightarrow> js_string" where
  "fullQuery s = finalCategory s @ '' in '' @ location s"

definition handleSearch_begin :: "app_state \<Rightarrow> app_state \<times> js_string option" where
  "handleSearch_begin s =
     (if trim (location s) = [] \<or> trim (finalCategory s) = [] then (s, None)
      else (s \<lparr> status := \<lparr> loading = True, error = None, complete = False \<rparr>, data := [] \<rparr>,
            Some (fullQuery s)))"

definition handleSearch_settle :: "js_error + search_result \<Rightarrow> app_state \<Rightarrow> app_state" where
  "handleSearch_settle outcome s =
     (case outcome of
        Inr result \<Rightarrow>
          (let s1 = s \<lparr> data := result_data result \<rparr>
           in if length (result_data result) = 0
              then s1 \<lparr> status :=
                     \<lparr> loading = False,
                       error = Some ''No business data found. Try refining the location or category.'',
                       complete = True \<rparr> \<rparr>
              else s1 \<lparr> status := \<lparr> loading = False, error = None, complete = True \<rparr> \<rparr>)
      | Inl err \<Rightarrow>
          s \<lparr> status := \<lparr> loading = False, error = Some (message err), complete = True \<rparr> \<rparr>)"

definition handleSearch ::
  "js_string \<Rightarrow> service \<Rightarrow> uuid_source \<Rightarrow> app_state \<Rightarrow> world \<Rightarrow> app_state \<times> world"
where
  "handleSearch apiKey ai gen s w =
     (case handleSearch_begin s of
        (s1, None) \<Rightarrow> (s1, w)
      | (s1, Some q) \<Rightarrow>
          (let (outcome, w1) = searchPlaces apiKey ai gen q w
           in (handleSearch_settle outcome s1, w1)))"

definition handleExport :: "app_state \<Rightarrow> page \<Rightarrow> page" where
  "handleExport s pg =
     (if length (data s) = 0 then pg
      else downloadCSV (convertToCSV (data s))
             (export_filename (finalCategory s) (location s)) pg)"

section \<open>The machine\<close>

record system =
  ui :: app_state
  in_flight :: "js_string list"
  net :: world
  doc :: page

datatype event =
    LocationInput js_string
  | CategorySelect js_string
  | CustomInput js_string
  | CustomBlur
  | ResetClick
  | Submit
  | Settle api_outcome
  | ExportClick

definition initial_system :: "world \<Rightarrow> page \<Rightarrow> system" where
  "initial_system w pg = \<lparr> ui = initial_state, in_flight = [], net = w, doc = pg \<rparr>"

definition location_input_enabled :: "app_state \<Rightarrow> bool" where
  "location_input_enabled u \<longleftrightarrow> \<not> loading (status u)"

definition category_options :: "js_string list" where
  "category_options = PRESET_CATEGORIES @ [''custom'']"

definition category_select_enabled :: "app_state \<Rightarrow> bool" where
  "category_select_enabled u \<longleftrightarrow> \<not> isCustomCategory u \<and> \<not> loading (status u)"

definition custom_input_shown :: "app_state \<Rightarrow> bool" where
  "custom_input_shown u \<longleftrightarrow> isCustomCategory u"

definition custom_input_enabled :: "app_state \<Rightarrow> bool" where
  "custom_input_enabled u \<longleftrightarrow> custom_input_shown u \<and> \<not> loading (status u)"

definition reset_shown :: "app_state \<Rightarrow> bool" where
  "reset_shown u \<longleftrightarrow> isCustomCategory u"

definition submit_enabled :: "app_state \<Rightarrow> bool" where
  "submit_enabled u \<longleftrightarrow> \<not> (loading (status u) \<or> trim (location u) = [])"

definition export_enabled :: "app_state \<Rightarrow> bool" where
  "export_enabled u \<longleftrightarrow> \<not> length (data u) = 0"

fun enabled :: "system \<Rightarrow> event \<Rightarrow> bool" where
  "enabled s (LocationInput v) \<longleftrightarrow> location_input_enabled (ui s)"
| "enabled s (CategorySelect v) \<longleftrightarrow> category_select_enabled (ui s) \<and> v \<in> set category_options"
| "enabled s (CustomInput v) \<longleftrightarrow> custom_input_enabled (ui s)"
| "enabled s CustomBlur \<longleftrightarrow> custom_input_shown (ui s)"
| "enabled s ResetClick \<longleftrightarrow> reset_shown (ui s)"
| "enabled s Submit \<longleftrightarrow> submit_enabled (ui s)"
| "enabled s (Settle outcome) \<longleftrightarrow> in_flight s \<noteq> []"
| "enabled s ExportClick \<longleftrightarrow> export_enabled (ui s)"

fun is_settle :: "event \<Rightarrow> bool" where
  "is_settle (Settle outcome) \<longleftrightarrow> True"
| "is_settle e \<longleftrightarrow> False"

fun fire :: "js_string \<Rightarrow> uuid_source \<Rightarrow> event \<Rightarrow> system \<Rightarrow> system" where
  "fire apiKey gen (LocationInput v) s = s \<lparr> ui := setLocation v (ui s) \<rparr>"
| "fire apiKey gen (CategorySelect v) s = s \<lparr> ui := handleCategoryChange v (ui s) \<rparr>"
| "fire apiKey gen (CustomInput v) s = s \<lparr> ui := setCustomCategory v (ui s) \<rparr>"
| "fire apiKey gen CustomBlur s = s \<lparr> ui := handleCustomBlur (ui s) \<rparr>"
| "fire apiKey gen ResetClick s = s \<lparr> ui := handleReset (ui s) \<rparr>"
| "fire apiKey gen Submit s =
     (case handleSearch_begin (ui s) of
        (u, None) \<Rightarrow> s \<lparr> ui := u \<rparr>
      | (u, Some q) \<Rightarrow> s \<lparr> ui := u, in_flight := in_flight s @ [q] \<rparr>)"
| "fire apiKey gen (Settle outcome) s =
     (case in_flight s of
        [] \<Rightarrow> s
      | q # qs \<Rightarrow>
          (let (r, w) = searchPlaces apiKey (\<lambda>_. outcome) gen q (net s)
           in s \<lparr> ui := handleSearch_settle r (ui s), in_flight := qs, net := w \<rparr>))"
| "fire apiKey gen ExportClick s = s \<lparr> doc := handleExport (ui s) (doc s) \<rparr>"

inductive step :: "js_string \<Rightarrow> uuid_source \<Rightarrow> system \<Rightarrow> event \<Rightarrow> system \<Rightarrow> bool"
  for apiKey gen
where
  step_fire: "enabled s e \<Longrightarrow> step apiKey gen s e (fire apiKey gen e s)"

inductive reachable :: "js_string \<Rightarrow> uuid_source \<Rightarrow> system \<Rightarrow> bool"
  for apiKey gen
where
  reach_init: "page_ok pg \<Longrightarrow> reachable apiKey gen (initial_system w pg)"
| reach_step: "reachable apiKey gen s \<Longrightarrow> step apiKey gen s e s' \<Longrightarrow> reachable apiKey gen s'"

fun run :: "js_string \<Rightarrow> uuid_source \<Rightarrow> event list \<Rightarrow> system \<Rightarrow> system option" where
  "run apiKey gen [] s = Some s"
| "run apiKey gen (e # es) s =
     (if enabled s e then run apiKey gen es (fire apiKey gen e s) else None)"

section \<open>The busy/idle machine\<close>

datatype phase = Idle | Requesting | Succeeded | Failed

inductive phase_step :: "phase \<Rightarrow> phase \<Rightarrow> bool" where
  request: "p \<noteq> Requesting \<Longrightarrow> phase_step p Requesting"
| success: "phase_step Requesting Succeeded"
| failure: "phase_step Requesting Failed"

code_pred phase_step .

definition phase_of :: "system \<Rightarrow> phase" where
  "phase_of s =
     (if loading (status (ui s)) then Requesting
      else if \<not> complete (status (ui s)) then Idle
      else if error (status (ui s)) = None then Succeeded else Failed)"

section \<open>Invariants\<close>

definition status_ok :: "system \<Rightarrow> bool" where
  "status_ok s \<longleftrightarrow>
     (loading (status (ui s)) \<longleftrightarrow> in_flight s \<noteq> []) \<and>
     length (in_flight s) \<le> 1 \<and>
     (loading (status (ui s)) \<longrightarrow> \<not> complete (status (ui s))) \<and>
     (\<not> complete (status (ui s)) \<longrightarrow> data (ui s) = [] \<and> error (status (ui s)) = None) \<and>
     (complete (status (ui s)) \<longrightarrow> (error (status (ui s)) = None \<longleftrightarrow> data (ui s) \<noteq> [])) \<and>
     error (status (ui s)) \<noteq> Some []"

definition category_ok :: "app_state \<Rightarrow> bool" where
  "category_ok s \<longleftrightarrow>
     (if isCustomCategory s then category s = [] else category s \<in> set PRESET_CATEGORIES)"

definition data_ok :: "uuid_source \<Rightarrow> system \<Rightarrow> bool" where
  "data_ok gen s \<longleftrightarrow>
     list_all place_ok (data (ui s)) \<and>
     length (data (ui s)) \<le> draws (net s) \<and>
     map place_id (data (ui s)) =
       map gen [draws (net s) - length (data (ui s))..<draws (net s)]"

definition invariant :: "uuid_source \<Rightarrow> system \<Rightarrow> bool" where
  "invariant gen s \<longleftrightarrow> status_ok s \<and> category_ok (ui s) \<and> data_ok gen s \<and> page_ok (doc s)"

section \<open>Fixtures\<close>

definition demo_system :: system where
  "demo_system = initial_system demo_world empty_page"

definition demo_search :: "event list" where
  "demo_search =
     [LocationInput ''Baku'', CategorySelect ''Hotels'', Submit, Settle (Resolved demo_response)]"

definition demo_form :: "event list" where
  "demo_form = [LocationInput ''Baku'', CategorySelect ''custom'', CustomInput ''Vegan'']"

definition export_view :: "system \<Rightarrow> bool \<times> js_string list \<times> js_string \<times> js_string list" where
  "export_view s =
     (enabled s ExportClick \<and> download_supported (doc s) \<and> page_ok (doc s),
      map fst (saved (doc s)), export_filename (finalCategory (ui s)) (location (ui s)),
      map contents (requests (net s)))"

lemmas [app_defs] =
  export_view_def PRESET_CATEGORIES_def initial_state_def setLocation_def setCustomCategory_def
  handleCategoryChange_def handleCustomBlur_def handleReset_def finalCategory_def
  fullQuery_def handleSearch_begin_def handleSearch_settle_def handleSearch_def
  handleExport_def initial_system_def phase_of_def status_ok_def category_ok_def
  data_ok_def invariant_def demo_system_def demo_search_def demo_form_def

lemmas control_defs =
  location_input_enabled_def category_options_def category_select_enabled_def
  custom_input_shown_def custom_input_enabled_def reset_shown_def submit_enabled_def
  export_enabled_def

declare control_defs [simp, app_defs]

inductive_simps step_iff: "step apiKey gen s e s'"

inductive_cases phase_stepE: "phase_step p q"

section \<open>Lemmas: the handlers\<close>

lemma handleSearch_begin_blocked:
  "trim (location s) = [] \<or> trim (finalCategory s) = [] \<Longrightarrow> handleSearch_begin s = (s, None)"
  by (simp add: handleSearch_begin_def)

lemma handleSearch_begin_sent:
  "trim (location s) \<noteq> [] \<Longrightarrow> trim (finalCategory s) \<noteq> [] \<Longrightarrow>
     handleSearch_begin s =
       (s \<lparr> status := \<lparr> loading = True, error = None, complete = False \<rparr>, data := [] \<rparr>,
        Some (fullQuery s))"
  by (simp add: handleSearch_begin_def)

lemma settle_Inl [simp]:
  "handleSearch_settle (Inl err) s =
     s \<lparr> status := \<lparr> loading = False, error = Some (message err), complete = True \<rparr> \<rparr>"
  by (simp add: handleSearch_settle_def)

lemma settle_Inr_empty:
  "result_data res = [] \<Longrightarrow> handleSearch_settle (Inr res) s =
     s \<lparr> data := [], status := \<lparr> loading = False,
           error = Some ''No business data found. Try refining the location or category.'',
           complete = True \<rparr> \<rparr>"
  by (simp add: handleSearch_settle_def)

lemma settle_Inr_data:
  "result_data res \<noteq> [] \<Longrightarrow> handleSearch_settle (Inr res) s =
     s \<lparr> data := result_data res,
         status := \<lparr> loading = False, error = None, complete = True \<rparr> \<rparr>"
  by (simp add: handleSearch_settle_def)

lemma status_settle [simp]:
  "loading (status (handleSearch_settle r s)) = False"
  "complete (status (handleSearch_settle r s)) = True"
  by (simp_all add: handleSearch_settle_def Let_def split: sum.splits)

lemma form_settle [simp]:
  "location (handleSearch_settle r s) = location s"
  "category (handleSearch_settle r s) = category s"
  "customCategory (handleSearch_settle r s) = customCategory s"
  "isCustomCategory (handleSearch_settle r s) = isCustomCategory s"
  by (simp_all add: handleSearch_settle_def Let_def split: sum.splits)

lemmas handler_defs =
  setLocation_def setCustomCategory_def handleCategoryChange_def handleCustomBlur_def
  handleReset_def handleSearch_begin_def

section \<open>Lemmas: the invariants\<close>

lemma preset_0 [simp]: "PRESET_CATEGORIES ! 0 \<in> set PRESET_CATEGORIES"
  by (simp add: PRESET_CATEGORIES_def)

lemma category_ok_fire:
  "category_ok (ui s) \<Longrightarrow> enabled s e \<Longrightarrow> category_ok (ui (fire apiKey gen e s))"
  by (cases e)
    (auto simp add: category_ok_def handler_defs split: prod.splits if_splits list.splits)

lemma page_ok_fire: "page_ok (doc s) \<Longrightarrow> page_ok (doc (fire apiKey gen e s))"
  by (cases e)
    (auto simp add: handleExport_def page_ok_downloadCSV split: prod.splits option.splits list.splits)

lemma status_ok_ui_only:
  assumes "status_ok s" and "status u = status (ui s)" and "data u = data (ui s)"
  shows "status_ok (s \<lparr> ui := u \<rparr>)"
  using assms by (simp add: status_ok_def)

lemma status_ok_submit:
  assumes "status_ok s" and "enabled s Submit"
  shows "status_ok (fire apiKey gen Submit s)"
proof -
  from assms have "in_flight s = []"
    by (simp add: status_ok_def)
  with assms show ?thesis
    by (simp add: status_ok_def handleSearch_begin_def)
qed

lemma status_ok_settle:
  assumes "status_ok s" and "enabled s (Settle outcome)"
  shows "status_ok (fire apiKey gen (Settle outcome) s)"
proof -
  from assms obtain q where q: "in_flight s = [q]"
    by (cases "in_flight s") (simp_all add: status_ok_def)
  with assms have idle: "data (ui s) = []"
    by (simp add: status_ok_def)
  show ?thesis
  proof (cases rule: searchPlaces_cases [of apiKey "\<lambda>_. outcome" gen q "net s"])
    case (failed err w')
    with q idle show ?thesis by (simp add: status_ok_def)
  next
    case (answered t g)
    with q show ?thesis
      by (cases "table_rows t = []")
        (simp_all add: status_ok_def settle_Inr_empty settle_Inr_data)
  qed
qed

lemma status_ok_fire:
  assumes "status_ok s" and "enabled s e"
  shows "status_ok (fire apiKey gen e s)"
proof (cases e)
  case Submit
  with assms show ?thesis by (simp only: status_ok_submit)
next
  case (Settle outcome)
  with assms show ?thesis by (simp only: status_ok_settle)
next
  case ExportClick
  with assms(1) show ?thesis by (simp add: status_ok_def)
qed (use assms in \<open>simp_all add: status_ok_ui_only handler_defs\<close>)

lemma data_ok_ui_only:
  assumes "data_ok gen s" and "data u = data (ui s)"
  shows "data_ok gen (s \<lparr> ui := u \<rparr>)"
  using assms by (simp add: data_ok_def)

lemma data_ok_settle:
  assumes "data_ok gen s" and "status_ok s" and "enabled s (Settle outcome)"
  shows "data_ok gen (fire apiKey gen (Settle outcome) s)"
proof -
  from assms obtain q where q: "in_flight s = [q]"
    by (cases "in_flight s") (simp_all add: status_ok_def)
  show ?thesis
  proof (cases rule: searchPlaces_cases [of apiKey "\<lambda>_. outcome" gen q "net s"])
    case (failed err w')
    with q assms(1) show ?thesis by (simp add: data_ok_def)
  next
    case (answered t g)
    with q show ?thesis
      by (cases "table_rows t = []")
        (simp_all add: data_ok_def settle_Inr_empty settle_Inr_data enriched_rows_ok
          enriched_rows_ids)
  qed
qed

lemma data_ok_fire:
  assumes "data_ok gen s" and "status_ok s" and "enabled s e"
  shows "data_ok gen (fire apiKey gen e s)"
proof (cases e)
  case Submit
  with assms show ?thesis by (simp add: data_ok_def handleSearch_begin_def)
next
  case (Settle outcome)
  with assms show ?thesis by (simp only: data_ok_settle)
next
  case ExportClick
  with assms(1) show ?thesis by (simp add: data_ok_def)
qed (use assms in \<open>simp_all add: data_ok_ui_only handler_defs\<close>)

lemma invariant_fire:
  "invariant gen s \<Longrightarrow> enabled s e \<Longrightarrow> invariant gen (fire apiKey gen e s)"
  by (simp add: invariant_def status_ok_fire category_ok_fire data_ok_fire page_ok_fire)

lemma invariant_initial: "page_ok pg \<Longrightarrow> invariant gen (initial_system w pg)"
  by (simp add: invariant_def status_ok_def category_ok_def data_ok_def initial_system_def
      initial_state_def)

lemma reachable_invariant: "reachable apiKey gen s \<Longrightarrow> invariant gen s"
  by (induction rule: reachable.induct) (auto simp add: invariant_initial step_iff invariant_fire)

lemma run_reachable:
  "reachable apiKey gen s \<Longrightarrow> run apiKey gen es s = Some s' \<Longrightarrow> reachable apiKey gen s'"
  by (induction es arbitrary: s)
    (auto split: if_splits intro: reach_step step_fire)

lemma run_append:
  "run apiKey gen (es @ fs) s =
     (case run apiKey gen es s of None \<Rightarrow> None | Some s' \<Rightarrow> run apiKey gen fs s')"
  by (induction es arbitrary: s) simp_all

section \<open>Lemmas: phases, settling and runs\<close>

lemma phase_of_ui_only:
  "status u = status (ui s) \<Longrightarrow> phase_of (s \<lparr> ui := u \<rparr>) = phase_of s"
  by (simp add: phase_of_def)

lemma phase_fire:
  assumes "status_ok s" and "enabled s e"
  shows "(phase_of (fire apiKey gen e s) = phase_of s \<or>
          phase_step (phase_of s) (phase_of (fire apiKey gen e s))) \<and>
         (phase_of (fire apiKey gen e s) \<noteq> phase_of s \<longrightarrow>
            e = Submit \<or> (\<exists>outcome. e = Settle outcome))"
proof (cases e)
  case Submit
  with assms show ?thesis
    by (auto simp add: handleSearch_begin_def phase_of_def intro: phase_step.request)
next
  case (Settle outcome)
  with assms have "phase_of s = Requesting"
    by (simp add: status_ok_def phase_of_def)
  moreover have "phase_of (fire apiKey gen e s) \<in> {Succeeded, Failed}"
    using Settle assms(2) by (auto simp add: phase_of_def split: list.splits prod.splits)
  ultimately show ?thesis
    using Settle by (auto intro: phase_step.intros)
next
  case ExportClick
  then show ?thesis by (simp add: phase_of_def)
qed (simp_all add: phase_of_ui_only handler_defs)

lemma fire_settle_failed:
  assumes "in_flight s = q # qs"
    and "searchPlaces apiKey (\<lambda>_. outcome) gen q (net s) = (Inl err, w)"
  shows "fire apiKey gen (Settle outcome) s =
     s \<lparr> ui := (ui s) \<lparr> status := \<lparr> loading = False, error = Some (message err), complete = True \<rparr> \<rparr>,
         in_flight := qs, net := w \<rparr>"
  using assms by simp

lemma fire_settle_resolved:
  assumes "in_flight s = q # qs" and "apiKey \<noteq> []"
  shows "fire apiKey gen (Settle (Resolved r)) s =
     s \<lparr> ui := handleSearch_settle
             (Inr \<lparr> result_text = or_else (response_text r) [],
                    result_data = enrich (grounding_chunks_of r)
                      (number_rows gen (draws (net s)) (table_rows (or_else (response_text r) []))) \<rparr>)
             (ui s),
         in_flight := qs,
         net := (net s) \<lparr> requests := requests (net s) @ [make_request q],
                  draws := draws (net s) + length (table_rows (or_else (response_text r) [])) \<rparr> \<rparr>"
  using assms by (simp add: searchPlaces_resolved)

lemma loading_step:
  assumes "loading (status (ui s))" and "data (ui s) = []"
    and "enabled s e" and "\<not> is_settle e"
  shows "e \<in> {CustomBlur, ResetClick} \<and>
         status (ui (fire apiKey gen e s)) = status (ui s) \<and>
         data (ui (fire apiKey gen e s)) = data (ui s) \<and>
         location (ui (fire apiKey gen e s)) = location (ui s) \<and>
         customCategory (ui (fire apiKey gen e s)) = customCategory (ui s) \<and>
         in_flight (fire apiKey gen e s) = in_flight s \<and>
         net (fire apiKey gen e s) = net s \<and> doc (fire apiKey gen e s) = doc s"
  using assms by (cases e) (simp_all add: handler_defs)

lemma loading_run:
  assumes "run apiKey gen es s = Some t"
    and "loading (status (ui s))" and "data (ui s) = []"
    and "list_all (\<lambda>e. \<not> is_settle e) es"
  shows "set es \<subseteq> {CustomBlur, ResetClick} \<and>
         status (ui t) = status (ui s) \<and> data (ui t) = data (ui s) \<and>
         location (ui t) = location (ui s) \<and> customCategory (ui t) = customCategory (ui s) \<and>
         in_flight t = in_flight s \<and> net t = net s \<and> doc t = doc s"
  using assms
proof (induction es arbitrary: s)
  case Nil
  then show ?case by simp
next
  case (Cons e es)
  from Cons.prems have e: "enabled s e" "\<not> is_settle e"
    and r: "run apiKey gen es (fire apiKey gen e s) = Some t"
    and es: "list_all (\<lambda>e. \<not> is_settle e) es"
    by (simp_all split: if_splits)
  note f = loading_step [OF Cons.prems(2,3) e, of apiKey gen]
  from Cons.IH [OF r _ _ es] f Cons.prems(2,3) show ?case
    by simp
qed

lemma settle_data_status:
  "data u = data v \<Longrightarrow> data (handleSearch_settle r u) = data (handleSearch_settle r v)"
  "status (handleSearch_settle r u) = status (handleSearch_settle r v)"
  by (simp_all add: handleSearch_settle_def Let_def split: sum.splits)

lemma demo_run:
  "run ''key'' demo_gen demo_search demo_system \<noteq> None"
  by code_simp

lemma demo_reachable:
  assumes "run ''key'' demo_gen es demo_system = Some s"
  shows "reachable ''key'' demo_gen s"
proof -
  have "reachable ''key'' demo_gen demo_system"
    unfolding demo_system_def by (rule reach_init) simp
  then show ?thesis using assms by (rule run_reachable)
qed

section \<open>Properties of the form\<close>

text \<open>
  C4.  In every state the form can reach, from any world and any well-formed
  document: the form is loading exactly when a search is in flight, and at most one
  is; before the first search has settled there are no records and no message;
  after a search has settled there is a message exactly when there are no records,
  and the message is never empty; the category is one of the presets, or empty while
  the custom field is shown; the records shown are well formed and their identifiers
  are the last draws of the generator; the document is well formed.
\<close>
theorem form_invariant:
  assumes "reachable apiKey gen s"
  shows "status_ok s \<and> category_ok (ui s) \<and> data_ok gen s \<and> page_ok (doc s)"
  using reachable_invariant [OF assms] by (simp add: invariant_def)

theorem form_invariant_witness:
  "\<exists>s. run ''key'' demo_gen demo_search demo_system = Some s \<and>
       status_ok s \<and> category_ok (ui s) \<and> data_ok demo_gen s \<and> page_ok (doc s)"
proof -
  obtain s where s: "run ''key'' demo_gen demo_search demo_system = Some s"
    using demo_run by blast
  from form_invariant [OF demo_reachable [OF s]] s show ?thesis by blast
qed

text \<open>
  C14.  While a search is in flight the form cannot be submitted again, the
  location cannot be edited and nothing can be exported; so the queries in flight
  never number more than one.
\<close>
theorem one_search_in_flight:
  assumes "reachable apiKey gen s" and "in_flight s \<noteq> []"
  shows "length (in_flight s) = 1 \<and> \<not> enabled s Submit \<and> \<not> enabled s (LocationInput v) \<and>
         \<not> enabled s ExportClick"
proof -
  from reachable_invariant [OF assms(1)] have "status_ok s"
    by (simp add: invariant_def)
  with assms(2) show ?thesis
    by (cases "in_flight s") (auto simp add: status_ok_def)
qed

theorem one_search_in_flight_witness:
  "\<exists>s. run ''key'' demo_gen (take 3 demo_search) demo_system = Some s \<and>
       in_flight s = [''Hotels in Baku''] \<and> \<not> enabled s Submit"
proof -
  have "run ''key'' demo_gen (take 3 demo_search) demo_system \<noteq> None"
    by code_simp
  then obtain s where s: "run ''key'' demo_gen (take 3 demo_search) demo_system = Some s"
    by blast
  then have q: "in_flight s = [''Hotels in Baku'']"
    by (auto simp add: demo_search_def demo_system_def initial_system_def initial_state_def
        handler_defs PRESET_CATEGORIES_def finalCategory_def fullQuery_def js_defs
        split: if_splits)
  with one_search_in_flight [OF demo_reachable [OF s], of "[]"] s show ?thesis by simp
qed

text \<open>
  C8.  The form implements the busy/idle machine: a step of the form either keeps
  the phase or is a step of that machine (a request from a phase that is not busy,
  or the success or failure of the request), and only a submission or the settling
  of a search changes the phase.
\<close>
theorem form_refines_phases:
  assumes "reachable apiKey gen s" and "step apiKey gen s e s'"
  shows "(phase_of s' = phase_of s \<or> phase_step (phase_of s) (phase_of s')) \<and>
         (phase_of s' \<noteq> phase_of s \<longrightarrow> e = Submit \<or> (\<exists>outcome. e = Settle outcome))"
proof -
  from reachable_invariant [OF assms(1)] have ok: "status_ok s"
    by (simp add: invariant_def)
  from assms(2) have e: "enabled s e" and s': "s' = fire apiKey gen e s"
    by (simp_all add: step_iff)
  from phase_fire [OF ok e, of apiKey gen] show ?thesis
    unfolding s' .
qed

theorem form_refines_phases_witness:
  "phase_step (phase_of demo_system) (phase_of (fire ''key'' demo_gen Submit
     (fire ''key'' demo_gen (LocationInput ''Baku'') demo_system)))"
proof -
  let ?s = "fire ''key'' demo_gen (LocationInput ''Baku'') demo_system"
  have r: "reachable ''key'' demo_gen ?s"
    by (rule demo_reachable [of "[LocationInput ''Baku'']"])
      (simp add: demo_system_def initial_system_def initial_state_def)
  have e: "enabled ?s Submit"
    by (simp add: demo_system_def initial_system_def initial_state_def setLocation_def js_defs)
  have "phase_of ?s = Idle" "phase_of demo_system = Idle"
    by (simp_all add: phase_of_def demo_system_def initial_system_def initial_state_def
        setLocation_def)
  moreover have "phase_of (fire ''key'' demo_gen Submit ?s) = Requesting"
    by (simp add: phase_of_def demo_system_def initial_system_def initial_state_def
        setLocation_def handleSearch_begin_def finalCategory_def PRESET_CATEGORIES_def js_defs)
  ultimately show ?thesis
    using form_refines_phases [OF r step_fire [OF e]] by simp
qed

text \<open>
  C21.  A search is atomic with respect to what the user does while it is in flight.
  From a reachable state in which the form can be submitted and the category is not
  blank, take any run that submits, does anything but settle, and then settles with
  some outcome of the service call.  The events in between can only be resets and
  blurs of the custom category (every other control is disabled while loading), and
  the records and the status on the screen, the requests sent and the identifiers
  drawn are those of the handler \<^verbatim>\<open>handleSearch\<close> run in one piece on the form as it
  was at the submission, with a service that gives that outcome at once.  The location
  and the custom text are as they were, no search is left in flight and nothing has
  been downloaded.  The category itself may have changed: the query sent is that of
  the submission, not that of the form at the end.
\<close>
theorem search_result_atomic:
  assumes "reachable apiKey gen s"
    and "trim (finalCategory (ui s)) \<noteq> []"
    and "list_all (\<lambda>e. \<not> is_settle e) es"
    and "run apiKey gen (Submit # es @ [Settle outcome]) s = Some s'"
  shows "set es \<subseteq> {CustomBlur, ResetClick} \<and>
         data (ui s') = data (fst (handleSearch apiKey (\<lambda>_. outcome) gen (ui s) (net s))) \<and>
         status (ui s') = status (fst (handleSearch apiKey (\<lambda>_. outcome) gen (ui s) (net s))) \<and>
         location (ui s') = location (ui s) \<and> customCategory (ui s') = customCategory (ui s) \<and>
         net s' = snd (handleSearch apiKey (\<lambda>_. outcome) gen (ui s) (net s)) \<and>
         in_flight s' = [] \<and> doc s' = doc s"
proof -
  let ?q = "fullQuery (ui s)"
  let ?s1 = "fire apiKey gen Submit s"
  from assms(4) have sub: "enabled s Submit"
    and r: "run apiKey gen (es @ [Settle outcome]) ?s1 = Some s'"
    by (simp_all split: if_splits)
  from reachable_invariant [OF assms(1)] sub have idle: "in_flight s = []"
    by (simp add: invariant_def status_ok_def)
  from sub assms(2) have b: "handleSearch_begin (ui s) =
      ((ui s) \<lparr> status := \<lparr> loading = True, error = None, complete = False \<rparr>, data := [] \<rparr>,
       Some ?q)"
    by (simp add: handleSearch_begin_sent)
  with idle have s1: "loading (status (ui ?s1))" "data (ui ?s1) = []" "in_flight ?s1 = [?q]"
    "net ?s1 = net s" "doc ?s1 = doc s" "location (ui ?s1) = location (ui s)"
    "customCategory (ui ?s1) = customCategory (ui s)"
    by simp_all
  from r obtain t where t: "run apiKey gen es ?s1 = Some t"
    and s': "s' = fire apiKey gen (Settle outcome) t"
    by (auto simp add: run_append split: option.splits if_splits)
  note fr = loading_run [OF t s1(1,2) assms(3)]
  obtain res w where sp: "searchPlaces apiKey (\<lambda>_. outcome) gen ?q (net s) = (res, w)"
    by (cases "searchPlaces apiKey (\<lambda>_. outcome) gen ?q (net s)")
  have h: "handleSearch apiKey (\<lambda>_. outcome) gen (ui s) (net s) =
      (handleSearch_settle res
         ((ui s) \<lparr> status := \<lparr> loading = True, error = None, complete = False \<rparr>, data := [] \<rparr>), w)"
    by (simp add: handleSearch_def b sp)
  from fr s1 have "s' = t \<lparr> ui := handleSearch_settle res (ui t), in_flight := [], net := w \<rparr>"
    by (simp add: s' sp)
  with fr s1 h show ?thesis
    using settle_data_status(1) [of "ui t" _ res] settle_data_status(2) [of res "ui t"]
    by simp
qed

theorem search_result_atomic_witness:
  "\<exists>s s'. run ''key'' demo_gen demo_form demo_system = Some s \<and>
     trim (finalCategory (ui s)) \<noteq> [] \<and>
     run ''key'' demo_gen (Submit # [ResetClick] @ [Settle (Resolved demo_response)]) s = Some s' \<and>
     data (ui s') =
       data (fst (handleSearch ''key'' (\<lambda>_. Resolved demo_response) demo_gen (ui s) (net s))) \<and>
     map name (data (ui s')) = [''Cafe Uno'', ''Tea House''] \<and>
     map contents (requests (net s')) = [contents (make_request ''Vegan in Baku'')] \<and>
     finalCategory (ui s') = ''Coffee Shops''"
proof -
  have a: "map_option (\<lambda>s. finalCategory (ui s)) (run ''key'' demo_gen demo_form demo_system) =
      Some ''Vegan''"
    by code_simp
  have b: "map_option
        (\<lambda>s. (map name (data (ui s)), map contents (requests (net s)), finalCategory (ui s)))
        (run ''key'' demo_gen
           (demo_form @ Submit # [ResetClick] @ [Settle (Resolved demo_response)]) demo_system) =
      Some ([''Cafe Uno'', ''Tea House''], [contents (make_request ''Vegan in Baku'')],
        ''Coffee Shops'')"
    by code_simp
  from a obtain s where s: "run ''key'' demo_gen demo_form demo_system = Some s"
    and c: "finalCategory (ui s) = ''Vegan''"
    by auto
  from b s obtain s' where
    s': "run ''key'' demo_gen (Submit # [ResetClick] @ [Settle (Resolved demo_response)]) s = Some s'"
    and v: "map name (data (ui s')) = [''Cafe Uno'', ''Tea House'']"
      "map contents (requests (net s')) = [contents (make_request ''Vegan in Baku'')]"
      "finalCategory (ui s') = ''Coffee Shops''"
    by (auto simp add: run_append)
  from c have t: "trim (finalCategory (ui s)) \<noteq> []"
    by (simp add: js_defs)
  from search_result_atomic [OF demo_reachable [OF s] t _ s'] s s' t v show ?thesis
    by simp
qed

text \<open>
  C22.  When a search settles with an answer of the service, the form shows the
  records extracted from the text of the answer and enriched with its citations,
  and stops loading; if there are none it shows the message that no business data
  was found, otherwise no message.  The world has one more request and as many more
  draws as there are records.
\<close>
theorem settle_shows_records:
  assumes "in_flight s = [q]" and "apiKey \<noteq> []"
  shows "data (ui (fire apiKey gen (Settle (Resolved r)) s)) =
           enrich (grounding_chunks_of r)
             (fst (parseMarkdownTableToData gen (draws (net s)) (or_else (response_text r) []))) \<and>
         status (ui (fire apiKey gen (Settle (Resolved r)) s)) =
           \<lparr> loading = False,
             error = (if table_rows (or_else (response_text r) []) = []
                      then Some ''No business data found. Try refining the location or category.''
                      else None),
             complete = True \<rparr> \<and>
         in_flight (fire apiKey gen (Settle (Resolved r)) s) = [] \<and>
         requests (net (fire apiKey gen (Settle (Resolved r)) s)) =
           requests (net s) @ [make_request q] \<and>
         draws (net (fire apiKey gen (Settle (Resolved r)) s)) =
           draws (net s) + length (data (ui (fire apiKey gen (Settle (Resolved r)) s)))"
  by (cases "table_rows (or_else (response_text r) []) = []")
    (simp_all add: fire_settle_resolved [OF assms] settle_Inr_empty settle_Inr_data fst_parse
      del: fire.simps)

theorem settle_shows_records_witness:
  "\<exists>s. run ''key'' demo_gen demo_search demo_system = Some s \<and>
       map name (data (ui s)) = map (\<lambda>r. r ! 0) demo_rows \<and>
       status (ui s) = \<lparr> loading = False, error = None, complete = True \<rparr>"
proof -
  let ?s = "\<lparr> ui = initial_state \<lparr> location := ''Baku'', category := ''Hotels'',
                  status := \<lparr> loading = True, error = None, complete = False \<rparr> \<rparr>,
               in_flight = [''Hotels in Baku''], net = demo_world, doc = empty_page \<rparr>"
  have run: "run ''key'' demo_gen demo_search demo_system =
               Some (fire ''key'' demo_gen (Settle (Resolved demo_response)) ?s)"
    by (simp add: demo_search_def demo_system_def initial_system_def initial_state_def
        handler_defs PRESET_CATEGORIES_def finalCategory_def fullQuery_def js_defs
        del: fire.simps(7))
  have rows: "table_rows (or_else (response_text demo_response) []) \<noteq> []"
    by code_simp
  have names: "map name (enrich (grounding_chunks_of demo_response)
      (fst (parseMarkdownTableToData demo_gen (draws demo_world)
         (or_else (response_text demo_response) [])))) = map (\<lambda>r. r ! 0) demo_rows"
    by code_simp
  from settle_shows_records [where s = ?s and q = "''Hotels in Baku''" and apiKey = "''key''"
      and r = demo_response and gen = demo_gen] rows names run
  show ?thesis by simp
qed

text \<open>
  C23.  When a search settles with a failure, the form shows its message, keeps no
  records and stops loading: without an API key the message is the one about the
  missing key and no request is sent; with a key and a rejected call it is the
  message of the rejection, or the default message when the rejection has none.
\<close>
theorem settle_shows_failure:
  assumes "in_flight s = [q]" and "data (ui s) = []"
    and "apiKey = [] \<or> outcome = Rejected msg"
  shows "status (ui (fire apiKey gen (Settle outcome) s)) =
           \<lparr> loading = False,
             error = Some (if apiKey = []
                           then ''API Key is missing. Please check your environment configuration.''
                           else or_else msg ''Failed to fetch data from Gemini.''),
             complete = True \<rparr> \<and>
         data (ui (fire apiKey gen (Settle outcome) s)) = [] \<and>
         in_flight (fire apiKey gen (Settle outcome) s) = [] \<and>
         requests (net (fire apiKey gen (Settle outcome) s)) =
           (if apiKey = [] then requests (net s) else requests (net s) @ [make_request q])"
  using assms by (auto simp add: searchPlaces_no_key searchPlaces_rejected)

theorem settle_shows_failure_witness:
  "error (status (ui (fire ''key'' demo_gen (Settle (Rejected (Some ''quota'')))
      (demo_system \<lparr> in_flight := [''Hotels in Baku''] \<rparr>)))) = Some ''quota''"
proof -
  have "data (ui (demo_system \<lparr> in_flight := [''Hotels in Baku''] \<rparr>)) = []"
    by (simp add: demo_system_def initial_system_def initial_state_def)
  from settle_shows_failure [where s = "demo_system \<lparr> in_flight := [''Hotels in Baku''] \<rparr>"
      and q = "''Hotels in Baku''" and apiKey = "''key''" and outcome = "Rejected (Some ''quota'')"
      and msg = "Some ''quota''" and gen = demo_gen, OF _ this]
  show ?thesis by (simp add: or_else_def)
qed

text \<open>
  C16.  The form never gets stuck and every search ends: in a reachable state some
  event is enabled, and while the form is loading the search can settle with any
  outcome of the service, after which the form is no longer loading, the search is
  complete and nothing is in flight.
\<close>
theorem search_always_settles:
  assumes "reachable apiKey gen s"
  shows "(\<exists>e. enabled s e) \<and>
         (loading (status (ui s)) \<longrightarrow>
            enabled s (Settle outcome) \<and>
            \<not> loading (status (ui (fire apiKey gen (Settle outcome) s))) \<and>
            complete (status (ui (fire apiKey gen (Settle outcome) s))) \<and>
            in_flight (fire apiKey gen (Settle outcome) s) = [])"
proof -
  from reachable_invariant [OF assms] have ok: "status_ok s"
    by (simp add: invariant_def)
  have "enabled s (LocationInput []) \<or> enabled s (Settle outcome)"
    using ok by (simp add: status_ok_def)
  then have "\<exists>e. enabled s e" by blast
  moreover have "enabled s (Settle outcome) \<and>
            \<not> loading (status (ui (fire apiKey gen (Settle outcome) s))) \<and>
            complete (status (ui (fire apiKey gen (Settle outcome) s))) \<and>
            in_flight (fire apiKey gen (Settle outcome) s) = []"
    if "loading (status (ui s))"
  proof -
    from that ok obtain q where "in_flight s = [q]"
      by (cases "in_flight s") (simp_all add: status_ok_def)
    then show ?thesis
      by (simp split: prod.splits)
  qed
  ultimately show ?thesis by blast
qed

theorem search_always_settles_witness:
  "\<exists>s. run ''key'' demo_gen (take 3 demo_search) demo_system = Some s \<and>
       loading (status (ui s)) \<and>
       \<not> loading (status (ui (fire ''key'' demo_gen (Settle (Rejected None)) s)))"
proof -
  have "run ''key'' demo_gen (take 3 demo_search) demo_system \<noteq> None"
    by code_simp
  then obtain s where s: "run ''key'' demo_gen (take 3 demo_search) demo_system = Some s"
    by blast
  then have "loading (status (ui s))"
    by (auto simp add: demo_search_def demo_system_def initial_system_def initial_state_def
        handler_defs PRESET_CATEGORIES_def finalCategory_def fullQuery_def js_defs
        split: if_splits)
  with search_always_settles [OF demo_reachable [OF s], of "Rejected None"] s
  show ?thesis by blast
qed

text \<open>
  C26.  An export writes the records on the screen: in a reachable state with
  records, in a browser that supports downloads, the export saves one file, named
  after the category and the location in the form, whose bytes are the byte order
  mark and the UTF-8 encoding of the CSV text of the records shown; the form and
  the world stay as they are.
\<close>
theorem export_saves_shown_records:
  assumes "reachable apiKey gen s" and "enabled s ExportClick" and "download_supported (doc s)"
  shows "saved (doc (fire apiKey gen ExportClick s)) =
           saved (doc s) @
             [(export_filename (finalCategory (ui s)) (location (ui s)),
               \<lparr> blob_bytes = [0xEF, 0xBB, 0xBF] @ utf8 (code_units (convertToCSV (data (ui s)))),
                 blob_type = ''text/csv;charset=utf-8;'' \<rparr>)] \<and>
         ui (fire apiKey gen ExportClick s) = ui s \<and>
         net (fire apiKey gen ExportClick s) = net s"
proof -
  from reachable_invariant [OF assms(1)] have "page_ok (doc s)"
    by (simp add: invariant_def)
  with assms(2,3) show ?thesis
    by (simp add: handleExport_def downloadCSV_saved csv_blob_def)
qed

theorem export_saves_shown_records_witness:
  "\<exists>s. run ''key'' demo_gen demo_search demo_system = Some s \<and>
       map fst (saved (doc (fire ''key'' demo_gen ExportClick s))) = [''hotels-baku.csv'']"
proof -
  obtain s where s: "run ''key'' demo_gen demo_search demo_system = Some s"
    using demo_run by blast
  have "map_option export_view (run ''key'' demo_gen demo_search demo_system) =
        Some (True, [], ''hotels-baku.csv'', [contents (make_request ''Hotels in Baku'')])"
    by code_simp
  with s have "enabled s ExportClick" "download_supported (doc s)" "saved (doc s) = []"
    "export_filename (finalCategory (ui s)) (location (ui s)) = ''hotels-baku.csv''"
    by (simp_all add: export_view_def)
  with export_saves_shown_records [OF demo_reachable [OF s]] s show ?thesis
    by simp
qed

text \<open>
  C15.  The identifiers of the records on the screen, which the results table uses
  as keys, are pairwise distinct in every reachable state, provided the generator
  of identifiers never returns the same value twice.
\<close>
theorem shown_ids_distinct:
  assumes "reachable apiKey gen s" and "inj gen"
  shows "distinct (map place_id (data (ui s)))"
proof -
  from reachable_invariant [OF assms(1)]
  have "map place_id (data (ui s)) =
          map gen [draws (net s) - length (data (ui s))..<draws (net s)]"
    by (simp add: invariant_def data_ok_def)
  moreover have "inj_on gen (set [draws (net s) - length (data (ui s))..<draws (net s)])"
    using assms(2) by (rule inj_on_subset) simp
  ultimately show ?thesis by (simp add: distinct_map)
qed

theorem shown_ids_distinct_witness:
  "\<exists>s. run ''key'' demo_gen demo_search demo_system = Some s \<and>
       distinct (map place_id (data (ui s))) \<and> length (data (ui s)) = 2"
proof -
  obtain s where s: "run ''key'' demo_gen demo_search demo_system = Some s"
    using demo_run by blast
  have "map_option (\<lambda>s. length (data (ui s))) (run ''key'' demo_gen demo_search demo_system) =
          Some 2"
    by code_simp
  with shown_ids_distinct [OF demo_reachable [OF s] inj_demo_gen] s show ?thesis
    by simp
qed

end
