(* ===== verification/Spec2Isabelle.thy ===== *)
theory Spec2Isabelle
  imports Table_Extractor Csv_Serializer Gemini_Service File_Export App_Machine
begin

text \<open>
  A verification development for the Maps Data Extractor, a browser form that asks a
  generative service for a Markdown table of businesses, turns the text into records
  and exports them as CSV.

  \<^bold>\<open>The program.\<close>
  \<^item> \<^verbatim>\<open>src/types.ts\<close>: the interfaces \<^verbatim>\<open>PlaceData\<close>, \<^verbatim>\<open>ScrapeStatus\<close>, \<^verbatim>\<open>SearchParams\<close>.
  \<^item> \<^verbatim>\<open>src/utils/parser.ts\<close>: \<^verbatim>\<open>parseMarkdownTableToData\<close> (text to records),
    \<^verbatim>\<open>convertToCSV\<close> (records to CSV text), \<^verbatim>\<open>downloadCSV\<close> (the file download).
  \<^item> \<^verbatim>\<open>src/services/geminiService.ts\<close>: \<^verbatim>\<open>searchPlaces\<close>, which calls the service,
    runs the extractor on the answer and attaches citation URLs to the records.
  \<^item> \<^verbatim>\<open>src/App.tsx\<close>: the form, its state and the handlers \<^verbatim>\<open>handleSearch\<close>,
    \<^verbatim>\<open>handleExport\<close>, \<^verbatim>\<open>handleCategoryChange\<close> and the inline handlers of the controls.
  \<^item> \<^verbatim>\<open>src/components/Header.tsx\<close>: static markup.
  The form calls \<^verbatim>\<open>searchPlaces\<close> on submission and shows what it returns; the export
  button hands the records shown to \<^verbatim>\<open>convertToCSV\<close> and the text to \<^verbatim>\<open>downloadCSV\<close>.

  \<^bold>\<open>The theories.\<close>
  \<^item> \<open>JS_Prelude\<close>: the ECMAScript built-ins the sources call (\<^verbatim>\<open>trim\<close>, \<^verbatim>\<open>split\<close>,
    \<^verbatim>\<open>join\<close>, \<^verbatim>\<open>startsWith\<close>, \<^verbatim>\<open>includes\<close>, \<^verbatim>\<open>findIndex\<close>, \<^verbatim>\<open>filter\<close> with an index,
    \<^verbatim>\<open>replace\<close> with a global pattern, \<^verbatim>\<open>||\<close>, \<^verbatim>\<open>toLowerCase\<close>) as executable functions on
    \<^typ>\<open>string\<close>, and the lemmas about them.  A \<^typ>\<open>char\<close> is one UTF-16 code unit below
    256; strings with larger code units are outside the model.
  \<^item> \<open>Place_Types\<close>: the records of \<^verbatim>\<open>src/types.ts\<close>.
  \<^item> \<open>Table_Extractor\<close>: \<^verbatim>\<open>parseMarkdownTableToData\<close>.  The \<^verbatim>\<open>for\<close> loop is the
    recursive function \<open>parse_rows\<close> on the line index; \<^verbatim>\<open>crypto.randomUUID()\<close> is a
    parameter \<open>gen\<close> that gives the \<open>k\<close>-th identifier drawn, and the functions return
    the number of identifiers drawn with the records.
  \<^item> \<open>Csv_Serializer\<close>: \<^verbatim>\<open>convertToCSV\<close> (\<open>headers\<close>, \<open>csv_cells\<close>, \<open>convertToCSV\<close>), and
    a reference decoder \<open>csv_decode\<close> for quoted CSV, a scanner with four modes, which
    is what a reader of the file does and is there to state the round trip.
  \<^item> \<open>Gemini_Service\<close>: \<^verbatim>\<open>searchPlaces\<close>.  The service is a parameter that maps the
    request to an outcome, \<open>Resolved\<close> or \<open>Rejected\<close>; a thrown error is the value
    \<open>Inl (Error message)\<close>; the enrichment loop is \<open>next_chunk\<close>, threaded through the
    records by \<open>enrich_all\<close>; the record \<open>world\<close> counts the requests sent and the
    identifiers drawn.
  \<^item> \<open>File_Export\<close>: the file name of \<^verbatim>\<open>handleExport\<close> (\<open>export_filename\<close>) and
    \<^verbatim>\<open>downloadCSV\<close> on a record \<open>page\<close> of the document, one function per DOM call;
    the blob holds bytes (\<^typ>\<open>8 word\<close>), the UTF-8 encoding of 16-bit code units.
  \<^item> \<open>App_Machine\<close>: the state of \<^verbatim>\<open>App\<close> as the record \<open>app_state\<close>, one function per
    handler (\<^verbatim>\<open>handleSearch\<close> in two parts, before and after the \<^verbatim>\<open>await\<close>, and in one
    piece), one predicate per control for its \<^verbatim>\<open>disabled\<close> attribute and rendering
    condition (\<open>submit_enabled\<close>, \<open>export_enabled\<close>, \<open>reset_shown\<close> and the others), the
    events of the page, the step relation \<open>step\<close>, the reachable states, and the
    busy/idle machine \<open>phase_step\<close> that the form refines.
  \<^item> This theory: the properties that span components.  \<open>read_file\<close> is what a
    spreadsheet does with the saved bytes: it decodes UTF-8, drops the byte order
    mark and decodes the CSV text.

  \<^bold>\<open>What is proved.\<close>
  \<^item> Extractor: the loop computes the loop-free reference \<open>table_rows\<close> (one record per
    line after the first separator row that starts with a pipe and has two columns
    or more, in the order of the lines); the identifiers are the successive draws of
    the generator, hence distinct when the generator does not repeat itself; every
    text field of every record is non-empty, trimmed and free of pipes and line
    breaks, and no record carries a URL; a text without a separator row gives no
    record; lines in front of the table that do not start with a pipe are ignored,
    three hyphens or not; a printed table is
    extracted to its rows, with \<^verbatim>\<open>N/A\<close> for missing and for empty cells; a row without
    its closing pipe loses its last cell.
  \<^item> Serialiser: the text decodes to the header and the seven values of every record
    if and only if the fields other than name and address hold no double quote.  The
    two directions are separate theorems; the second is by inversion of the decoder
    on a cell with an unescaped quote (\<open>scan_quoted_inv\<close>, \<open>scan_extends\<close>) and holds
    for every sequence of records.  The number and the order of the lines.
  \<^item> Service: the enrichment equals the zip with the citations that carry a URI; on
    the first citation it takes the map URI if there is one, the web URI otherwise,
    and skips a citation with neither, stated on the optional fields themselves; it
    keeps the records and attaches only non-empty URLs; the loop index stays within
    bounds; each error path gives its message; exactly one request is sent per
    search with a key; the records of a successful search are well formed.
  \<^item> Export: the shape of the file name; the saved file is the byte order mark and
    the encoded text, and decoding it gives the text back, for every text of the
    model; without the \<^verbatim>\<open>download\<close> property nothing is saved; object URLs are never
    released.
  \<^item> Form: an invariant of all reachable states (loading exactly when one search is
    in flight, a message exactly when a settled search has no records, well-formed
    records and category, distinct identifiers on the screen); the form refines the
    busy/idle machine; settling shows the records or the message; every search
    settles; a search is atomic: from a reachable state, whatever the user does
    between a submission and its settling (only resets and blurs of the custom
    category are possible then, by a frame lemma on the steps lifted to runs), the
    records, status, requests and draws are those of \<^verbatim>\<open>handleSearch\<close> run in one piece
    on the form as submitted; an export saves the records shown, under a name taken
    from the form at the time of the export.
  \<^item> Across components: the CSV text of extracted records decodes to the rows of the
    table; the file saved by an export in a reachable state reads back as the records
    on the screen.

  \<^bold>\<open>No fuel and no bounds.\<close>  Every function of the development is total: the loops
  are structural recursions or come with a measure (\<open>parse_rows\<close> on the lines left,
  \<open>next_chunk\<close> on the chunks left), so no theorem depends on a bound on the input.
  The asynchronous search is two steps of the machine; that it ends is the theorem
  that the settling step is enabled whenever the form is loading.

  \<^bold>\<open>Not modelled.\<close>  The markup and styling of \<^verbatim>\<open>App.tsx\<close> and \<^verbatim>\<open>Header.tsx\<close> beyond the
  attributes that enable and disable controls; the component \<^verbatim>\<open>ResultsTable\<close>, which
  is imported but not part of the sources; \<^verbatim>\<open>console.error\<close>; the generation service
  and the \<^verbatim>\<open>@google/genai\<close> client, which are parameters; code units from 256 on,
  except the byte order mark; a browser without \<^verbatim>\<open>crypto.randomUUID\<close>, where the
  extractor throws inside the \<^verbatim>\<open>try\<close> block of \<^verbatim>\<open>searchPlaces\<close> and the \<^verbatim>\<open>catch\<close> reports
  it as a failed search (the generator of identifiers is a total function here).
\<close>

section \<open>Definitions that span components\<close>

definition quote_free_tail :: "js_string list \<Rightarrow> bool" where
  "quote_free_tail cols \<longleftrightarrow> list_all (\<lambda>c. dquote \<notin> set c) (drop 2 (fill_na cols))"

definition read_file :: "byte list \<Rightarrow> js_string list list option" where
  "read_file bs =
     (case utf8_decode bs of
        None \<Rightarrow> None
      | Some us \<Rightarrow>
          if take 1 us = bom
          then (case string_of_units (drop 1 us) of None \<Rightarrow> None | Some s \<Rightarrow> csv_decode s)
          else None)"

section \<open>Lemmas\<close>

lemma quote_safe_text_fields:
  "quote_safe p \<longleftrightarrow>
     list_all (\<lambda>c. dquote \<notin> set c) (drop 2 (text_fields p)) \<and>
     dquote \<notin> set (or_else (googleMapsUrl p) [])"
  by (auto simp add: quote_safe_def text_fields_def)

lemma googleMapsUrl_make_place [simp]: "googleMapsUrl (make_place u cols) = None"
  by (simp add: make_place_def)

lemma quote_safe_make_place: "quote_safe (make_place u cols) \<longleftrightarrow> quote_free_tail cols"
  by (simp add: quote_safe_text_fields text_fields_make_place quote_free_tail_def fill_na_def
      or_else_def)

lemma csv_values_make_place: "csv_values (make_place u cols) = fill_na cols @ [[]]"
  by (simp add: csv_values_def text_fields_make_place fill_na_def or_else_def)

lemma quote_safe_number_rows:
  "list_all quote_safe (number_rows gen k rows) \<longleftrightarrow> list_all quote_free_tail rows"
  by (induction rows arbitrary: k) (simp_all add: quote_safe_make_place)

lemma csv_values_number_rows:
  "map csv_values (number_rows gen k rows) = map (\<lambda>cols. fill_na cols @ [[]]) rows"
  by (induction rows arbitrary: k) (simp_all add: csv_values_make_place)

lemma read_csv_blob: "read_file (blob_bytes (csv_blob t)) = csv_decode t"
  by (simp add: read_file_def utf8_decode_csv_blob) (simp add: bom_def string_of_code_units)

section \<open>Properties that span components\<close>

text \<open>
  C5.  Extraction followed by serialisation keeps the table: when the cells of the
  third to sixth column of the rows of a text contain no double quote, the CSV text
  of the records extracted from the text decodes to the header row followed by one
  row per table row, in order: its six cells, with \<^verbatim>\<open>N/A\<close> for a missing or empty one,
  and an empty URL.
\<close>
theorem extract_then_csv:
  assumes "list_all quote_free_tail (table_rows markdown)"
  shows "csv_decode (convertToCSV (fst (parseMarkdownTableToData gen k markdown))) =
           Some (headers # map (\<lambda>cols. fill_na cols @ [[]]) (table_rows markdown))"
  using assms
  by (simp add: fst_parse csv_decode_convert quote_safe_number_rows csv_values_number_rows)

theorem extract_then_csv_witness:
  "csv_decode (convertToCSV (fst (parseMarkdownTableToData demo_gen 0 demo_text))) =
     Some [headers,
       [''Cafe Uno'', ''1 Main St, Baku'', ''4.5'', ''120'', ''uno.example'', ''555-0101'', []],
       [''Tea House'', ''2 Side St, Baku'', ''N/A'', ''N/A'', ''N/A'', ''N/A'', []]]"
proof -
  have "list_all quote_free_tail (table_rows demo_text)"
    by code_simp
  moreover have "map (\<lambda>cols. fill_na cols @ [[]]) (table_rows demo_text) =
      [[''Cafe Uno'', ''1 Main St, Baku'', ''4.5'', ''120'', ''uno.example'', ''555-0101'', []],
       [''Tea House'', ''2 Side St, Baku'', ''N/A'', ''N/A'', ''N/A'', ''N/A'', []]]"
    by code_simp
  ultimately show ?thesis
    using extract_then_csv [of demo_text demo_gen 0] by simp
qed

text \<open>
  C9.  From the search to the file: in any reachable state of the form with
  records on the screen, in a browser that supports downloads, if the records are
  free of double quotes outside name and address, then the file the export saves is
  UTF-8 text that starts with the byte order mark and reads back, as CSV, as the
  header row followed by the seven values of each record shown, in order.
\<close>
theorem export_file_reads_back:
  assumes "reachable apiKey gen s" and "enabled s ExportClick" and "download_supported (doc s)"
    and "list_all quote_safe (data (ui s))"
  shows "map (\<lambda>(n, b). read_file (blob_bytes b))
           (drop (length (saved (doc s))) (saved (doc (fire apiKey gen ExportClick s)))) =
         [Some (headers # map csv_values (data (ui s)))]"
proof -
  from reachable_invariant [OF assms(1)] have "page_ok (doc s)"
    by (simp add: invariant_def)
  with assms(2,3) have "drop (length (saved (doc s))) (saved (doc (fire apiKey gen ExportClick s))) =
      [(export_filename (finalCategory (ui s)) (location (ui s)),
        csv_blob (convertToCSV (data (ui s))))]"
    by (simp add: handleExport_def downloadCSV_saved)
  with assms(4) show ?thesis
    by (simp add: read_csv_blob csv_decode_convert)
qed

theorem export_file_reads_back_witness:
  "\<exists>s. run ''key'' demo_gen demo_search demo_system = Some s \<and>
       map (\<lambda>(n, b). read_file (blob_bytes b)) (saved (doc (fire ''key'' demo_gen ExportClick s))) =
         [Some [headers,
            [''Cafe Uno'', ''1 Main St, Baku'', ''4.5'', ''120'', ''uno.example'', ''555-0101'',
             ''https://maps.example/?cid=1''],
            [''Tea House'', ''2 Side St, Baku'', ''N/A'', ''N/A'', ''N/A'', ''N/A'',
             ''https://maps.example/?cid=3'']]]"
proof -
  obtain s where s: "run ''key'' demo_gen demo_search demo_system = Some s"
    using demo_run by blast
  have "map_option (\<lambda>s. (enabled s ExportClick \<and> download_supported (doc s) \<and>
            list_all quote_safe (data (ui s)),
            saved (doc s), map csv_values (data (ui s))))
          (run ''key'' demo_gen demo_search demo_system) =
        Some (True, [],
           [[''Cafe Uno'', ''1 Main St, Baku'', ''4.5'', ''120'', ''uno.example'', ''555-0101'',
             ''https://maps.example/?cid=1''],
            [''Tea House'', ''2 Side St, Baku'', ''N/A'', ''N/A'', ''N/A'', ''N/A'',
             ''https://maps.example/?cid=3'']])"
    by code_simp
  with s have "enabled s ExportClick" "download_supported (doc s)"
    "list_all quote_safe (data (ui s))" "saved (doc s) = []"
    "map csv_values (data (ui s)) =
       [[''Cafe Uno'', ''1 Main St, Baku'', ''4.5'', ''120'', ''uno.example'', ''555-0101'',
         ''https://maps.example/?cid=1''],
        [''Tea House'', ''2 Side St, Baku'', ''N/A'', ''N/A'', ''N/A'', ''N/A'',
         ''https://maps.example/?cid=3'']]"
    by simp_all
  with export_file_reads_back [OF demo_reachable [OF s]] s show ?thesis
    by simp
qed

end
